theory Spec2Isabelle
  imports Main
begin

section \<open>The accelerometer processing entry point (accProcess.main)\<close>

text \<open>
  This theory embeds the body of \<^verbatim>\<open>main()\<close> of \<^verbatim>\<open>accelerometer/accProcess.py\<close>,
  from the line after \<^verbatim>\<open>args = parser.parse_args()\<close> to the end of the function.
  The parsed namespace is a record, the statements of \<^verbatim>\<open>main\<close> are steps on an explicit
  machine state (namespace, filesystem, summary dictionary, registered exit handler and a
  trace of the observable actions), and every \<^verbatim>\<open>assert\<close>, \<^verbatim>\<open>KeyError\<close> and collaborator
  exception is a \<open>Raised\<close> outcome. Assertions are taken as enabled (the interpreter's
  default mode). The three collaborators living in other modules
  (\<^verbatim>\<open>device.processInputFileToEpoch\<close>, \<^verbatim>\<open>summariseEpoch.getActivitySummary\<close>,
  \<^verbatim>\<open>accUtils.writeTimeSeries\<close>) are parameters.
\<close>

subsection \<open>Library functions used by the source\<close>

text \<open>\<^verbatim>\<open>str.split(sep)\<close> for a one-character separator: never returns the empty list.\<close>

fun split_str :: "char \<Rightarrow> string \<Rightarrow> string list" where
  "split_str c [] = [[]]"
| "split_str c (x # xs) =
     (if x = c then [] # split_str c xs
      else (x # hd (split_str c xs)) # tl (split_str c xs))"

definition sep :: char where
  "sep = CHR ''/''"

definition dot :: char where
  "dot = CHR ''.''"

text \<open>
  \<^verbatim>\<open>posixpath.split(p)\<close>: \<^verbatim>\<open>i = p.rfind('/') + 1; head, tail = p[:i], p[i:]\<close>, and the
  trailing slashes of a head that is not all slashes are stripped.
\<close>

definition rfind_tail :: "string \<Rightarrow> string" where
  "rfind_tail p = rev (takeWhile (\<lambda>c. c \<noteq> sep) (rev p))"

definition rfind_head :: "string \<Rightarrow> string" where
  "rfind_head p = rev (dropWhile (\<lambda>c. c \<noteq> sep) (rev p))"

definition rstrip_sep :: "string \<Rightarrow> string" where
  "rstrip_sep h = rev (dropWhile (\<lambda>c. c = sep) (rev h))"

definition os_path_split :: "string \<Rightarrow> string \<times> string" where
  "os_path_split p =
     (let head = rfind_head p; tail = rfind_tail p
      in (if head \<noteq> [] \<and> head \<noteq> replicate (length head) sep
          then rstrip_sep head else head, tail))"

text \<open>\<^verbatim>\<open>posixpath.join(a, b)\<close> with one component \<open>b\<close>.\<close>

definition os_path_join :: "string \<Rightarrow> string \<Rightarrow> string" where
  "os_path_join a b =
     (if b \<noteq> [] \<and> hd b = sep then b
      else if a = [] \<or> last a = sep then a @ b
      else a @ [sep] @ b)"

subsection \<open>Timestamps\<close>

text \<open>
  \<^verbatim>\<open>str2date\<close> parses with the format \<^verbatim>\<open>%Y-%m-%dT%H:%M\<close>, so a timestamp is a naive
  datetime with zero seconds. Comparison is the one of \<^verbatim>\<open>datetime._cmp\<close>: the field
  tuples are compared lexicographically.
\<close>

record datetime =
  year :: nat
  month :: nat
  day :: nat
  hour :: nat
  minute :: nat

fun cmp_fields :: "nat list \<Rightarrow> nat list \<Rightarrow> int" where
  "cmp_fields [] [] = 0"
| "cmp_fields [] (y # ys) = -1"
| "cmp_fields (x # xs) [] = 1"
| "cmp_fields (x # xs) (y # ys) =
     (if x = y then cmp_fields xs ys else if x > y then 1 else -1)"

definition datetime_fields :: "datetime \<Rightarrow> nat list" where
  "datetime_fields d = [year d, month d, day d, hour d, minute d]"

definition datetime_cmp :: "datetime \<Rightarrow> datetime \<Rightarrow> int" where
  "datetime_cmp a b = cmp_fields (datetime_fields a) (datetime_fields b)"

definition datetime_le :: "datetime \<Rightarrow> datetime \<Rightarrow> bool" where
  "datetime_le a b = (datetime_cmp a b \<le> 0)"

definition datetime_gt :: "datetime \<Rightarrow> datetime \<Rightarrow> bool" where
  "datetime_gt a b = (datetime_cmp a b > 0)"

definition datetime_lt :: "datetime \<Rightarrow> datetime \<Rightarrow> bool" where
  "datetime_lt a b = (datetime_cmp a b < 0)"

text \<open>
  \<^verbatim>\<open>strftime('%Y-%m-%dT%H:%M')\<close>. The month, day, hour and minute are zero-padded to two
  digits; the C library prints \<^verbatim>\<open>%Y\<close> as the plain decimal number of the year, so a year
  below 1000 has fewer than four digits (\<^verbatim>\<open>'999-01-02T03:04'\<close>). The year of a datetime
  lies between 1 and 9999.
\<close>

definition digit :: "nat \<Rightarrow> char" where
  "digit n = ''0123456789'' ! (n mod 10)"

definition pad2 :: "nat \<Rightarrow> string" where
  "pad2 n = [digit (n div 10), digit n]"

definition year_digits :: "nat \<Rightarrow> string" where
  "year_digits n =
     (if n < 10 then [digit n]
      else if n < 100 then [digit (n div 10), digit n]
      else if n < 1000 then [digit (n div 100), digit (n div 10), digit n]
      else [digit (n div 1000), digit (n div 100), digit (n div 10), digit n])"

definition strftime :: "datetime \<Rightarrow> string" where
  "strftime d = year_digits (year d) @ ''-'' @ pad2 (month d) @ ''-'' @ pad2 (day d)
                 @ ''T'' @ pad2 (hour d) @ '':'' @ pad2 (minute d)"

subsection \<open>The parsed command line\<close>

text \<open>
  The fields of the argparse namespace that \<^verbatim>\<open>main\<close> reads or writes itself. The seven
  \<open>...File\<close> attributes are the ones \<^verbatim>\<open>main\<close> adds to the namespace; their initial content
  is never read. The remaining options are only handed on to the collaborators.
\<close>

record args =
  inputFile :: string
  processInputFile :: bool
  sampleRate :: int
  useFilter :: bool
  startTime :: "datetime option"
  endTime :: "datetime option"
  deleteIntermediateFiles :: bool
  outputFolder :: string
  summaryFolder :: string
  epochFolder :: string
  timeSeriesFolder :: string
  nonWearFolder :: string
  stationaryFolder :: string
  rawFolder :: string
  npyFolder :: string
  summaryFile :: string
  nonWearFile :: string
  epochFile :: string
  stationaryFile :: string
  tsFile :: string
  rawFile :: string
  npyFile :: string
  csvTimeXYZTempColsIndex :: string

subsection \<open>Filesystem, errors, events and the machine state\<close>

record filesystem =
  regular_files :: "string set"
  present :: "string set"
  write_perm :: "string set"
  undeletable :: "string set"
  unopenable :: "string set"

text \<open>\<^verbatim>\<open>os.path.isfile\<close>, \<^verbatim>\<open>os.path.exists\<close> and \<^verbatim>\<open>os.access(path, os.W_OK)\<close>; the last
  is false for a path that does not exist.\<close>

definition os_path_isfile :: "filesystem \<Rightarrow> string \<Rightarrow> bool" where
  "os_path_isfile f p = (p \<in> regular_files f)"

definition os_path_exists :: "filesystem \<Rightarrow> string \<Rightarrow> bool" where
  "os_path_exists f p = (p \<in> present f)"

definition os_access_W :: "filesystem \<Rightarrow> string \<Rightarrow> bool" where
  "os_access_W f p = (p \<in> present f \<and> p \<in> write_perm f)"

datatype error =
    AssertionError string
  | KeyError string
  | OSError string
  | IndexError
  | ValueError string
  | StageError string

datatype jvalue = Str string | Num int | Flag bool

type_synonym summary = "string \<rightharpoonup> jvalue"

datatype event =
    Warning string
  | OsAccess string
  | Echo args
  | SetSummary string jvalue
  | CallDecode args "int list" summary
  | CallSummarise args summary
  | CallWriteTS string
  | ToScreen string
  | ShortSummary "(string \<times> jvalue) list"
  | WriteSummaryFile string summary
  | OsRemove string
  | ReportDuration

record machine =
  args :: args
  fs :: filesystem
  summary :: summary
  registered :: bool
  trace :: "event list"

datatype outcome = Done machine | Raised error machine

fun machine_of :: "outcome \<Rightarrow> machine" where
  "machine_of (Done m) = m"
| "machine_of (Raised e m) = m"

fun raised :: "outcome \<Rightarrow> error option" where
  "raised (Done m) = None"
| "raised (Raised e m) = Some e"

definition emit :: "event \<Rightarrow> machine \<Rightarrow> machine" where
  "emit e m = m\<lparr>trace := trace m @ [e]\<rparr>"

text \<open>Statements in sequence: the first one that raises ends the run.\<close>

fun run_steps :: "(machine \<Rightarrow> outcome) list \<Rightarrow> machine \<Rightarrow> outcome" where
  "run_steps [] m = Done m"
| "run_steps (step # steps) m =
     (case step m of Done m' \<Rightarrow> run_steps steps m' | Raised e m' \<Rightarrow> Raised e m')"

text \<open>
  The collaborators and the one builtin whose failure matters (\<^verbatim>\<open>int()\<close> on a column
  index). A collaborator may update the summary and the filesystem, and may raise after
  having done so; \<open>'d\<close> is the pair of epoch table and labels.
\<close>

record 'd collaborators =
  py_int :: "string \<Rightarrow> int option"
  processInputFileToEpoch ::
    "args \<Rightarrow> int list \<Rightarrow> summary \<Rightarrow> filesystem \<Rightarrow> error option \<times> summary \<times> filesystem"
  getActivitySummary ::
    "args \<Rightarrow> summary \<Rightarrow> filesystem \<Rightarrow> (error + 'd) \<times> summary \<times> filesystem"
  writeTimeSeries ::
    "'d \<Rightarrow> string \<Rightarrow> filesystem \<Rightarrow> error option \<times> filesystem"

subsection \<open>The statements of main\<close>

definition quote :: char where
  "quote = CHR 0x27"

definition newline :: char where
  "newline = CHR 0x0A"

definition set_args :: "(args \<Rightarrow> args) \<Rightarrow> machine \<Rightarrow> machine" where
  "set_args g m = m\<lparr>args := g (args m)\<rparr>"

text \<open>\<^verbatim>\<open>assert args.sampleRate >= 25, "sampleRate<25 currently not supported"\<close>\<close>

definition check_sampleRate :: "machine \<Rightarrow> outcome" where
  "check_sampleRate m =
     (if sampleRate (args m) \<ge> 25 then Done m
      else Raised (AssertionError ''sampleRate<25 currently not supported'') m)"

text \<open>\<^verbatim>\<open>if args.sampleRate <= 40: warnings.warn(...); args.useFilter = False\<close>\<close>

definition skip_lowpass :: "machine \<Rightarrow> outcome" where
  "skip_lowpass m =
     (if sampleRate (args m) \<le> 40
      then Done (set_args (\<lambda>a. a\<lparr>useFilter := False\<rparr>)
             (emit (Warning
               ''Skipping lowpass filter (--useFilter False) as sampleRate too low (<= 40)'') m))
      else Done m)"

text \<open>Lines 253 to 259: the input file must exist when it is processed; otherwise a
  path whose \<^verbatim>\<open>split('.')\<close> has fewer than two parts gets \<^verbatim>\<open>'.cwa'\<close> appended.\<close>

definition file_missing_msg :: "string \<Rightarrow> string" where
  "file_missing_msg p = ''File '' @ [quote] @ p @ [quote] @ '' does not exist''"

definition check_inputFile :: "machine \<Rightarrow> outcome" where
  "check_inputFile m =
     (if processInputFile (args m)
      then (if os_path_isfile (fs m) (inputFile (args m)) then Done m
            else Raised (AssertionError (file_missing_msg (inputFile (args m)))) m)
      else (if length (split_str dot (inputFile (args m))) < 2
            then Done (set_args (\<lambda>a. a\<lparr>inputFile := inputFile a @ ''.cwa''\<rparr>) m)
            else Done m))"

text \<open>Lines 266 to 281, with \<open>folder\<close> the local \<^verbatim>\<open>inputFileFolder\<close>.\<close>

definition default_folders :: "string \<Rightarrow> args \<Rightarrow> args" where
  "default_folders folder a0 =
     (let a1 = (if outputFolder a0 = [] then a0\<lparr>outputFolder := folder\<rparr> else a0);
          a2 = (if summaryFolder a1 = [] then a1\<lparr>summaryFolder := outputFolder a1\<rparr> else a1);
          a3 = (if nonWearFolder a2 = [] then a2\<lparr>nonWearFolder := outputFolder a2\<rparr> else a2);
          a4 = (if epochFolder a3 = [] then a3\<lparr>epochFolder := outputFolder a3\<rparr> else a3);
          a5 = (if stationaryFolder a4 = []
                then a4\<lparr>stationaryFolder := outputFolder a4\<rparr> else a4);
          a6 = (if timeSeriesFolder a5 = []
                then a5\<lparr>timeSeriesFolder := outputFolder a5\<rparr> else a5);
          a7 = (if rawFolder a6 = [] then a6\<lparr>rawFolder := outputFolder a6\<rparr> else a6)
      in (if npyFolder a7 = [] then a7\<lparr>npyFolder := outputFolder a7\<rparr> else a7))"

text \<open>Lines 283 to 289, with \<open>name\<close> the local \<^verbatim>\<open>inputFileName\<close>.\<close>

definition default_filenames :: "string \<Rightarrow> args \<Rightarrow> args" where
  "default_filenames name a =
     a\<lparr>summaryFile := os_path_join (summaryFolder a) (name @ ''-summary.json''),
       nonWearFile := os_path_join (nonWearFolder a) (name @ ''-nonWearBouts.csv.gz''),
       epochFile := os_path_join (epochFolder a) (name @ ''-epoch.csv.gz''),
       stationaryFile :=
         os_path_join (stationaryFolder a) (name @ ''-stationaryPoints.csv.gz''),
       tsFile := os_path_join (timeSeriesFolder a) (name @ ''-timeSeries.csv.gz''),
       rawFile := os_path_join (rawFolder a) (name @ ''.csv.gz''),
       npyFile := os_path_join (npyFolder a) (name @ ''.npy'')\<rparr>"

text \<open>Lines 262 to 289. \<^verbatim>\<open>inputFileName.split('.')[0]\<close> raises IndexError on an empty
  list of parts.\<close>

definition set_output_names :: "machine \<Rightarrow> outcome" where
  "set_output_names m =
     (let (inputFileFolder, inputFileName) = os_path_split (inputFile (args m))
      in (case split_str dot inputFileName of
            [] \<Rightarrow> Raised IndexError m
          | stem # _ \<Rightarrow>
              Done (set_args (\<lambda>a. default_filenames stem (default_folders inputFileFolder a))
                      m)))"

text \<open>Lines 292 to 305: one \<^verbatim>\<open>os.access\<close> call and assertion per folder, in order.\<close>

definition folder_msg :: "string \<Rightarrow> string" where
  "folder_msg p = ''Either folder '' @ [quote] @ p @ [quote]
                   @ '' does not exist or you do not have write permission''"

fun assert_writable :: "string list \<Rightarrow> machine \<Rightarrow> outcome" where
  "assert_writable [] m = Done m"
| "assert_writable (p # ps) m =
     (if os_access_W (fs m) p then assert_writable ps (emit (OsAccess p) m)
      else Raised (AssertionError (folder_msg p)) (emit (OsAccess p) m))"

definition checked_folders :: "args \<Rightarrow> string list" where
  "checked_folders a =
     [summaryFolder a, nonWearFolder a, stationaryFolder a, timeSeriesFolder a,
      rawFolder a, npyFolder a, outputFolder a]"

definition check_output_folders :: "machine \<Rightarrow> outcome" where
  "check_output_folders m =
     (case assert_writable (checked_folders (args m)) m of
        Raised e m' \<Rightarrow> Raised e m'
      | Done m' \<Rightarrow>
          (if processInputFile (args m') then assert_writable [epochFolder (args m')] m'
           else Done m'))"

text \<open>Lines 308 to 317: the exit handler is registered when cleanup is enabled.\<close>

definition schedule_cleanup :: "machine \<Rightarrow> outcome" where
  "schedule_cleanup m =
     (if deleteIntermediateFiles (args m) then Done (m\<lparr>registered := True\<rparr>) else Done m)"

text \<open>Lines 320 to 325.\<close>

definition time_order_msg :: "datetime \<Rightarrow> datetime \<Rightarrow> string" where
  "time_order_msg s e =
     ''startTime and endTime arguments are invalid!'' @ [newline]
     @ ''startTime: '' @ strftime s @ [newline]
     @ ''endTime:, '' @ strftime e @ [newline]"

definition check_time_order :: "machine \<Rightarrow> outcome" where
  "check_time_order m =
     (case (startTime (args m), endTime (args m)) of
        (Some s, Some e) \<Rightarrow>
          (if datetime_le s e then Done m
           else Raised (AssertionError (time_order_msg s e)) m)
      | _ \<Rightarrow> Done m)"

text \<open>Lines 328 to 331: the options are printed.\<close>

definition echo_options :: "machine \<Rightarrow> outcome" where
  "echo_options m = Done (emit (Echo (args m)) m)"

text \<open>Lines 336 to 356. The column indices are converted before the call is made.\<close>

fun parse_ints :: "(string \<Rightarrow> int option) \<Rightarrow> string list \<Rightarrow> error + int list" where
  "parse_ints conv [] = Inr []"
| "parse_ints conv (w # ws) =
     (case conv w of
        None \<Rightarrow> Inl (ValueError w)
      | Some i \<Rightarrow> (case parse_ints conv ws of Inl e \<Rightarrow> Inl e | Inr r \<Rightarrow> Inr (i # r)))"

definition set_key :: "string \<Rightarrow> jvalue \<Rightarrow> machine \<Rightarrow> machine" where
  "set_key k v m = emit (SetSummary k v) (m\<lparr>summary := (summary m)(k \<mapsto> v)\<rparr>)"

definition process_input :: "'d collaborators \<Rightarrow> machine \<Rightarrow> outcome" where
  "process_input c m0 =
     (let m = m0\<lparr>summary := Map.empty\<rparr>
      in if processInputFile (args m)
         then (let m1 = set_key ''file-name'' (Str (inputFile (args m))) m
               in case parse_ints (py_int c)
                         (split_str (CHR '','') (csvTimeXYZTempColsIndex (args m1))) of
                    Inl e \<Rightarrow> Raised e m1
                  | Inr cols \<Rightarrow>
                      (let m2 = emit (CallDecode (args m1) cols (summary m1)) m1
                       in case processInputFileToEpoch c (args m2) cols (summary m2) (fs m2) of
                            (Some e, s, f) \<Rightarrow> Raised e (m2\<lparr>fs := f, summary := s\<rparr>)
                          | (None, s, f) \<Rightarrow> Done (m2\<lparr>fs := f, summary := s\<rparr>)))
         else Done (set_key ''file-name'' (Str (epochFile (args m))) m))"

text \<open>Lines 359 to 373.\<close>

definition summarise_and_export :: "'d collaborators \<Rightarrow> machine \<Rightarrow> outcome" where
  "summarise_and_export c m =
     (let m1 = emit (CallSummarise (args m) (summary m)) m
      in case getActivitySummary c (args m1) (summary m1) (fs m1) of
           (Inl e, s, f) \<Rightarrow> Raised e (m1\<lparr>fs := f, summary := s\<rparr>)
         | (Inr d, s, f) \<Rightarrow>
             (let m2 = emit (CallWriteTS (tsFile (args m1))) (m1\<lparr>fs := f, summary := s\<rparr>)
              in case writeTimeSeries c d (tsFile (args m2)) (fs m2) of
                   (Some e, f') \<Rightarrow> Raised e (m2\<lparr>fs := f'\<rparr>)
                 | (None, f') \<Rightarrow> Done (m2\<lparr>fs := f'\<rparr>)))"

text \<open>Lines 376 to 381: \<^verbatim>\<open>[(i, summary[i]) for i in summaryVals]\<close> raises KeyError at
  the first key that is missing.\<close>

definition summaryVals :: "string list" where
  "summaryVals = [''file-name'', ''file-startTime'', ''file-endTime'', ''acc-overall-avg'',
                  ''wearTime-overall(days)'', ''nonWearTime-overall(days)'',
                  ''quality-goodWearTime'']"

fun lookup_all :: "summary \<Rightarrow> string list \<Rightarrow> error + (string \<times> jvalue) list" where
  "lookup_all s [] = Inr []"
| "lookup_all s (k # ks) =
     (case s k of
        None \<Rightarrow> Inl (KeyError k)
      | Some v \<Rightarrow> (case lookup_all s ks of Inl e \<Rightarrow> Inl e | Inr r \<Rightarrow> Inr ((k, v) # r)))"

definition print_short_summary :: "machine \<Rightarrow> outcome" where
  "print_short_summary m =
     (let m1 = emit (ToScreen ''=== Short summary ==='') m
      in case lookup_all (summary m1) summaryVals of
           Inl e \<Rightarrow> Raised e m1
         | Inr kvs \<Rightarrow> Done (emit (ShortSummary kvs) m1))"

text \<open>Lines 384 to 386: \<^verbatim>\<open>open(args.summaryFile, 'w')\<close> may raise OSError.\<close>

definition write_summary :: "machine \<Rightarrow> outcome" where
  "write_summary m =
     (let p = summaryFile (args m)
      in if p \<in> unopenable (fs m) then Raised (OSError p) m
         else Done (emit (WriteSummaryFile p (summary m))
                 (m\<lparr>fs := (fs m)\<lparr>regular_files := insert p (regular_files (fs m)),
                                    present := insert p (present (fs m))\<rparr>\<rparr>)))"

text \<open>Lines 391 to 395: the elapsed wall-clock time is reported; its value is not modelled.\<close>

definition closing :: "machine \<Rightarrow> outcome" where
  "closing m = Done (emit ReportDuration m)"

definition validation_steps :: "(machine \<Rightarrow> outcome) list" where
  "validation_steps =
     [check_sampleRate, skip_lowpass, check_inputFile, set_output_names,
      check_output_folders, schedule_cleanup, check_time_order, echo_options]"

definition processing_steps :: "'d collaborators \<Rightarrow> (machine \<Rightarrow> outcome) list" where
  "processing_steps c = [process_input c, summarise_and_export c]"

definition finalization_steps :: "(machine \<Rightarrow> outcome) list" where
  "finalization_steps = [print_short_summary, write_summary, closing]"

definition main :: "'d collaborators \<Rightarrow> machine \<Rightarrow> outcome" where
  "main c = run_steps (validation_steps @ processing_steps c @ finalization_steps)"

text \<open>The state in which \<^verbatim>\<open>main\<close> starts after \<^verbatim>\<open>parse_args\<close>.\<close>

definition start :: "args \<Rightarrow> filesystem \<Rightarrow> machine" where
  "start a f = \<lparr>args = a, fs = f, summary = Map.empty, registered = False, trace = []\<rparr>"

subsection \<open>The exit handler\<close>

text \<open>\<^verbatim>\<open>os.remove(p)\<close> raises OSError when the file cannot be removed.\<close>

definition os_remove :: "string \<Rightarrow> machine \<Rightarrow> outcome" where
  "os_remove p m =
     (let m1 = emit (OsRemove p) m
      in if p \<in> present (fs m1) \<and> p \<notin> undeletable (fs m1)
         then Done (m1\<lparr>fs := (fs m1)\<lparr>regular_files := regular_files (fs m1) - {p},
                                       present := present (fs m1) - {p}\<rparr>\<rparr>)
         else Raised (OSError p) m1)"

definition remove_if_exists :: "string \<Rightarrow> machine \<Rightarrow> outcome" where
  "remove_if_exists p m = (if os_path_exists (fs m) p then os_remove p m else Done m)"

text \<open>Lines 310 to 317: both removals are inside one \<^verbatim>\<open>try\<close>, and \<^verbatim>\<open>except OSError\<close>
  prints the warning.\<close>

definition deleteIntermediateFiles_handler :: "machine \<Rightarrow> outcome" where
  "deleteIntermediateFiles_handler m =
     (case run_steps [remove_if_exists (stationaryFile (args m)),
                      remove_if_exists (epochFile (args m))] m of
        Done m' \<Rightarrow> Done m'
      | Raised (OSError x) m' \<Rightarrow> Done (emit (ToScreen ''Could not delete intermediate files'') m')
      | Raised e m' \<Rightarrow> Raised e m')"

text \<open>
  Interpreter exit: a registered handler runs whatever the outcome of \<^verbatim>\<open>main\<close> was. An
  exception escaping the handler is made the outcome here, so that a handler able to
  replace the result of the run would show.
\<close>

definition at_exit :: "outcome \<Rightarrow> outcome" where
  "at_exit r =
     (if registered (machine_of r)
      then (case deleteIntermediateFiles_handler (machine_of r) of
              Raised e m' \<Rightarrow> Raised e m'
            | Done m' \<Rightarrow> (case r of Done _ \<Rightarrow> Done m' | Raised e _ \<Rightarrow> Raised e m'))
      else r)"

definition program :: "'d collaborators \<Rightarrow> args \<Rightarrow> filesystem \<Rightarrow> outcome" where
  "program c a f = at_exit (main c (start a f))"

subsection \<open>Closed forms used in the proofs\<close>

text \<open>
  The following definitions are not statements of the source: they name what the first
  statements of \<^verbatim>\<open>main\<close> compute, and each is proved equal to the run of the
  corresponding steps below. \<open>resolved_args\<close> is the namespace after line 289,
  \<open>gate_folders\<close> the folders probed by lines 292 to 305 in their order,
  \<open>gated_machine\<close> the state after line 317 and \<open>validated_machine\<close> the state in which
  the processing starts at line 336.
\<close>

definition resolved_args :: "args \<Rightarrow> args" where
  "resolved_args a =
     (let a1 = (if sampleRate a \<le> 40 then a\<lparr>useFilter := False\<rparr> else a);
          a2 = (if \<not> processInputFile a1 \<and> dot \<notin> set (inputFile a1)
                then a1\<lparr>inputFile := inputFile a1 @ ''.cwa''\<rparr> else a1)
      in default_filenames (takeWhile (\<lambda>x. x \<noteq> dot) (snd (os_path_split (inputFile a))))
           (default_folders (fst (os_path_split (inputFile a))) a2))"

definition resolved_machine :: "args \<Rightarrow> filesystem \<Rightarrow> machine" where
  "resolved_machine a f =
     \<lparr>args = resolved_args a, fs = f, summary = Map.empty, registered = False,
      trace = (if sampleRate a \<le> 40
               then [Warning
                 ''Skipping lowpass filter (--useFilter False) as sampleRate too low (<= 40)'']
               else [])\<rparr>"

definition gate_folders :: "args \<Rightarrow> string list" where
  "gate_folders a = checked_folders a @ (if processInputFile a then [epochFolder a] else [])"

fun stage_event :: "event \<Rightarrow> bool" where
  "stage_event (CallDecode a cols s) = True"
| "stage_event (CallSummarise a s) = True"
| "stage_event (CallWriteTS p) = True"
| "stage_event e = False"

definition no_stage_ran :: "machine \<Rightarrow> bool" where
  "no_stage_ran m = (filter stage_event (trace m) = [])"

definition time_order_ok :: "args \<Rightarrow> bool" where
  "time_order_ok a =
     (case (startTime a, endTime a) of (Some s, Some e) \<Rightarrow> datetime_le s e | _ \<Rightarrow> True)"

definition gated_machine :: "args \<Rightarrow> filesystem \<Rightarrow> machine" where
  "gated_machine a f =
     (resolved_machine a f)\<lparr>registered := deleteIntermediateFiles a,
        trace := trace (resolved_machine a f) @ map OsAccess (gate_folders (resolved_args a))\<rparr>"

definition validated_machine :: "args \<Rightarrow> filesystem \<Rightarrow> machine" where
  "validated_machine a f = emit (Echo (resolved_args a)) (gated_machine a f)"

definition lowpass_machine :: "args \<Rightarrow> filesystem \<Rightarrow> machine" where
  "lowpass_machine a f =
     \<lparr>args = a\<lparr>useFilter := (if sampleRate a \<le> 40 then False else useFilter a)\<rparr>, fs = f,
      summary = Map.empty, registered = False,
      trace = (if sampleRate a \<le> 40
               then [Warning
                 ''Skipping lowpass filter (--useFilter False) as sampleRate too low (<= 40)'']
               else [])\<rparr>"

fun late_event :: "args \<Rightarrow> event \<Rightarrow> bool" where
  "late_event A (SetSummary k v) = (k = ''file-name'')"
| "late_event A (CallDecode a cols s) = (a = A)"
| "late_event A (CallSummarise a s) = (a = A)"
| "late_event A (CallWriteTS p) = (p = tsFile A)"
| "late_event A (ToScreen x) = True"
| "late_event A (ShortSummary kvs) = True"
| "late_event A (WriteSummaryFile p s) = (p = summaryFile A)"
| "late_event A ReportDuration = True"
| "late_event A e = False"

definition late_frame :: "machine \<Rightarrow> machine \<Rightarrow> bool" where
  "late_frame m m' =
     (args m' = args m \<and> registered m' = registered m \<and>
      (\<exists>es. trace m' = trace m @ es \<and> list_all (late_event (args m)) es))"

fun decode_with_flag :: "bool \<Rightarrow> event \<Rightarrow> bool" where
  "decode_with_flag b (CallDecode a cols s) = (useFilter a = b)"
| "decode_with_flag b e = True"

definition filter_flag_is :: "bool \<Rightarrow> outcome \<Rightarrow> bool" where
  "filter_flag_is b r =
     (useFilter (args (machine_of r)) = b \<and> list_all (decode_with_flag b) (trace (machine_of r)))"

definition single_digit :: "string \<Rightarrow> int option" where
  "single_digit = map_of [(''0'', 0), (''1'', 1), (''2'', 2), (''3'', 3), (''4'', 4),
                         (''5'', 5), (''6'', 6), (''7'', 7), (''8'', 8), (''9'', 9)]"

definition example_args :: args where
  "example_args =
     \<lparr>inputFile = ''/data/sample.cwa.gz'', processInputFile = True, sampleRate = 100,
      useFilter = True, startTime = None, endTime = None, deleteIntermediateFiles = True,
      outputFolder = [], summaryFolder = [], epochFolder = [], timeSeriesFolder = [],
      nonWearFolder = [], stationaryFolder = [], rawFolder = [], npyFolder = [],
      summaryFile = [], nonWearFile = [], epochFile = [], stationaryFile = [], tsFile = [],
      rawFile = [], npyFile = [], csvTimeXYZTempColsIndex = ''0,1,2,3,4''\<rparr>"

definition example_fs :: filesystem where
  "example_fs =
     \<lparr>regular_files = {''/data/sample.cwa.gz''},
      present = {''/data'', ''/data/sample.cwa.gz''},
      write_perm = {''/data''}, undeletable = {}, unopenable = {}\<rparr>"

definition example_collaborators :: "unit collaborators" where
  "example_collaborators =
     \<lparr>py_int = single_digit,
      processInputFileToEpoch = (\<lambda>a cols s f.
         (None, s(''file-startTime'' \<mapsto> Str ''2020-01-01 00:00:00'',
                  ''file-endTime'' \<mapsto> Str ''2020-01-08 00:00:00''), f)),
      getActivitySummary = (\<lambda>a s f.
         (Inr (), s(''acc-overall-avg'' \<mapsto> Num 28, ''wearTime-overall(days)'' \<mapsto> Num 7,
                    ''nonWearTime-overall(days)'' \<mapsto> Num 0,
                    ''quality-goodWearTime'' \<mapsto> Num 1), f)),
      writeTimeSeries = (\<lambda>d p f. (None, f))\<rparr>"

definition example_start :: datetime where
  "example_start = \<lparr>year = 2020, month = 1, day = 9, hour = 0, minute = 0\<rparr>"

definition example_end :: datetime where
  "example_end = \<lparr>year = 2020, month = 1, day = 2, hour = 12, minute = 30\<rparr>"

definition example_skip_args :: args where
  "example_skip_args = example_args\<lparr>inputFile := ''./sample'', processInputFile := False\<rparr>"

definition cleanup_warning :: event where
  "cleanup_warning = ToScreen ''Could not delete intermediate files''"

definition removed :: "string \<Rightarrow> machine \<Rightarrow> machine" where
  "removed p m =
     m\<lparr>fs := (fs m)\<lparr>regular_files := regular_files (fs m) - {p},
                     present := present (fs m) - {p}\<rparr>,
       trace := trace m @ [OsRemove p]\<rparr>"

definition example_cleanup_fs :: filesystem where
  "example_cleanup_fs =
     \<lparr>regular_files = {''/data/sample.cwa.gz'', ''/data/sample-stationaryPoints.csv.gz'',
                        ''/data/sample-epoch.csv.gz''},
      present = {''/data'', ''/data/sample.cwa.gz'', ''/data/sample-stationaryPoints.csv.gz'',
                 ''/data/sample-epoch.csv.gz''},
      write_perm = {''/data''},
      undeletable = {''/data/sample-stationaryPoints.csv.gz''}, unopenable = {}\<rparr>"

fun sets_file_name :: "event \<Rightarrow> bool" where
  "sets_file_name (SetSummary k v) = (k = ''file-name'')"
| "sets_file_name e = False"

fun is_summarise :: "event \<Rightarrow> bool" where
  "is_summarise (CallSummarise a s) = True"
| "is_summarise e = False"

fun is_decode :: "event \<Rightarrow> bool" where
  "is_decode (CallDecode a cols s) = True"
| "is_decode e = False"

definition before_summarise :: "event list \<Rightarrow> event list" where
  "before_summarise t = takeWhile (\<lambda>e. \<not> is_summarise e) t"

fun quiet_event :: "event \<Rightarrow> bool" where
  "quiet_event (Warning x) = True"
| "quiet_event (OsAccess p) = True"
| "quiet_event (Echo a) = True"
| "quiet_event e = False"

fun post_event :: "event \<Rightarrow> bool" where
  "post_event (CallWriteTS p) = True"
| "post_event (ToScreen x) = True"
| "post_event (ShortSummary kvs) = True"
| "post_event (WriteSummaryFile p s) = True"
| "post_event ReportDuration = True"
| "post_event e = False"

definition post_frame :: "machine \<Rightarrow> machine \<Rightarrow> bool" where
  "post_frame m m' = (\<exists>es. trace m' = trace m @ es \<and> list_all post_event es)"

definition example_epoch_only_args :: args where
  "example_epoch_only_args = example_args\<lparr>processInputFile := False\<rparr>"

definition written_complete :: "machine \<Rightarrow> bool" where
  "written_complete m =
     (\<forall>p s. WriteSummaryFile p s \<in> set (trace m) \<longrightarrow> (\<forall>k \<in> set summaryVals. s k \<noteq> None))"

definition example_summary :: summary where
  "example_summary =
     [''file-name'' \<mapsto> Str ''/data/sample.cwa.gz'',
      ''file-startTime'' \<mapsto> Str ''2020-01-01 00:00:00'',
      ''file-endTime'' \<mapsto> Str ''2020-01-08 00:00:00'',
      ''acc-overall-avg'' \<mapsto> Num 28, ''wearTime-overall(days)'' \<mapsto> Num 7,
      ''nonWearTime-overall(days)'' \<mapsto> Num 0, ''quality-goodWearTime'' \<mapsto> Num 1]"

definition example_partial_summary :: summary where
  "example_partial_summary =
     [''file-name'' \<mapsto> Str ''/data/sample.cwa.gz'',
      ''file-startTime'' \<mapsto> Str ''2020-01-01 00:00:00'',
      ''file-endTime'' \<mapsto> Str ''2020-01-08 00:00:00'']"

definition example_unchecked_args :: args where
  "example_unchecked_args = example_args\<lparr>processInputFile := False, epochFolder := ''/elsewhere''\<rparr>"

definition example_file_folder_args :: args where
  "example_file_folder_args = example_args\<lparr>summaryFolder := ''/data/sample.cwa.gz''\<rparr>"

definition example_file_folder_fs :: filesystem where
  "example_file_folder_fs =
     \<lparr>regular_files = {''/data/sample.cwa.gz''},
      present = {''/data'', ''/data/sample.cwa.gz''},
      write_perm = {''/data'', ''/data/sample.cwa.gz''},
      undeletable = {},
      unopenable = {''/data/sample.cwa.gz/sample-summary.json''}\<rparr>"

section \<open>Properties of the steps\<close>

lemma run_steps_append:
  "run_steps (xs @ ys) m =
     (case run_steps xs m of Done m' \<Rightarrow> run_steps ys m' | Raised e m' \<Rightarrow> Raised e m')"
  by (induction xs arbitrary: m) (auto split: outcome.splits)

lemma split_str_nonempty: "split_str c xs \<noteq> []"
  by (induction xs) auto

lemma hd_split_str: "hd (split_str c xs) = takeWhile (\<lambda>x. x \<noteq> c) xs"
  by (induction xs) auto

lemma length_split_str: "length (split_str c xs) = Suc (length (filter (\<lambda>x. x = c) xs))"
proof (induction xs)
  case Nil
  then show ?case by simp
next
  case (Cons x xs)
  have "length (tl (split_str c xs)) = length (split_str c xs) - 1" by simp
  then show ?case using Cons split_str_nonempty[of c xs] by (cases "split_str c xs") auto
qed

lemma split_str_short: "length (split_str c xs) < 2 \<longleftrightarrow> c \<notin> set xs"
proof -
  have "length (filter (\<lambda>x. x = c) xs) = 0 \<longleftrightarrow> c \<notin> set xs"
    by (auto simp: filter_empty_conv)
  then show ?thesis by (simp add: length_split_str) 
qed

lemma rfind_tail_cwa: "rfind_tail (p @ ''.cwa'') = rfind_tail p @ ''.cwa''"
  by (simp add: rfind_tail_def sep_def)

lemma rfind_head_cwa: "rfind_head (p @ ''.cwa'') = rfind_head p"
  by (simp add: rfind_head_def sep_def)

lemma set_rfind_tail: "set (rfind_tail p) \<subseteq> set p"
  unfolding rfind_tail_def using set_takeWhileD by fastforce

lemma os_path_split_cwa:
  "os_path_split (p @ ''.cwa'') = (fst (os_path_split p), snd (os_path_split p) @ ''.cwa'')"
  by (simp add: os_path_split_def Let_def rfind_tail_cwa rfind_head_cwa)

lemma stem_cwa:
  assumes "dot \<notin> set p"
  shows "takeWhile (\<lambda>x. x \<noteq> dot) (snd (os_path_split (p @ ''.cwa'')))
         = takeWhile (\<lambda>x. x \<noteq> dot) (snd (os_path_split p))"
proof -
  let ?t = "snd (os_path_split p)"
  have nd: "\<And>x. x \<in> set ?t \<Longrightarrow> x \<noteq> dot"
    using assms set_rfind_tail[of p] by (auto simp: os_path_split_def Let_def)
  have 1: "takeWhile (\<lambda>x. x \<noteq> dot) (?t @ ''.cwa'') = ?t @ takeWhile (\<lambda>x. x \<noteq> dot) ''.cwa''"
    using nd by (rule takeWhile_append2)
  have 2: "takeWhile (\<lambda>x. x \<noteq> dot) ''.cwa'' = []"
    by (simp add: dot_def)
  have 3: "takeWhile (\<lambda>x. x \<noteq> dot) ?t = ?t"
    using nd by (simp add: takeWhile_eq_all_conv)
  have 4: "snd (os_path_split (p @ ''.cwa'')) = ?t @ ''.cwa''"
    by (simp add: os_path_split_cwa)
  show ?thesis unfolding 4 1 2 3 by simp
qed

lemma set_output_names_eq:
  "set_output_names m =
     Done (set_args (\<lambda>a. default_filenames
              (takeWhile (\<lambda>x. x \<noteq> dot) (snd (os_path_split (inputFile (args m)))))
              (default_folders (fst (os_path_split (inputFile (args m)))) a)) m)"
proof -
  obtain x1 x2 where sp: "os_path_split (inputFile (args m)) = (x1, x2)"
    by (cases "os_path_split (inputFile (args m))")
  obtain w ws where ws: "split_str dot x2 = w # ws"
    using split_str_nonempty[of dot x2] by (cases "split_str dot x2") auto
  have "w = takeWhile (\<lambda>x. x \<noteq> dot) x2"
    using hd_split_str[of dot x2] ws by simp
  then show ?thesis
    by (simp add: set_output_names_def sp ws)
qed

lemma resolution_steps:
  assumes "25 \<le> sampleRate a"
    and "processInputFile a \<longrightarrow> os_path_isfile f (inputFile a)"
  shows "run_steps [check_sampleRate, skip_lowpass, check_inputFile, set_output_names]
           (start a f) = Done (resolved_machine a f)"
proof -
  have 1: "check_sampleRate (start a f) = Done (start a f)"
    using assms(1) by (simp add: check_sampleRate_def start_def)
  define m1 where "m1 = machine_of (skip_lowpass (start a f))"
  have 2: "skip_lowpass (start a f) = Done m1"
    by (simp add: m1_def skip_lowpass_def)
  have m1: "m1 = \<lparr>args = (if sampleRate a \<le> 40 then a\<lparr>useFilter := False\<rparr> else a), fs = f,
       summary = Map.empty, registered = False,
       trace = (if sampleRate a \<le> 40
               then [Warning
                 ''Skipping lowpass filter (--useFilter False) as sampleRate too low (<= 40)'']
               else [])\<rparr>"
    by (simp add: m1_def skip_lowpass_def start_def set_args_def emit_def)
  define m2 where "m2 = machine_of (check_inputFile m1)"
  have 3: "check_inputFile m1 = Done m2"
    using assms(2) by (auto simp: m2_def check_inputFile_def m1)
  have m2: "m2 = m1\<lparr>args := (if \<not> processInputFile (args m1) \<and> dot \<notin> set (inputFile (args m1))
                then (args m1)\<lparr>inputFile := inputFile (args m1) @ ''.cwa''\<rparr> else args m1)\<rparr>"
    by (simp add: m2_def check_inputFile_def set_args_def split_str_short)
  have stem: "takeWhile (\<lambda>x. x \<noteq> dot) (snd (os_path_split (inputFile (args m2))))
            = takeWhile (\<lambda>x. x \<noteq> dot) (snd (os_path_split (inputFile a)))"
    by (simp add: m2 m1 stem_cwa)
  have folder: "fst (os_path_split (inputFile (args m2))) = fst (os_path_split (inputFile a))"
    by (simp add: m2 m1 os_path_split_cwa)
  have 4: "set_output_names m2 = Done (resolved_machine a f)"
    unfolding set_output_names_eq stem folder
    by (simp add: m2 m1 resolved_machine_def resolved_args_def set_args_def Let_def)
  show ?thesis by (simp add: 1 2 3 4)
qed

lemma default_folders_passthrough:
  "inputFile (default_folders d a) = inputFile a"
  "processInputFile (default_folders d a) = processInputFile a"
  "sampleRate (default_folders d a) = sampleRate a"
  "useFilter (default_folders d a) = useFilter a"
  "startTime (default_folders d a) = startTime a"
  "endTime (default_folders d a) = endTime a"
  "deleteIntermediateFiles (default_folders d a) = deleteIntermediateFiles a"
  "csvTimeXYZTempColsIndex (default_folders d a) = csvTimeXYZTempColsIndex a"
  by (simp_all add: default_folders_def Let_def)

lemma default_folders_outputFolder:
  "outputFolder (default_folders d a) = (if outputFolder a = [] then d else outputFolder a)"
  by (simp add: default_folders_def Let_def)

lemma default_folders_folders:
  "summaryFolder (default_folders d a) =
     (if summaryFolder a = [] then outputFolder (default_folders d a) else summaryFolder a)"
  "nonWearFolder (default_folders d a) =
     (if nonWearFolder a = [] then outputFolder (default_folders d a) else nonWearFolder a)"
  "epochFolder (default_folders d a) =
     (if epochFolder a = [] then outputFolder (default_folders d a) else epochFolder a)"
  "stationaryFolder (default_folders d a) =
     (if stationaryFolder a = [] then outputFolder (default_folders d a)
      else stationaryFolder a)"
  "timeSeriesFolder (default_folders d a) =
     (if timeSeriesFolder a = [] then outputFolder (default_folders d a)
      else timeSeriesFolder a)"
  "rawFolder (default_folders d a) =
     (if rawFolder a = [] then outputFolder (default_folders d a) else rawFolder a)"
  "npyFolder (default_folders d a) =
     (if npyFolder a = [] then outputFolder (default_folders d a) else npyFolder a)"
  by (simp_all add: default_folders_def Let_def)

lemma default_filenames_passthrough:
  "inputFile (default_filenames n a) = inputFile a"
  "processInputFile (default_filenames n a) = processInputFile a"
  "sampleRate (default_filenames n a) = sampleRate a"
  "useFilter (default_filenames n a) = useFilter a"
  "startTime (default_filenames n a) = startTime a"
  "endTime (default_filenames n a) = endTime a"
  "deleteIntermediateFiles (default_filenames n a) = deleteIntermediateFiles a"
  "csvTimeXYZTempColsIndex (default_filenames n a) = csvTimeXYZTempColsIndex a"
  "outputFolder (default_filenames n a) = outputFolder a"
  "summaryFolder (default_filenames n a) = summaryFolder a"
  "nonWearFolder (default_filenames n a) = nonWearFolder a"
  "epochFolder (default_filenames n a) = epochFolder a"
  "stationaryFolder (default_filenames n a) = stationaryFolder a"
  "timeSeriesFolder (default_filenames n a) = timeSeriesFolder a"
  "rawFolder (default_filenames n a) = rawFolder a"
  "npyFolder (default_filenames n a) = npyFolder a"
  by (simp_all add: default_filenames_def)

lemma default_filenames_files:
  "summaryFile (default_filenames n a) = os_path_join (summaryFolder a) (n @ ''-summary.json'')"
  "nonWearFile (default_filenames n a)
     = os_path_join (nonWearFolder a) (n @ ''-nonWearBouts.csv.gz'')"
  "epochFile (default_filenames n a) = os_path_join (epochFolder a) (n @ ''-epoch.csv.gz'')"
  "stationaryFile (default_filenames n a)
     = os_path_join (stationaryFolder a) (n @ ''-stationaryPoints.csv.gz'')"
  "tsFile (default_filenames n a)
     = os_path_join (timeSeriesFolder a) (n @ ''-timeSeries.csv.gz'')"
  "rawFile (default_filenames n a) = os_path_join (rawFolder a) (n @ ''.csv.gz'')"
  "npyFile (default_filenames n a) = os_path_join (npyFolder a) (n @ ''.npy'')"
  by (simp_all add: default_filenames_def)

lemma resolved_args_passthrough:
  "processInputFile (resolved_args a) = processInputFile a"
  "sampleRate (resolved_args a) = sampleRate a"
  "startTime (resolved_args a) = startTime a"
  "endTime (resolved_args a) = endTime a"
  "deleteIntermediateFiles (resolved_args a) = deleteIntermediateFiles a"
  "csvTimeXYZTempColsIndex (resolved_args a) = csvTimeXYZTempColsIndex a"
  by (simp_all add: resolved_args_def Let_def default_filenames_passthrough
      default_folders_passthrough)

lemma resolved_args_useFilter:
  "useFilter (resolved_args a) = (if sampleRate a \<le> 40 then False else useFilter a)"
  by (simp add: resolved_args_def Let_def default_filenames_passthrough
      default_folders_passthrough)

lemma resolved_args_inputFile:
  "inputFile (resolved_args a) =
     (if \<not> processInputFile a \<and> dot \<notin> set (inputFile a) then inputFile a @ ''.cwa''
      else inputFile a)"
  by (simp add: resolved_args_def Let_def default_filenames_passthrough
      default_folders_passthrough)

lemma resolved_args_outputFolder:
  "outputFolder (resolved_args a) =
     (if outputFolder a = [] then fst (os_path_split (inputFile a)) else outputFolder a)"
  by (simp add: resolved_args_def Let_def default_filenames_passthrough
      default_folders_outputFolder)

lemma resolved_args_folders:
  "summaryFolder (resolved_args a) =
     (if summaryFolder a = [] then outputFolder (resolved_args a) else summaryFolder a)"
  "nonWearFolder (resolved_args a) =
     (if nonWearFolder a = [] then outputFolder (resolved_args a) else nonWearFolder a)"
  "epochFolder (resolved_args a) =
     (if epochFolder a = [] then outputFolder (resolved_args a) else epochFolder a)"
  "stationaryFolder (resolved_args a) =
     (if stationaryFolder a = [] then outputFolder (resolved_args a) else stationaryFolder a)"
  "timeSeriesFolder (resolved_args a) =
     (if timeSeriesFolder a = [] then outputFolder (resolved_args a) else timeSeriesFolder a)"
  "rawFolder (resolved_args a) =
     (if rawFolder a = [] then outputFolder (resolved_args a) else rawFolder a)"
  "npyFolder (resolved_args a) =
     (if npyFolder a = [] then outputFolder (resolved_args a) else npyFolder a)"
  by (simp_all add: resolved_args_def Let_def default_filenames_passthrough
      default_folders_folders default_folders_outputFolder)

lemma resolved_args_files:
  fixes a
  defines "stem \<equiv> takeWhile (\<lambda>x. x \<noteq> dot) (snd (os_path_split (inputFile a)))"
  shows
  "summaryFile (resolved_args a)
     = os_path_join (summaryFolder (resolved_args a)) (stem @ ''-summary.json'')"
  "nonWearFile (resolved_args a)
     = os_path_join (nonWearFolder (resolved_args a)) (stem @ ''-nonWearBouts.csv.gz'')"
  "epochFile (resolved_args a)
     = os_path_join (epochFolder (resolved_args a)) (stem @ ''-epoch.csv.gz'')"
  "stationaryFile (resolved_args a)
     = os_path_join (stationaryFolder (resolved_args a)) (stem @ ''-stationaryPoints.csv.gz'')"
  "tsFile (resolved_args a)
     = os_path_join (timeSeriesFolder (resolved_args a)) (stem @ ''-timeSeries.csv.gz'')"
  "rawFile (resolved_args a) = os_path_join (rawFolder (resolved_args a)) (stem @ ''.csv.gz'')"
  "npyFile (resolved_args a) = os_path_join (npyFolder (resolved_args a)) (stem @ ''.npy'')"
  by (simp_all add: resolved_args_def Let_def default_filenames_passthrough
      default_filenames_files stem_def)

lemma assert_writable_eq:
  "assert_writable ps m =
     (case find (\<lambda>p. \<not> os_access_W (fs m) p) ps of
        None \<Rightarrow> Done (m\<lparr>trace := trace m @ map OsAccess ps\<rparr>)
      | Some p \<Rightarrow> Raised (AssertionError (folder_msg p))
          (m\<lparr>trace := trace m @ map OsAccess (takeWhile (os_access_W (fs m)) ps @ [p])\<rparr>))"
proof (induction ps arbitrary: m)
  case Nil
  show ?case by simp
next
  case (Cons p ps)
  show ?case
  proof (cases "os_access_W (fs m) p")
    case True
    then show ?thesis
      by (simp add: Cons.IH emit_def split: option.splits)
  next
    case False
    then show ?thesis by (simp add: emit_def)
  qed
qed

lemma assert_writable_append:
  "assert_writable (xs @ ys) m =
     (case assert_writable xs m of
        Done m' \<Rightarrow> assert_writable ys m' | Raised e m' \<Rightarrow> Raised e m')"
  by (induction xs arbitrary: m) (auto split: outcome.splits)

lemma assert_writable_Done_args: "assert_writable ps m = Done m' \<Longrightarrow> args m' = args m"
  by (auto simp: assert_writable_eq split: option.splits)

lemma check_output_folders_eq:
  "check_output_folders m = assert_writable (gate_folders (args m)) m"
proof (cases "assert_writable (checked_folders (args m)) m")
  case (Done m')
  then have "args m' = args m" by (rule assert_writable_Done_args)
  then show ?thesis using Done
    by (simp add: check_output_folders_def gate_folders_def assert_writable_append)
next
  case (Raised e m')
  then show ?thesis
    by (simp add: check_output_folders_def gate_folders_def assert_writable_append)
qed

lemma gate_passes:
  assumes "\<forall>p \<in> set (gate_folders (args m)). os_access_W (fs m) p"
  shows "check_output_folders m =
           Done (m\<lparr>trace := trace m @ map OsAccess (gate_folders (args m))\<rparr>)"
proof -
  have "find (\<lambda>p. \<not> os_access_W (fs m) p) (gate_folders (args m)) = None"
    using assms by (simp add: find_None_iff)
  then show ?thesis by (simp add: check_output_folders_eq assert_writable_eq)
qed

lemma gate_fails:
  assumes "\<exists>p \<in> set (gate_folders (args m)). \<not> os_access_W (fs m) p"
  shows "\<exists>p. p \<in> set (gate_folders (args m)) \<and> \<not> os_access_W (fs m) p \<and>
           find (\<lambda>p. \<not> os_access_W (fs m) p) (gate_folders (args m)) = Some p \<and>
           check_output_folders m = Raised (AssertionError (folder_msg p))
             (m\<lparr>trace := trace m @ map OsAccess
                 (takeWhile (os_access_W (fs m)) (gate_folders (args m)) @ [p])\<rparr>)"
proof -
  obtain p where p: "find (\<lambda>p. \<not> os_access_W (fs m) p) (gate_folders (args m)) = Some p"
    using assms by (cases "find (\<lambda>p. \<not> os_access_W (fs m) p) (gate_folders (args m))")
      (auto simp: find_None_iff)
  then have "p \<in> set (gate_folders (args m))" "\<not> os_access_W (fs m) p"
    by (auto simp: find_Some_iff)
  then show ?thesis using p
    by (auto simp: check_output_folders_eq assert_writable_eq)
qed

lemma validation_split:
  "validation_steps = [check_sampleRate, skip_lowpass, check_inputFile, set_output_names]
     @ [check_output_folders, schedule_cleanup, check_time_order, echo_options]"
  by (simp add: validation_steps_def)

lemma resolved_machine_simps:
  "args (resolved_machine a f) = resolved_args a"
  "fs (resolved_machine a f) = f"
  "summary (resolved_machine a f) = Map.empty"
  "registered (resolved_machine a f) = False"
  by (simp_all add: resolved_machine_def)

lemma gated_machine_simps:
  "args (gated_machine a f) = resolved_args a"
  "fs (gated_machine a f) = f"
  "summary (gated_machine a f) = Map.empty"
  "registered (gated_machine a f) = deleteIntermediateFiles a"
  "trace (gated_machine a f) =
     trace (resolved_machine a f) @ map OsAccess (gate_folders (resolved_args a))"
  by (simp_all add: gated_machine_def resolved_machine_simps)

lemma validated_machine_simps:
  "args (validated_machine a f) = resolved_args a"
  "fs (validated_machine a f) = f"
  "summary (validated_machine a f) = Map.empty"
  "registered (validated_machine a f) = deleteIntermediateFiles a"
  "trace (validated_machine a f) = trace (gated_machine a f) @ [Echo (resolved_args a)]"
  by (simp_all add: validated_machine_def emit_def gated_machine_simps)

lemma schedule_after_gate:
  assumes "\<forall>p \<in> set (gate_folders (resolved_args a)). os_access_W f p"
  shows "run_steps [check_output_folders, schedule_cleanup] (resolved_machine a f)
           = Done (gated_machine a f)"
proof -
  have "check_output_folders (resolved_machine a f) =
          Done ((resolved_machine a f)\<lparr>trace := trace (resolved_machine a f)
                   @ map OsAccess (gate_folders (resolved_args a))\<rparr>)"
    using gate_passes[of "resolved_machine a f"] assms by (simp add: resolved_machine_simps)
  then show ?thesis
    by (simp add: schedule_cleanup_def gated_machine_def resolved_machine_simps
        resolved_args_passthrough)
qed

lemma check_time_order_eq:
  "check_time_order m =
     (if time_order_ok (args m) then Done m
      else Raised (AssertionError (time_order_msg (the (startTime (args m)))
                                      (the (endTime (args m))))) m)"
  by (simp add: check_time_order_def time_order_ok_def split: option.splits)

lemma validation_passes:
  assumes "25 \<le> sampleRate a"
    and "processInputFile a \<longrightarrow> os_path_isfile f (inputFile a)"
    and "\<forall>p \<in> set (gate_folders (resolved_args a)). os_access_W f p"
    and "time_order_ok a"
  shows "run_steps validation_steps (start a f) = Done (validated_machine a f)"
proof -
  have t: "time_order_ok (args (gated_machine a f))"
    using assms(4) by (simp add: time_order_ok_def gated_machine_simps resolved_args_passthrough)
  have "run_steps ([check_output_folders, schedule_cleanup] @ [check_time_order, echo_options])
          (resolved_machine a f) = Done (validated_machine a f)"
    unfolding run_steps_append schedule_after_gate[OF assms(3)] using t
    by (simp add: check_time_order_eq echo_options_def validated_machine_def gated_machine_simps(1))
  then have "run_steps [check_output_folders, schedule_cleanup, check_time_order, echo_options]
          (resolved_machine a f) = Done (validated_machine a f)"
    by simp
  then show ?thesis
    unfolding validation_split run_steps_append resolution_steps[OF assms(1,2)] by simp
qed

lemma validation_time_fails:
  assumes "25 \<le> sampleRate a"
    and "processInputFile a \<longrightarrow> os_path_isfile f (inputFile a)"
    and "\<forall>p \<in> set (gate_folders (resolved_args a)). os_access_W f p"
    and "\<not> time_order_ok a"
  shows "run_steps validation_steps (start a f) =
           Raised (AssertionError (time_order_msg (the (startTime a)) (the (endTime a))))
             (gated_machine a f)"
proof -
  have t: "\<not> time_order_ok (args (gated_machine a f))"
    using assms(4) by (simp add: time_order_ok_def gated_machine_simps resolved_args_passthrough)
  have "run_steps ([check_output_folders, schedule_cleanup] @ [check_time_order, echo_options])
          (resolved_machine a f) =
           Raised (AssertionError (time_order_msg (the (startTime a)) (the (endTime a))))
             (gated_machine a f)"
    unfolding run_steps_append schedule_after_gate[OF assms(3)] using t
    by (simp add: check_time_order_eq gated_machine_simps resolved_args_passthrough)
  then have "run_steps [check_output_folders, schedule_cleanup, check_time_order, echo_options]
          (resolved_machine a f) =
           Raised (AssertionError (time_order_msg (the (startTime a)) (the (endTime a))))
             (gated_machine a f)"
    by simp
  then show ?thesis
    unfolding validation_split run_steps_append resolution_steps[OF assms(1,2)] by simp
qed

lemma validation_gate_fails:
  assumes "25 \<le> sampleRate a"
    and "processInputFile a \<longrightarrow> os_path_isfile f (inputFile a)"
    and "\<exists>p \<in> set (gate_folders (resolved_args a)). \<not> os_access_W f p"
  shows "\<exists>p. p \<in> set (gate_folders (resolved_args a)) \<and> \<not> os_access_W f p \<and>
           find (\<lambda>p. \<not> os_access_W f p) (gate_folders (resolved_args a)) = Some p \<and>
           run_steps validation_steps (start a f) =
             Raised (AssertionError (folder_msg p))
               ((resolved_machine a f)\<lparr>trace := trace (resolved_machine a f) @ map OsAccess
                 (takeWhile (os_access_W f) (gate_folders (resolved_args a)) @ [p])\<rparr>)"
proof -
  obtain p where p: "p \<in> set (gate_folders (resolved_args a))" "\<not> os_access_W f p"
      "find (\<lambda>p. \<not> os_access_W f p) (gate_folders (resolved_args a)) = Some p"
      "check_output_folders (resolved_machine a f) = Raised (AssertionError (folder_msg p))
         ((resolved_machine a f)\<lparr>trace := trace (resolved_machine a f) @ map OsAccess
            (takeWhile (os_access_W f) (gate_folders (resolved_args a)) @ [p])\<rparr>)"
    using gate_fails[of "resolved_machine a f"] assms(3)
    by (auto simp: resolved_machine_simps)
  have "run_steps [check_output_folders, schedule_cleanup, check_time_order, echo_options]
          (resolved_machine a f) = Raised (AssertionError (folder_msg p))
         ((resolved_machine a f)\<lparr>trace := trace (resolved_machine a f) @ map OsAccess
            (takeWhile (os_access_W f) (gate_folders (resolved_args a)) @ [p])\<rparr>)"
    by (simp add: p(4))
  then have "run_steps validation_steps (start a f) = Raised (AssertionError (folder_msg p))
         ((resolved_machine a f)\<lparr>trace := trace (resolved_machine a f) @ map OsAccess
            (takeWhile (os_access_W f) (gate_folders (resolved_args a)) @ [p])\<rparr>)"
    unfolding validation_split run_steps_append resolution_steps[OF assms(1,2)] by simp
  then show ?thesis using p(1,2,3) by blast
qed

lemma main_split:
  "main c m =
     (case run_steps validation_steps m of
        Done m' \<Rightarrow> run_steps (processing_steps c @ finalization_steps) m'
      | Raised e m' \<Rightarrow> Raised e m')"
  by (simp add: main_def run_steps_append)

lemma input_missing:
  assumes "25 \<le> sampleRate a" and "processInputFile a"
    and "\<not> os_path_isfile f (inputFile a)"
  shows "run_steps validation_steps (start a f) =
           Raised (AssertionError (file_missing_msg (inputFile a))) (lowpass_machine a f)"
proof -
  have 1: "check_sampleRate (start a f) = Done (start a f)"
    using assms(1) by (simp add: check_sampleRate_def start_def)
  have 2: "skip_lowpass (start a f) = Done (lowpass_machine a f)"
    by (simp add: skip_lowpass_def start_def set_args_def emit_def lowpass_machine_def)
  have 3: "check_inputFile (lowpass_machine a f) =
             Raised (AssertionError (file_missing_msg (inputFile a))) (lowpass_machine a f)"
    using assms(2,3) by (simp add: check_inputFile_def lowpass_machine_def)
  show ?thesis by (simp add: validation_steps_def 1 2 3)
qed

lemma sample_rate_rejected:
  assumes "sampleRate a < 25"
  shows "run_steps validation_steps (start a f) =
           Raised (AssertionError ''sampleRate<25 currently not supported'') (start a f)"
  using assms by (simp add: validation_steps_def check_sampleRate_def start_def)

lemma late_frame_refl: "late_frame m m"
  by (simp add: late_frame_def)

lemma late_frame_trans: "late_frame m m' \<Longrightarrow> late_frame m' m'' \<Longrightarrow> late_frame m m''"
  by (auto simp: late_frame_def)

lemma late_frame_emit: "late_event (args m) e \<Longrightarrow> late_frame m (emit e m)"
  by (simp add: late_frame_def emit_def)

lemma process_input_frame:
  "late_frame m (machine_of (process_input c m))"
  by (auto simp: process_input_def late_frame_def emit_def set_key_def Let_def
      split: sum.splits prod.splits option.splits)

lemma summarise_and_export_frame:
  "late_frame m (machine_of (summarise_and_export c m))"
  by (auto simp: summarise_and_export_def late_frame_def emit_def Let_def
      split: sum.splits prod.splits option.splits)

lemma print_short_summary_frame:
  "late_frame m (machine_of (print_short_summary m))"
  by (auto simp: print_short_summary_def late_frame_def emit_def Let_def split: sum.splits)

lemma write_summary_frame:
  "late_frame m (machine_of (write_summary m))"
  by (auto simp: write_summary_def late_frame_def emit_def Let_def)

lemma closing_frame:
  "late_frame m (machine_of (closing m))"
  by (auto simp: closing_def late_frame_def emit_def)

lemma run_steps_frame:
  assumes "\<And>step m. step \<in> set steps \<Longrightarrow> late_frame m (machine_of (step m))"
  shows "late_frame m (machine_of (run_steps steps m))"
  using assms
proof (induction steps arbitrary: m)
  case Nil
  show ?case by (simp add: late_frame_refl)
next
  case (Cons s steps)
  have 1: "late_frame m (machine_of (s m))" using Cons.prems by simp
  have 2: "late_frame (machine_of (s m)) (machine_of (run_steps steps (machine_of (s m))))"
    using Cons by simp
  show ?case
  proof (cases "s m")
    case (Done m')
    then show ?thesis using 1 2 late_frame_trans by auto
  next
    case (Raised e m')
    then show ?thesis using 1 by simp
  qed
qed

lemma processing_frame:
  "late_frame m (machine_of (run_steps (processing_steps c @ finalization_steps) m))"
proof (rule run_steps_frame)
  fix step :: "machine \<Rightarrow> outcome" and m
  assume "step \<in> set (processing_steps c @ finalization_steps)"
  then consider "step = process_input c" | "step = summarise_and_export c"
    | "step = print_short_summary" | "step = write_summary" | "step = closing"
    by (auto simp: processing_steps_def finalization_steps_def)
  then show "late_frame m (machine_of (step m))"
    by cases (simp_all add: process_input_frame summarise_and_export_frame
        print_short_summary_frame write_summary_frame closing_frame)
qed

lemma main_resolved_cases:
  assumes "25 \<le> sampleRate a"
    and pre: "processInputFile a \<longrightarrow> os_path_isfile f (inputFile a)"
  shows "(\<exists>qs. set qs \<subseteq> set (gate_folders (resolved_args a)) \<and>
             machine_of (main c (start a f)) =
             (resolved_machine a f)\<lparr>trace := trace (resolved_machine a f) @ map OsAccess qs\<rparr>)
       \<or> machine_of (main c (start a f)) = gated_machine a f
       \<or> late_frame (validated_machine a f) (machine_of (main c (start a f)))"
proof (cases "\<forall>p \<in> set (gate_folders (resolved_args a)). os_access_W f p")
  case False
  then obtain p where "p \<in> set (gate_folders (resolved_args a))"
    "run_steps validation_steps (start a f) =
           Raised (AssertionError (folder_msg p))
             ((resolved_machine a f)\<lparr>trace := trace (resolved_machine a f) @ map OsAccess
               (takeWhile (os_access_W f) (gate_folders (resolved_args a)) @ [p])\<rparr>)"
    using validation_gate_fails[OF assms(1) pre] by blast
  moreover have "set (takeWhile (os_access_W f) (gate_folders (resolved_args a)) @ [p])
      \<subseteq> set (gate_folders (resolved_args a))"
    using calculation(1) by (auto dest: set_takeWhileD)
  ultimately have "\<exists>qs. set qs \<subseteq> set (gate_folders (resolved_args a)) \<and>
           machine_of (main c (start a f)) =
           (resolved_machine a f)\<lparr>trace := trace (resolved_machine a f) @ map OsAccess qs\<rparr>"
    by (intro exI[of _ "takeWhile (os_access_W f) (gate_folders (resolved_args a)) @ [p]"])
       (simp add: main_split)
  then show ?thesis by blast
next
  case gate: True
  show ?thesis
  proof (cases "time_order_ok a")
    case True
    then show ?thesis
      using validation_passes[OF assms(1) pre gate]
        processing_frame[of "validated_machine a f" c]
      by (simp add: main_split)
  next
    case False
    then show ?thesis
      using validation_time_fails[OF assms(1) pre gate] by (simp add: main_split)
  qed
qed

lemma main_machine_cases:
  assumes "25 \<le> sampleRate a"
  shows "machine_of (main c (start a f)) = lowpass_machine a f
       \<or> (\<exists>qs. set qs \<subseteq> set (gate_folders (resolved_args a)) \<and>
             machine_of (main c (start a f)) =
             (resolved_machine a f)\<lparr>trace := trace (resolved_machine a f) @ map OsAccess qs\<rparr>)
       \<or> machine_of (main c (start a f)) = gated_machine a f
       \<or> late_frame (validated_machine a f) (machine_of (main c (start a f)))"
proof (cases "processInputFile a \<longrightarrow> os_path_isfile f (inputFile a)")
  case False
  then show ?thesis using input_missing[OF assms, of f] by (simp add: main_split)
next
  case True
  then show ?thesis using main_resolved_cases[OF assms True, of c] by blast
qed

lemma main_args_resolved:
  assumes "25 \<le> sampleRate a"
    and "processInputFile a \<longrightarrow> os_path_isfile f (inputFile a)"
  shows "args (machine_of (main c (start a f))) = resolved_args a"
  using main_resolved_cases[OF assms, of c]
  by (auto simp: resolved_machine_simps gated_machine_simps late_frame_def
      validated_machine_simps)

lemma decode_with_flag_OsAccess: "list_all (decode_with_flag b) (map OsAccess qs)"
  by (induction qs) auto

lemma decode_with_flag_late:
  "useFilter A = b \<Longrightarrow> list_all (late_event A) es \<Longrightarrow> list_all (decode_with_flag b) es"
proof (induction es)
  case Nil
  show ?case by simp
next
  case (Cons e es)
  then show ?case by (cases e) auto
qed

lemma trace_resolved_machine_flag: "list_all (decode_with_flag b) (trace (resolved_machine a f))"
  by (simp add: resolved_machine_def)

lemma filter_flag_main:
  assumes "25 \<le> sampleRate a"
  shows "filter_flag_is (if sampleRate a \<le> 40 then False else useFilter a) (main c (start a f))"
proof -
  let ?b = "if sampleRate a \<le> 40 then False else useFilter a"
  let ?m = "machine_of (main c (start a f))"
  have R: "useFilter (resolved_args a) = ?b" by (simp add: resolved_args_useFilter)
  consider "?m = lowpass_machine a f"
    | qs where "?m = (resolved_machine a f)\<lparr>trace := trace (resolved_machine a f)
                       @ map OsAccess qs\<rparr>"
    | "?m = gated_machine a f"
    | "late_frame (validated_machine a f) ?m"
    using main_machine_cases[OF assms, of c f] by blast
  then show ?thesis
  proof cases
    case 1
    then show ?thesis by (simp add: filter_flag_is_def lowpass_machine_def)
  next
    case 2
    then show ?thesis
      using R trace_resolved_machine_flag[of ?b a f] decode_with_flag_OsAccess[of ?b qs]
      by (simp add: filter_flag_is_def resolved_machine_simps)
  next
    case 3
    then show ?thesis
      using R trace_resolved_machine_flag[of ?b a f]
        decode_with_flag_OsAccess[of ?b "gate_folders (resolved_args a)"]
      by (simp add: filter_flag_is_def gated_machine_simps)
  next
    case 4
    then obtain es where es: "args ?m = resolved_args a"
       "trace ?m = trace (validated_machine a f) @ es" "list_all (late_event (resolved_args a)) es"
      by (auto simp: late_frame_def validated_machine_simps)
    have "list_all (decode_with_flag ?b) es"
      using decode_with_flag_late[OF R es(3)] .
    then show ?thesis
      using R es(1,2) trace_resolved_machine_flag[of ?b a f]
        decode_with_flag_OsAccess[of ?b "gate_folders (resolved_args a)"]
      by (simp add: filter_flag_is_def validated_machine_simps gated_machine_simps)
  qed
qed

lemma os_path_split_snd: "snd (os_path_split p) = rfind_tail p"
  by (simp add: os_path_split_def Let_def)

lemma rfind_parts: "rfind_head p @ rfind_tail p = p"
proof -
  have "rev (rfind_head p @ rfind_tail p) = rev p"
    by (simp add: rfind_head_def rfind_tail_def)
  then show ?thesis using rev_is_rev_conv by blast
qed

lemma rfind_head_ends_with_sep: "rfind_head p = [] \<or> last (rfind_head p) = sep"
proof (cases "dropWhile (\<lambda>c. c \<noteq> sep) (rev p)")
  case Nil
  then show ?thesis by (simp add: rfind_head_def)
next
  case (Cons x xs)
  then have "x = sep" using hd_dropWhile[of "\<lambda>c. c \<noteq> sep" "rev p"] by auto
  then show ?thesis using Cons by (simp add: rfind_head_def)
qed

lemma rfind_tail_no_sep: "sep \<notin> set (rfind_tail p)"
  by (auto simp: rfind_tail_def dest: set_takeWhileD)

lemma takeWhile_first_dot:
  "takeWhile (\<lambda>x. x \<noteq> dot) n = n \<or> (\<exists>rest. n = takeWhile (\<lambda>x. x \<noteq> dot) n @ dot # rest)"
proof (cases "dropWhile (\<lambda>x. x \<noteq> dot) n")
  case Nil
  then show ?thesis by (simp add: takeWhile_eq_all_conv)
next
  case (Cons x xs)
  then have "x = dot" using hd_dropWhile[of "\<lambda>x. x \<noteq> dot" n] by auto
  then have "n = takeWhile (\<lambda>x. x \<noteq> dot) n @ dot # xs"
    using Cons takeWhile_dropWhile_id[of "\<lambda>x. x \<noteq> dot" n] by simp
  then show ?thesis by blast
qed

lemma os_path_join_relative:
  assumes "b \<noteq> []" and "hd b \<noteq> sep"
  shows "os_path_join d b = (if d = [] \<or> last d = CHR ''/'' then d else d @ ''/'') @ b"
  using assms by (simp add: os_path_join_def sep_def)

lemma stem_suffix_relative:
  assumes "sep \<notin> set stem" and "suffix \<noteq> []" and "hd suffix \<noteq> sep"
  shows "stem @ suffix \<noteq> [] \<and> hd (stem @ suffix) \<noteq> sep"
proof (cases stem)
  case Nil
  then show ?thesis using assms by simp
next
  case (Cons x xs)
  then show ?thesis using assms by auto
qed

lemma os_path_join_stem:
  assumes "sep \<notin> set stem" and "suffix \<noteq> []" and "hd suffix \<noteq> sep"
  shows "os_path_join d (stem @ suffix)
         = (if d = [] \<or> last d = CHR ''/'' then d else d @ ''/'') @ stem @ suffix"
  using os_path_join_relative[of "stem @ suffix" d] stem_suffix_relative[OF assms] by simp

lemma example_file:
  "processInputFile example_args" "os_path_isfile example_fs (inputFile example_args)"
  by (simp_all add: example_args_def example_fs_def os_path_isfile_def)

lemma example_pre:
  "processInputFile example_args \<longrightarrow> os_path_isfile example_fs (inputFile example_args)"
  by (simp add: example_args_def example_fs_def os_path_isfile_def)

lemma example_split:
  "os_path_split ''/data/sample.cwa.gz'' = (''/data'', ''sample.cwa.gz'')"
  by (simp add: os_path_split_def rfind_head_def rfind_tail_def rstrip_sep_def sep_def Let_def)

lemma example_folders:
  "summaryFolder (args (machine_of (main example_collaborators (start example_args example_fs))))
     = ''/data''"
  "nonWearFolder (args (machine_of (main example_collaborators (start example_args example_fs))))
     = ''/data''"
  "epochFolder (args (machine_of (main example_collaborators (start example_args example_fs))))
     = ''/data''"
  "stationaryFolder
     (args (machine_of (main example_collaborators (start example_args example_fs)))) = ''/data''"
  "timeSeriesFolder
     (args (machine_of (main example_collaborators (start example_args example_fs)))) = ''/data''"
  "rawFolder (args (machine_of (main example_collaborators (start example_args example_fs))))
     = ''/data''"
  "npyFolder (args (machine_of (main example_collaborators (start example_args example_fs))))
     = ''/data''"
proof -
  have 1: "25 \<le> sampleRate example_args" by (simp add: example_args_def)
  have r: "args (machine_of (main example_collaborators (start example_args example_fs)))
           = resolved_args example_args"
    using main_args_resolved[OF 1 example_pre] .
  have o: "outputFolder (resolved_args example_args) = ''/data''"
    by (simp add: resolved_args_outputFolder example_args_def example_split)
  have e: "summaryFolder example_args = []" "nonWearFolder example_args = []"
    "epochFolder example_args = []" "stationaryFolder example_args = []"
    "timeSeriesFolder example_args = []" "rawFolder example_args = []"
    "npyFolder example_args = []"
    by (simp_all add: example_args_def)
  show "summaryFolder
     (args (machine_of (main example_collaborators (start example_args example_fs)))) = ''/data''"
    unfolding r by (simp add: resolved_args_folders e o)
  show "nonWearFolder
     (args (machine_of (main example_collaborators (start example_args example_fs)))) = ''/data''"
    unfolding r by (simp add: resolved_args_folders e o)
  show "epochFolder
     (args (machine_of (main example_collaborators (start example_args example_fs)))) = ''/data''"
    unfolding r by (simp add: resolved_args_folders e o)
  show "stationaryFolder
     (args (machine_of (main example_collaborators (start example_args example_fs)))) = ''/data''"
    unfolding r by (simp add: resolved_args_folders e o)
  show "timeSeriesFolder
     (args (machine_of (main example_collaborators (start example_args example_fs)))) = ''/data''"
    unfolding r by (simp add: resolved_args_folders e o)
  show "rawFolder
     (args (machine_of (main example_collaborators (start example_args example_fs)))) = ''/data''"
    unfolding r by (simp add: resolved_args_folders e o)
  show "npyFolder
     (args (machine_of (main example_collaborators (start example_args example_fs)))) = ''/data''"
    unfolding r by (simp add: resolved_args_folders e o)
qed

lemma cmp_fields_refl: "cmp_fields xs xs = 0"
  by (induction xs) auto

lemma cmp_fields_zero:
  "length xs = length ys \<Longrightarrow> cmp_fields xs ys = 0 \<Longrightarrow> xs = ys"
  by (induction xs ys rule: cmp_fields.induct) (auto split: if_splits)

lemma datetime_cmp_zero: "datetime_cmp s e = 0 \<Longrightarrow> s = (e :: datetime)"
proof -
  assume "datetime_cmp s e = 0"
  then have "datetime_fields s = datetime_fields e"
    using cmp_fields_zero[of "datetime_fields s" "datetime_fields e"] by (simp add: datetime_cmp_def datetime_fields_def)
  then show "s = e" by (simp add: datetime_fields_def)
qed

lemma datetime_trichotomy: "datetime_gt s e \<or> s = e \<or> datetime_lt s e"
  using datetime_cmp_zero[of s e]
  by (auto simp: datetime_gt_def datetime_lt_def)

lemma datetime_gt_not_le: "datetime_gt s e \<longleftrightarrow> \<not> datetime_le s e"
  by (auto simp: datetime_gt_def datetime_le_def)

lemma datetime_le_cases: "s = e \<or> datetime_lt s e \<Longrightarrow> datetime_le s e"
  by (auto simp: datetime_le_def datetime_lt_def datetime_cmp_def cmp_fields_refl)

lemma no_stage_OsAccess: "filter stage_event (map OsAccess qs) = []"
  by (induction qs) auto

lemma no_stage_resolved: "filter stage_event (trace (resolved_machine a f)) = []"
  by (simp add: resolved_machine_def)

lemma no_stage_gated: "no_stage_ran (gated_machine a f)"
  by (simp add: no_stage_ran_def gated_machine_simps no_stage_resolved no_stage_OsAccess)

lemma example_gate_folders:
  "gate_folders (resolved_args (example_args\<lparr>startTime := x, endTime := y\<rparr>))
     = replicate 8 ''/data''"
  by (simp add: gate_folders_def checked_folders_def resolved_args_folders
      resolved_args_outputFolder resolved_args_passthrough example_args_def example_split
      numeral_eq_Suc)

lemma example_access: "os_access_W example_fs ''/data''"
  by (simp add: os_access_W_def example_fs_def)

lemma no_stage_gate_failed:
  "no_stage_ran ((resolved_machine a f)\<lparr>trace := trace (resolved_machine a f)
       @ map OsAccess qs\<rparr>)"
  by (simp add: no_stage_ran_def no_stage_resolved no_stage_OsAccess)

lemma gate_folders_list:
  "gate_folders cfg =
     [summaryFolder cfg, nonWearFolder cfg, stationaryFolder cfg, timeSeriesFolder cfg,
      rawFolder cfg, npyFolder cfg, outputFolder cfg]
     @ (if processInputFile cfg then [epochFolder cfg] else [])"
  by (simp add: gate_folders_def checked_folders_def)

text \<open>
  The gate of lines 292 to 305. In a run that gets past the sample-rate and input-file
  checks, the paths probed are the summary, non-wear, stationary, time-series, raw, npy and
  general output folders, and the epoch folder when the input file is processed. A
  configuration that passes validation has \<^verbatim>\<open>os.access(path, W_OK)\<close> true of every one of
  them: the path exists and is writable. If one of them is not, the run ends with an
  assertion error whose message names the first such path in that order, no stage has run
  and the exit handler has not been registered. The probe does not look at the kind of the
  path.
\<close>

lemma folder_gate:
  assumes "25 \<le> sampleRate a"
    and "processInputFile a \<longrightarrow> os_path_isfile f (inputFile a)"
    and "cfg = args (machine_of (main c (start a f)))"
  shows "gate_folders cfg =
           [summaryFolder cfg, nonWearFolder cfg, stationaryFolder cfg, timeSeriesFolder cfg,
            rawFolder cfg, npyFolder cfg, outputFolder cfg]
           @ (if processInputFile a then [epochFolder cfg] else [])
     \<and> ((\<exists>m. run_steps validation_steps (start a f) = Done m) \<longrightarrow>
          (\<forall>p \<in> set (gate_folders cfg). p \<in> present f \<and> p \<in> write_perm f))
     \<and> ((\<exists>p \<in> set (gate_folders cfg). \<not> (p \<in> present f \<and> p \<in> write_perm f)) \<longrightarrow>
          (\<exists>p \<in> set (gate_folders cfg). \<not> (p \<in> present f \<and> p \<in> write_perm f)
              \<and> find (\<lambda>q. \<not> os_access_W f q) (gate_folders cfg) = Some p
              \<and> raised (main c (start a f)) = Some (AssertionError (folder_msg p))
              \<and> folder_msg p = ''Either folder '' @ [CHR 0x27] @ p @ [CHR 0x27]
                   @ '' does not exist or you do not have write permission'')
          \<and> no_stage_ran (machine_of (main c (start a f)))
          \<and> \<not> registered (machine_of (main c (start a f))))"
proof -
  have cfg: "cfg = resolved_args a"
    using main_args_resolved[OF assms(1,2)] assms(3) by simp
  have 1: "gate_folders cfg =
           [summaryFolder cfg, nonWearFolder cfg, stationaryFolder cfg, timeSeriesFolder cfg,
            rawFolder cfg, npyFolder cfg, outputFolder cfg]
           @ (if processInputFile a then [epochFolder cfg] else [])"
    unfolding gate_folders_list by (simp add: cfg resolved_args_passthrough)
  have fail: "(\<exists>p \<in> set (gate_folders cfg). \<not> (p \<in> present f \<and> p \<in> write_perm f)
              \<and> find (\<lambda>q. \<not> os_access_W f q) (gate_folders cfg) = Some p
              \<and> raised (main c (start a f)) = Some (AssertionError (folder_msg p))
              \<and> folder_msg p = ''Either folder '' @ [CHR 0x27] @ p @ [CHR 0x27]
                   @ '' does not exist or you do not have write permission'')
          \<and> no_stage_ran (machine_of (main c (start a f)))
          \<and> \<not> registered (machine_of (main c (start a f)))
          \<and> (\<forall>m. run_steps validation_steps (start a f) \<noteq> Done m)"
    if bad: "\<exists>p \<in> set (gate_folders cfg). \<not> (p \<in> present f \<and> p \<in> write_perm f)"
  proof -
    have "\<exists>p \<in> set (gate_folders (resolved_args a)). \<not> os_access_W f p"
      using bad by (simp add: cfg os_access_W_def)
    then obtain p where p: "p \<in> set (gate_folders (resolved_args a))" "\<not> os_access_W f p"
      "find (\<lambda>p. \<not> os_access_W f p) (gate_folders (resolved_args a)) = Some p"
      "run_steps validation_steps (start a f) =
             Raised (AssertionError (folder_msg p))
               ((resolved_machine a f)\<lparr>trace := trace (resolved_machine a f) @ map OsAccess
                 (takeWhile (os_access_W f) (gate_folders (resolved_args a)) @ [p])\<rparr>)"
      using validation_gate_fails[OF assms(1,2)] by blast
    have m: "main c (start a f) = Raised (AssertionError (folder_msg p))
               ((resolved_machine a f)\<lparr>trace := trace (resolved_machine a f) @ map OsAccess
                 (takeWhile (os_access_W f) (gate_folders (resolved_args a)) @ [p])\<rparr>)"
      using p(4) by (simp add: main_split)
    have a: "p \<in> set (gate_folders cfg) \<and> \<not> (p \<in> present f \<and> p \<in> write_perm f)
              \<and> find (\<lambda>q. \<not> os_access_W f q) (gate_folders cfg) = Some p
              \<and> raised (main c (start a f)) = Some (AssertionError (folder_msg p))
              \<and> folder_msg p = ''Either folder '' @ [CHR 0x27] @ p @ [CHR 0x27]
                   @ '' does not exist or you do not have write permission''"
      using p(1,2,3) m by (simp add: cfg os_access_W_def folder_msg_def quote_def)
    have b: "no_stage_ran (machine_of (main c (start a f)))"
      unfolding m
      using no_stage_gate_failed[of a f
          "takeWhile (os_access_W f) (gate_folders (resolved_args a)) @ [p]"]
      by simp
    have c: "\<not> registered (machine_of (main c (start a f)))"
      unfolding m by (simp add: resolved_machine_simps)
    have d: "\<forall>m. run_steps validation_steps (start a f) \<noteq> Done m"
      using p(4) by simp
    show ?thesis using a b c d by blast
  qed
  have 2: "(\<exists>m. run_steps validation_steps (start a f) = Done m) \<longrightarrow>
          (\<forall>p \<in> set (gate_folders cfg). p \<in> present f \<and> p \<in> write_perm f)"
    using fail by blast
  show ?thesis using 1 2 fail by blast
qed

lemma example_bad_folders:
  "gate_folders (resolved_args (example_args\<lparr>stationaryFolder := ''/nowhere''\<rparr>))
     = [''/data'', ''/data'', ''/nowhere'', ''/data'', ''/data'', ''/data'', ''/data'', ''/data'']"
  by (simp add: gate_folders_def checked_folders_def resolved_args_folders
      resolved_args_outputFolder resolved_args_passthrough example_args_def example_split)

lemma example_good_folders:
  "gate_folders (resolved_args example_args) = replicate 8 ''/data''"
  by (simp add: gate_folders_def checked_folders_def resolved_args_folders
      resolved_args_outputFolder resolved_args_passthrough example_args_def example_split
      numeral_eq_Suc)

lemma example_no_access: "\<not> os_access_W example_fs ''/nowhere''"
  by (simp add: os_access_W_def example_fs_def)

lemma no_stage_lowpass: "no_stage_ran (lowpass_machine a f)"
  by (simp add: no_stage_ran_def lowpass_machine_def)

text \<open>
  The check of lines 253 to 259. When the input file is processed, the check passes exactly
  when the path is an existing file, and otherwise the run ends with an assertion error
  naming the path, before any stage. When processing is skipped, the check never fails and
  never looks at the filesystem; \<^verbatim>\<open>.cwa\<close> is appended when the path contains no dot at all
  (in the file name or in a folder name) and the path is left alone when it contains one.
\<close>

lemma check_inputFile_cases:
  "(processInputFile (args m) \<and> os_path_isfile (fs m) (inputFile (args m)) \<longrightarrow>
      check_inputFile m = Done m)
   \<and> (processInputFile (args m) \<and> \<not> os_path_isfile (fs m) (inputFile (args m)) \<longrightarrow>
      check_inputFile m = Raised (AssertionError (file_missing_msg (inputFile (args m)))) m)
   \<and> (\<not> processInputFile (args m) \<and> CHR ''.'' \<notin> set (inputFile (args m)) \<longrightarrow>
      check_inputFile m = Done (m\<lparr>args := (args m)\<lparr>inputFile := inputFile (args m) @ ''.cwa''\<rparr>\<rparr>))
   \<and> (\<not> processInputFile (args m) \<and> CHR ''.'' \<in> set (inputFile (args m)) \<longrightarrow>
      check_inputFile m = Done m)
   \<and> (25 \<le> sampleRate a \<and> processInputFile a \<and> \<not> os_path_isfile f (inputFile a) \<longrightarrow>
      raised (main c (start a f)) = Some (AssertionError (file_missing_msg (inputFile a)))
      \<and> no_stage_ran (machine_of (main c (start a f))))
   \<and> (25 \<le> sampleRate a \<and> \<not> processInputFile a \<longrightarrow>
      inputFile (args (machine_of (main c (start a f)))) =
        (if CHR ''.'' \<in> set (inputFile a) then inputFile a else inputFile a @ ''.cwa''))"
proof -
  have 1: "processInputFile (args m) \<and> os_path_isfile (fs m) (inputFile (args m)) \<longrightarrow>
      check_inputFile m = Done m"
    by (simp add: check_inputFile_def)
  have 2: "processInputFile (args m) \<and> \<not> os_path_isfile (fs m) (inputFile (args m)) \<longrightarrow>
      check_inputFile m = Raised (AssertionError (file_missing_msg (inputFile (args m)))) m"
    by (simp add: check_inputFile_def)
  have 3: "\<not> processInputFile (args m) \<and> CHR ''.'' \<notin> set (inputFile (args m)) \<longrightarrow>
      check_inputFile m = Done (m\<lparr>args := (args m)\<lparr>inputFile := inputFile (args m) @ ''.cwa''\<rparr>\<rparr>)"
    using split_str_short[of dot "inputFile (args m)"]
    by (simp add: check_inputFile_def set_args_def dot_def)
  have 4: "\<not> processInputFile (args m) \<and> CHR ''.'' \<in> set (inputFile (args m)) \<longrightarrow>
      check_inputFile m = Done m"
    using split_str_short[of dot "inputFile (args m)"]
    by (simp add: check_inputFile_def dot_def)
  have 5: "25 \<le> sampleRate a \<and> processInputFile a \<and> \<not> os_path_isfile f (inputFile a) \<longrightarrow>
      raised (main c (start a f)) = Some (AssertionError (file_missing_msg (inputFile a)))
      \<and> no_stage_ran (machine_of (main c (start a f)))"
    using input_missing[of a f] no_stage_lowpass[of a f] by (auto simp: main_split)
  have 6: "25 \<le> sampleRate a \<and> \<not> processInputFile a \<longrightarrow>
      inputFile (args (machine_of (main c (start a f)))) =
        (if CHR ''.'' \<in> set (inputFile a) then inputFile a else inputFile a @ ''.cwa'')"
    using main_args_resolved[of a f c] by (auto simp: resolved_args_inputFile dot_def)
  show ?thesis by (intro conjI 1 2 3 4 5 6)
qed

lemma remove_if_exists_cases:
  "p \<notin> present (fs m) \<Longrightarrow> remove_if_exists p m = Done m"
  "p \<in> present (fs m) \<Longrightarrow> p \<in> undeletable (fs m) \<Longrightarrow>
     remove_if_exists p m = Raised (OSError p) (emit (OsRemove p) m)"
  "p \<in> present (fs m) \<Longrightarrow> p \<notin> undeletable (fs m) \<Longrightarrow>
     remove_if_exists p m = Done (removed p m)"
  by (simp_all add: remove_if_exists_def os_remove_def os_path_exists_def emit_def Let_def
      removed_def)

lemma removed_simps:
  "args (removed p m) = args m"
  "trace (removed p m) = trace m @ [OsRemove p]"
  "present (fs (removed p m)) = present (fs m) - {p}"
  "undeletable (fs (removed p m)) = undeletable (fs m)"
  "registered (removed p m) = registered m"
  by (simp_all add: removed_def)

lemma emit_simps:
  "args (emit e m) = args m"
  "fs (emit e m) = fs m"
  "trace (emit e m) = trace m @ [e]"
  "registered (emit e m) = registered m"
  "summary (emit e m) = summary m"
  by (simp_all add: emit_def)

lemma handler_stationary_fails:
  assumes "stationaryFile (args m) \<in> present (fs m)"
    and "stationaryFile (args m) \<in> undeletable (fs m)"
  shows "deleteIntermediateFiles_handler m =
           Done (emit cleanup_warning (emit (OsRemove (stationaryFile (args m))) m))"
  using assms
  by (simp add: deleteIntermediateFiles_handler_def remove_if_exists_cases cleanup_warning_def)

lemma handler_second:
  assumes "remove_if_exists (stationaryFile (args m)) m = Done m1"
  shows "deleteIntermediateFiles_handler m =
     (case remove_if_exists (epochFile (args m)) m1 of
        Done m' \<Rightarrow> Done m'
      | Raised err m' \<Rightarrow> Done (emit cleanup_warning m'))"
proof (cases "epochFile (args m) \<in> present (fs m1)")
  case False
  then show ?thesis using assms
    by (simp add: deleteIntermediateFiles_handler_def remove_if_exists_cases)
next
  case True
  then show ?thesis using assms
    by (cases "epochFile (args m) \<in> undeletable (fs m1)")
      (simp_all add: deleteIntermediateFiles_handler_def remove_if_exists_cases
        cleanup_warning_def)
qed

lemma handler_never_raises: "\<exists>m'. deleteIntermediateFiles_handler m = Done m'"
proof (cases "remove_if_exists (stationaryFile (args m)) m")
  case (Done m1)
  then show ?thesis using handler_second[OF Done] by (auto split: outcome.splits)
next
  case (Raised err m1)
  then have "stationaryFile (args m) \<in> present (fs m)"
    "stationaryFile (args m) \<in> undeletable (fs m)"
    using remove_if_exists_cases[of "stationaryFile (args m)" m] by auto
  then show ?thesis using handler_stationary_fails by blast
qed

lemma at_exit_raised: "raised (at_exit r) = raised r"
proof (cases "registered (machine_of r)")
  case False
  then show ?thesis by (simp add: at_exit_def)
next
  case True
  obtain m' where "deleteIntermediateFiles_handler (machine_of r) = Done m'"
    using handler_never_raises by blast
  then show ?thesis using True by (cases r) (simp_all add: at_exit_def)
qed

lemma first_removal:
  assumes "\<not> (s \<in> present (fs m) \<and> s \<in> undeletable (fs m))"
  shows "\<exists>m1. remove_if_exists s m = Done m1 \<and> args m1 = args m
      \<and> trace m1 = trace m @ (if s \<in> present (fs m) then [OsRemove s] else [])
      \<and> present (fs m1) = present (fs m) - {s}
      \<and> undeletable (fs m1) = undeletable (fs m)"
proof (cases "s \<in> present (fs m)")
  case True
  then show ?thesis using assms
    by (simp add: remove_if_exists_cases removed_simps)
next
  case False
  then show ?thesis by (simp add: remove_if_exists_cases)
qed

lemma handler_effect:
  assumes s: "s = stationaryFile (args m)" and e: "e = epochFile (args m)" and ne: "s \<noteq> e"
  shows "\<exists>m' es. deleteIntermediateFiles_handler m = Done m'
     \<and> args m' = args m \<and> trace m' = trace m @ es
     \<and> (OsRemove s \<in> set es \<longleftrightarrow> s \<in> present (fs m))
     \<and> (OsRemove e \<in> set es \<longleftrightarrow>
          e \<in> present (fs m) \<and> \<not> (s \<in> present (fs m) \<and> s \<in> undeletable (fs m)))
     \<and> (cleanup_warning \<in> set es \<longleftrightarrow>
          (s \<in> present (fs m) \<and> s \<in> undeletable (fs m))
          \<or> (e \<in> present (fs m) \<and> e \<in> undeletable (fs m)))
     \<and> set es \<subseteq> {OsRemove s, OsRemove e, cleanup_warning}
     \<and> (s \<in> present (fs m') \<longleftrightarrow> s \<in> present (fs m) \<and> s \<in> undeletable (fs m))
     \<and> (e \<in> present (fs m') \<longleftrightarrow>
          e \<in> present (fs m) \<and> (e \<in> undeletable (fs m)
             \<or> (s \<in> present (fs m) \<and> s \<in> undeletable (fs m))))"
proof (cases "s \<in> present (fs m) \<and> s \<in> undeletable (fs m)")
  case True
  then have h: "deleteIntermediateFiles_handler m =
           Done (emit cleanup_warning (emit (OsRemove s) m))"
    using handler_stationary_fails[of m] s by simp
  show ?thesis
    by (intro exI[of _ "emit cleanup_warning (emit (OsRemove s) m)"]
          exI[of _ "[OsRemove s, cleanup_warning]"])
       (use True ne in \<open>auto simp: h emit_simps cleanup_warning_def\<close>)
next
  case False
  then obtain m1 where m1: "remove_if_exists s m = Done m1" "args m1 = args m"
      "trace m1 = trace m @ (if s \<in> present (fs m) then [OsRemove s] else [])"
      "present (fs m1) = present (fs m) - {s}"
      "undeletable (fs m1) = undeletable (fs m)"
    using first_removal[of s m] by blast
  have h: "deleteIntermediateFiles_handler m =
     (case remove_if_exists e m1 of
        Done m' \<Rightarrow> Done m'
      | Raised err m' \<Rightarrow> Done (emit cleanup_warning m'))"
    using handler_second[of m m1] m1(1) s e by simp
  have ep: "e \<in> present (fs m1) \<longleftrightarrow> e \<in> present (fs m)"
    using m1(4) ne by auto
  consider "e \<notin> present (fs m)"
    | "e \<in> present (fs m)" "e \<in> undeletable (fs m)"
    | "e \<in> present (fs m)" "e \<notin> undeletable (fs m)"
    by blast
  then show ?thesis
  proof cases
    case 1
    then have r: "deleteIntermediateFiles_handler m = Done m1"
      using h ep by (simp add: remove_if_exists_cases)
    show ?thesis
      by (intro exI[of _ m1] exI[of _ "if s \<in> present (fs m) then [OsRemove s] else []"])
         (use 1 False ne m1 in \<open>auto simp: r cleanup_warning_def\<close>)
  next
    case 2
    then have r: "deleteIntermediateFiles_handler m =
        Done (emit cleanup_warning (emit (OsRemove e) m1))"
      using h ep m1(5) by (simp add: remove_if_exists_cases)
    show ?thesis
      by (intro exI[of _ "emit cleanup_warning (emit (OsRemove e) m1)"]
            exI[of _ "(if s \<in> present (fs m) then [OsRemove s] else [])
                        @ [OsRemove e, cleanup_warning]"])
         (use 2 False ne m1 in \<open>auto simp: r emit_simps cleanup_warning_def\<close>)
  next
    case 3
    then have r: "deleteIntermediateFiles_handler m = Done (removed e m1)"
      using h ep m1(5) by (simp add: remove_if_exists_cases)
    show ?thesis
      by (intro exI[of _ "removed e m1"]
            exI[of _ "(if s \<in> present (fs m) then [OsRemove s] else []) @ [OsRemove e]"])
         (use 3 False ne m1 in \<open>auto simp: r removed_simps cleanup_warning_def\<close>)
  qed
qed

lemma os_path_join_suffix: "\<exists>u. os_path_join a b = u @ b"
proof -
  have "os_path_join a b = [] @ b \<or> os_path_join a b = a @ b
        \<or> os_path_join a b = (a @ [sep]) @ b"
    by (simp add: os_path_join_def)
  then show ?thesis by blast
qed

lemma resolved_files_distinct:
  "stationaryFile (resolved_args a) \<noteq> epochFile (resolved_args a)"
proof -
  let ?stem = "takeWhile (\<lambda>x. x \<noteq> dot) (snd (os_path_split (inputFile a)))"
  obtain u where u: "stationaryFile (resolved_args a) = u @ ?stem @ ''-stationaryPoints.csv.gz''"
    using os_path_join_suffix resolved_args_files(4)[of a] by metis
  obtain v where v: "epochFile (resolved_args a) = v @ ?stem @ ''-epoch.csv.gz''"
    using os_path_join_suffix resolved_args_files(3)[of a] by metis
  have "(u @ ?stem @ ''-stationaryPoint'') @ ''s.csv.gz''
         \<noteq> (v @ ?stem @ ''-epoc'') @ ''h.csv.gz''"
    by (subst append_eq_append_conv) simp_all
  then show ?thesis unfolding u v by simp
qed

lemma run_steps_rel:
  assumes "\<And>m. R m m"
    and "\<And>x y z. R x y \<Longrightarrow> R y z \<Longrightarrow> R x z"
    and "\<And>step m. step \<in> set steps \<Longrightarrow> R m (machine_of (step m))"
  shows "R m (machine_of (run_steps steps m))"
  using assms(3)
proof (induction steps arbitrary: m)
  case Nil
  show ?case by (simp add: assms(1))
next
  case (Cons s steps)
  have 1: "R m (machine_of (s m))" using Cons.prems by simp
  have 2: "R (machine_of (s m)) (machine_of (run_steps steps (machine_of (s m))))"
    using Cons by simp
  show ?case
  proof (cases "s m")
    case (Done m')
    then show ?thesis using 1 2 assms(2) by auto
  next
    case (Raised e m')
    then show ?thesis using 1 by simp
  qed
qed

lemma post_frame_refl: "post_frame m m"
  by (simp add: post_frame_def)

lemma post_frame_trans: "post_frame x y \<Longrightarrow> post_frame y z \<Longrightarrow> post_frame x z"
  by (auto simp: post_frame_def)

lemma finalization_post_frame:
  "post_frame m (machine_of (run_steps finalization_steps m))"
proof (rule run_steps_rel[of post_frame, OF post_frame_refl post_frame_trans])
  fix step :: "machine \<Rightarrow> outcome" and m
  assume "step \<in> set finalization_steps"
  then consider "step = print_short_summary" | "step = write_summary" | "step = closing"
    by (auto simp: finalization_steps_def)
  then show "post_frame m (machine_of (step m))"
  proof cases
    case 1
    then show ?thesis
      by (auto simp: post_frame_def print_short_summary_def emit_def Let_def split: sum.splits)
  next
    case 2
    then show ?thesis by (auto simp: post_frame_def write_summary_def emit_def Let_def)
  next
    case 3
    then show ?thesis by (auto simp: post_frame_def closing_def emit_def)
  qed
qed (assumption+)

lemma summarise_trace:
  "\<exists>es. trace (machine_of (summarise_and_export c m))
          = trace m @ CallSummarise (args m) (summary m) # es \<and> list_all post_event es"
  by (auto simp: summarise_and_export_def emit_def Let_def
      split: sum.splits prod.splits option.splits)

lemma after_processing_trace:
  "\<exists>es. trace (machine_of (run_steps (summarise_and_export c # finalization_steps) m))
          = trace m @ CallSummarise (args m) (summary m) # es \<and> list_all post_event es"
proof -
  obtain es where es: "trace (machine_of (summarise_and_export c m))
          = trace m @ CallSummarise (args m) (summary m) # es" "list_all post_event es"
    using summarise_trace by blast
  show ?thesis
  proof (cases "summarise_and_export c m")
    case (Raised e m')
    then show ?thesis using es by auto
  next
    case (Done m')
    obtain es' where es': "trace (machine_of (run_steps finalization_steps m')) = trace m' @ es'"
        "list_all post_event es'"
      using finalization_post_frame[of m'] by (auto simp: post_frame_def)
    have "trace (machine_of (run_steps (summarise_and_export c # finalization_steps) m))
          = trace m @ CallSummarise (args m) (summary m) # (es @ es')"
      using Done es(1) es'(1) by simp
    moreover have "list_all post_event (es @ es')" using es(2) es'(2) by simp
    ultimately show ?thesis by blast
  qed
qed

lemma set_key_simps:
  "args (set_key k v m) = args m"
  "fs (set_key k v m) = fs m"
  "summary (set_key k v m) = (summary m)(k \<mapsto> v)"
  "trace (set_key k v m) = trace m @ [SetSummary k v]"
  "registered (set_key k v m) = registered m"
  by (simp_all add: set_key_def emit_def)

lemma process_input_skip:
  assumes "\<not> processInputFile (args m)"
  shows "process_input c m =
     Done (m\<lparr>summary := [''file-name'' \<mapsto> Str (epochFile (args m))],
             trace := trace m @ [SetSummary ''file-name'' (Str (epochFile (args m)))]\<rparr>)"
  using assms by (simp add: process_input_def set_key_def emit_def)

lemma process_input_processing:
  assumes "processInputFile (args m)"
  shows "\<exists>m' P. args m' = args m \<and> trace m' = trace m @ P
     \<and> ((\<exists>e. process_input c m = Raised e m')
           \<and> P = [SetSummary ''file-name'' (Str (inputFile (args m)))]
         \<or> (process_input c m = Done m' \<or> (\<exists>e. process_input c m = Raised e m'))
           \<and> (\<exists>cols. P = [SetSummary ''file-name'' (Str (inputFile (args m))),
                   CallDecode (args m) cols [''file-name'' \<mapsto> Str (inputFile (args m))]]))"
proof (cases "parse_ints (py_int c) (split_str (CHR '','') (csvTimeXYZTempColsIndex (args m)))")
  case (Inl e)
  let ?m' = "set_key ''file-name'' (Str (inputFile (args m))) (m\<lparr>summary := Map.empty\<rparr>)"
  have "process_input c m = Raised e ?m'"
    using assms Inl by (simp add: process_input_def Let_def set_key_def emit_def)
  moreover have "args ?m' = args m"
    "trace ?m' = trace m @ [SetSummary ''file-name'' (Str (inputFile (args m)))]"
    by (simp_all add: set_key_def emit_def)
  ultimately show ?thesis by blast
next
  case (Inr cols)
  let ?v = "Str (inputFile (args m))"
  let ?m1 = "set_key ''file-name'' ?v (m\<lparr>summary := Map.empty\<rparr>)"
  let ?m2 = "emit (CallDecode (args m) cols [''file-name'' \<mapsto> ?v]) ?m1"
  obtain r s f' where r: "processInputFileToEpoch c (args m) cols [''file-name'' \<mapsto> ?v] (fs m)
      = (r, s, f')"
    by (cases "processInputFileToEpoch c (args m) cols [''file-name'' \<mapsto> ?v] (fs m)") auto
  let ?m' = "?m2\<lparr>fs := f', summary := s\<rparr>"
  have a: "args ?m' = args m"
    "trace ?m' = trace m @ [SetSummary ''file-name'' ?v,
                   CallDecode (args m) cols [''file-name'' \<mapsto> ?v]]"
    by (simp_all add: set_key_simps emit_simps)
  have "process_input c m = Done ?m' \<or> (\<exists>e. process_input c m = Raised e ?m')"
    using assms Inr r
    by (cases r) (simp_all add: process_input_def Let_def set_key_simps emit_simps)
  then show ?thesis using a by blast
qed

lemma no_stage_start: "no_stage_ran (start a f)"
  by (simp add: no_stage_ran_def start_def)

lemma validation_outcome:
  "(\<exists>e m. run_steps validation_steps (start a f) = Raised e m \<and> no_stage_ran m)
   \<or> run_steps validation_steps (start a f) = Done (validated_machine a f)"
proof (cases "25 \<le> sampleRate a")
  case False
  then show ?thesis using sample_rate_rejected[of a f] no_stage_start by auto
next
  case sr: True
  show ?thesis
  proof (cases "processInputFile a \<longrightarrow> os_path_isfile f (inputFile a)")
    case False
    then show ?thesis using input_missing[OF sr, of f] no_stage_lowpass by auto
  next
    case pre: True
    show ?thesis
    proof (cases "\<forall>p \<in> set (gate_folders (resolved_args a)). os_access_W f p")
      case False
      then obtain p where
        "run_steps validation_steps (start a f) =
             Raised (AssertionError (folder_msg p))
               ((resolved_machine a f)\<lparr>trace := trace (resolved_machine a f) @ map OsAccess
                 (takeWhile (os_access_W f) (gate_folders (resolved_args a)) @ [p])\<rparr>)"
        using validation_gate_fails[OF sr pre] by blast
      then show ?thesis
        using no_stage_gate_failed[of a f
          "takeWhile (os_access_W f) (gate_folders (resolved_args a)) @ [p]"]
        by auto
    next
      case gate: True
      show ?thesis
      proof (cases "time_order_ok a")
        case True
        then show ?thesis using validation_passes[OF sr pre gate] by simp
      next
        case False
        then show ?thesis using validation_time_fails[OF sr pre gate] no_stage_gated by auto
      qed
    qed
  qed
qed

lemma quiet_resolved: "list_all quiet_event (trace (resolved_machine a f))"
  by (simp add: resolved_machine_def)

lemma quiet_OsAccess: "list_all quiet_event (map OsAccess qs)"
  by (induction qs) auto

lemma quiet_validated: "list_all quiet_event (trace (validated_machine a f))"
  by (simp add: validated_machine_simps gated_machine_simps quiet_resolved quiet_OsAccess)

lemma quiet_filters:
  assumes "list_all quiet_event xs"
  shows "filter sets_file_name xs = []" "filter is_decode xs = []"
    "filter is_summarise xs = []"
proof -
  have "\<And>e. quiet_event e \<Longrightarrow> \<not> sets_file_name e \<and> \<not> is_decode e \<and> \<not> is_summarise e"
    by (case_tac e) auto
  then show "filter sets_file_name xs = []" "filter is_decode xs = []"
    "filter is_summarise xs = []"
    using assms by (auto simp: list_all_iff filter_empty_conv)
qed

lemma post_filters:
  assumes "list_all post_event xs"
  shows "filter sets_file_name xs = []" "filter is_decode xs = []"
proof -
  have "\<And>e. post_event e \<Longrightarrow> \<not> sets_file_name e \<and> \<not> is_decode e"
    by (case_tac e) auto
  then show "filter sets_file_name xs = []" "filter is_decode xs = []"
    using assms by (auto simp: list_all_iff filter_empty_conv)
qed

lemma summarise_is_stage: "is_summarise e \<Longrightarrow> stage_event e"
  by (cases e) auto

lemma no_stage_no_summarise: "no_stage_ran m \<Longrightarrow> \<not> list_ex is_summarise (trace m)"
  using summarise_is_stage by (auto simp: no_stage_ran_def list_ex_iff filter_empty_conv)

lemma reached_summarise_shape:
  assumes "list_ex is_summarise (trace (machine_of (main c (start a f))))"
  shows "\<exists>Q P s es. list_all quiet_event Q \<and> list_all post_event es
     \<and> trace (machine_of (main c (start a f))) = Q @ P @ CallSummarise (resolved_args a) s # es
     \<and> args (machine_of (main c (start a f))) = resolved_args a
     \<and> (if processInputFile a
         then (\<exists>cols. P = [SetSummary ''file-name'' (Str (inputFile a)),
                 CallDecode (resolved_args a) cols [''file-name'' \<mapsto> Str (inputFile a)]])
         else P = [SetSummary ''file-name'' (Str (epochFile (resolved_args a)))]
              \<and> s = [''file-name'' \<mapsto> Str (epochFile (resolved_args a))])"
proof -
  let ?V = "validated_machine a f"
  let ?R = "resolved_args a"
  have V: "run_steps validation_steps (start a f) = Done ?V"
  proof (rule ccontr)
    assume "run_steps validation_steps (start a f) \<noteq> Done ?V"
    then obtain e m where "run_steps validation_steps (start a f) = Raised e m" "no_stage_ran m"
      using validation_outcome[of a f] by blast
    then show False using assms no_stage_no_summarise[of m] by (simp add: main_split)
  qed
  have main: "main c (start a f) =
      (case process_input c ?V of
         Done m' \<Rightarrow> run_steps (summarise_and_export c # finalization_steps) m'
       | Raised e m' \<Rightarrow> Raised e m')"
    by (simp add: main_split V processing_steps_def)
  have argsV: "args ?V = ?R" by (simp add: validated_machine_simps)
  have frame: "args (machine_of (main c (start a f))) = ?R"
    using processing_frame[of ?V c] V by (simp add: main_split late_frame_def argsV)
  have inp: "processInputFile a \<Longrightarrow> inputFile ?R = inputFile a"
    by (simp add: resolved_args_inputFile)
  obtain m1 P where m1: "process_input c ?V = Done m1" "args m1 = ?R"
      "trace m1 = trace ?V @ P"
      "if processInputFile a
         then (\<exists>cols. P = [SetSummary ''file-name'' (Str (inputFile a)),
                 CallDecode ?R cols [''file-name'' \<mapsto> Str (inputFile a)]])
         else P = [SetSummary ''file-name'' (Str (epochFile ?R))]
              \<and> summary m1 = [''file-name'' \<mapsto> Str (epochFile ?R)]"
  proof (cases "processInputFile a")
    case False
    then have "\<not> processInputFile (args ?V)" by (simp add: argsV resolved_args_passthrough)
    from process_input_skip[OF this, of c]
    have d: "process_input c ?V =
       Done (?V\<lparr>summary := [''file-name'' \<mapsto> Str (epochFile ?R)],
             trace := trace ?V @ [SetSummary ''file-name'' (Str (epochFile ?R))]\<rparr>)"
      by (simp add: argsV)
    let ?m = "?V\<lparr>summary := [''file-name'' \<mapsto> Str (epochFile ?R)],
             trace := trace ?V @ [SetSummary ''file-name'' (Str (epochFile ?R))]\<rparr>"
    have 1: "args ?m = ?R" using argsV by simp
    have 2: "trace ?m = trace ?V @ [SetSummary ''file-name'' (Str (epochFile ?R))]" by simp
    have 3: "summary ?m = [''file-name'' \<mapsto> Str (epochFile ?R)]" by simp
    show ?thesis
      using that[of ?m "[SetSummary ''file-name'' (Str (epochFile ?R))]"] d 1 2 3 False
      by presburger
  next
    case True
    then have "processInputFile (args ?V)" by (simp add: argsV resolved_args_passthrough)
    from process_input_processing[OF this, of c] obtain m' P where
      h: "args m' = args ?V" "trace m' = trace ?V @ P"
        "(\<exists>e. process_input c ?V = Raised e m')
           \<and> P = [SetSummary ''file-name'' (Str (inputFile (args ?V)))]
         \<or> (process_input c ?V = Done m' \<or> (\<exists>e. process_input c ?V = Raised e m'))
           \<and> (\<exists>cols. P = [SetSummary ''file-name'' (Str (inputFile (args ?V))),
                   CallDecode (args ?V) cols [''file-name'' \<mapsto> Str (inputFile (args ?V))]])"
      by blast
    have nosum: "\<not> list_ex is_summarise (trace m')"
      using h(2,3) quiet_filters(3)[OF quiet_validated[of a f]]
      by (auto simp: list_ex_iff filter_empty_conv)
    have notraised: "\<And>e. process_input c ?V \<noteq> Raised e m'"
    proof
      fix e assume "process_input c ?V = Raised e m'"
      then have "machine_of (main c (start a f)) = m'" by (simp add: main)
      then show False using assms nosum by simp
    qed
    then have d: "process_input c ?V = Done m'" and
      p: "\<exists>cols. P = [SetSummary ''file-name'' (Str (inputFile (args ?V))),
                   CallDecode (args ?V) cols [''file-name'' \<mapsto> Str (inputFile (args ?V))]]"
      using h(3) by auto
    have 1: "args m' = ?R" using h(1) argsV by simp
    have 2: "\<exists>cols. P = [SetSummary ''file-name'' (Str (inputFile a)),
                 CallDecode ?R cols [''file-name'' \<mapsto> Str (inputFile a)]]"
      using p inp[OF True] argsV by simp
    show ?thesis
      using that[of m' P] d 1 h(2) 2 True by presburger
  qed
  obtain es where es: "trace (machine_of (main c (start a f)))
          = trace m1 @ CallSummarise (args m1) (summary m1) # es" "list_all post_event es"
    using after_processing_trace[of c m1] m1(1) by (auto simp: main)
  have t: "trace (machine_of (main c (start a f)))
          = trace ?V @ P @ CallSummarise ?R (summary m1) # es"
    using es(1) m1(2,3) by simp
  show ?thesis
    using quiet_validated[of a f] es(2) t frame m1(4)
    by (intro exI[of _ "trace ?V"] exI[of _ P] exI[of _ "summary m1"] exI[of _ es])
       (auto split: if_splits)
qed

lemma before_summarise_shape:
  assumes "filter is_summarise xs = []"
  shows "before_summarise (xs @ CallSummarise R s # es) = xs"
proof -
  have "\<And>x. x \<in> set xs \<Longrightarrow> \<not> is_summarise x"
    using assms by (auto simp: filter_empty_conv)
  then have "takeWhile (\<lambda>e. \<not> is_summarise e) (xs @ CallSummarise R s # es)
      = xs @ takeWhile (\<lambda>e. \<not> is_summarise e) (CallSummarise R s # es)"
    by (rule takeWhile_append2)
  then show ?thesis by (simp add: before_summarise_def)
qed

lemma summarise_reached:
  assumes "run_steps validation_steps (start a f) = Done V"
    and "process_input c V = Done m1"
  shows "list_ex is_summarise (trace (machine_of (main c (start a f))))"
proof -
  have "main c (start a f) = run_steps (summarise_and_export c # finalization_steps) m1"
    using assms by (simp add: main_split processing_steps_def)
  then show ?thesis using after_processing_trace[of c m1] by auto
qed

lemma example_validation:
  "run_steps validation_steps (start example_args example_fs)
     = Done (validated_machine example_args example_fs)"
proof (rule validation_passes[OF _ example_pre])
  show "25 \<le> sampleRate example_args" by (simp add: example_args_def)
  show "\<forall>p\<in>set (gate_folders (resolved_args example_args)). os_access_W example_fs p"
    using example_good_folders example_access by simp
  show "time_order_ok example_args"
    by (simp add: time_order_ok_def example_args_def)
qed

lemma example_epoch_only_folders:
  "gate_folders (resolved_args example_epoch_only_args) = replicate 7 ''/data''"
  by (simp add: gate_folders_def checked_folders_def resolved_args_folders
      resolved_args_outputFolder resolved_args_passthrough example_args_def example_split
      example_epoch_only_args_def numeral_eq_Suc)

lemma example_epoch_only_validation:
  "run_steps validation_steps (start example_epoch_only_args example_fs)
     = Done (validated_machine example_epoch_only_args example_fs)"
proof (rule validation_passes)
  show "25 \<le> sampleRate example_epoch_only_args"
    by (simp add: example_args_def example_epoch_only_args_def)
  show "processInputFile example_epoch_only_args \<longrightarrow>
      os_path_isfile example_fs (inputFile example_epoch_only_args)"
    by (simp add: example_epoch_only_args_def)
  show "\<forall>p\<in>set (gate_folders (resolved_args example_epoch_only_args)).
      os_access_W example_fs p"
    using example_epoch_only_folders example_access by simp
  show "time_order_ok example_epoch_only_args"
    by (simp add: time_order_ok_def example_args_def example_epoch_only_args_def)
qed

lemma example_columns:
  "parse_ints single_digit (split_str (CHR '','') ''0,1,2,3,4'') = Inr [0, 1, 2, 3, 4]"
  by (simp add: single_digit_def)

lemma example_decode_done:
  "\<exists>m1. process_input example_collaborators (validated_machine example_args example_fs)
      = Done m1"
proof -
  have "csvTimeXYZTempColsIndex (args (validated_machine example_args example_fs))
      = ''0,1,2,3,4''"
    by (simp add: validated_machine_simps resolved_args_passthrough example_args_def)
  moreover have "processInputFile (args (validated_machine example_args example_fs))"
    by (simp add: validated_machine_simps resolved_args_passthrough example_args_def)
  ultimately show ?thesis
    by (simp add: process_input_def Let_def set_key_simps emit_simps single_digit_def
        example_collaborators_def)
qed

lemma example_epoch_file:
  "epochFile (resolved_args example_epoch_only_args) = ''/data/sample-epoch.csv.gz''"
  by (simp add: resolved_args_files resolved_args_folders resolved_args_outputFolder
      example_epoch_only_args_def example_args_def example_split os_path_join_def sep_def
      dot_def)

lemma lookup_all_ok:
  "\<forall>k \<in> set ks. s k \<noteq> None \<Longrightarrow> lookup_all s ks = Inr (map (\<lambda>k. (k, the (s k))) ks)"
  by (induction ks) auto

lemma lookup_all_fail:
  "find (\<lambda>k. s k = None) ks = Some k \<Longrightarrow> lookup_all s ks = Inl (KeyError k)"
  by (induction ks) (auto split: if_splits option.splits)

lemma lookup_all_Inr: "lookup_all s ks = Inr kvs \<Longrightarrow> \<forall>k \<in> set ks. s k \<noteq> None"
  by (induction ks arbitrary: kvs) (auto split: option.splits sum.splits)

lemma quiet_written: "list_all quiet_event (trace m) \<Longrightarrow> written_complete m"
proof -
  assume q: "list_all quiet_event (trace m)"
  have "\<And>p s. WriteSummaryFile p s \<notin> set (trace m)"
  proof
    fix p s assume "WriteSummaryFile p s \<in> set (trace m)"
    then have "quiet_event (WriteSummaryFile p s)" using q by (auto simp: list_all_iff)
    then show False by simp
  qed
  then show ?thesis by (simp add: written_complete_def)
qed

lemma process_input_written:
  "written_complete m \<Longrightarrow> written_complete (machine_of (process_input c m))"
  by (auto simp: written_complete_def process_input_def Let_def set_key_simps emit_simps
      split: sum.splits prod.splits option.splits)

lemma summarise_written:
  "written_complete m \<Longrightarrow> written_complete (machine_of (summarise_and_export c m))"
  by (auto simp: written_complete_def summarise_and_export_def Let_def emit_simps
      split: sum.splits prod.splits option.splits)

lemma finalization_missing_key:
  assumes "find (\<lambda>k. summary m k = None) summaryVals = Some k"
  shows "run_steps finalization_steps m =
           Raised (KeyError k) (emit (ToScreen ''=== Short summary ==='') m)"
  using lookup_all_fail[OF assms]
  by (simp add: finalization_steps_def print_short_summary_def Let_def emit_simps)

lemma finalization_written:
  assumes "written_complete m"
  shows "written_complete (machine_of (run_steps finalization_steps m))"
proof (cases "lookup_all (summary m) summaryVals")
  case (Inl e)
  then have "machine_of (run_steps finalization_steps m)
      = emit (ToScreen ''=== Short summary ==='') m"
    by (simp add: finalization_steps_def print_short_summary_def Let_def emit_simps)
  then show ?thesis using assms by (auto simp: written_complete_def emit_simps)
next
  case (Inr kvs)
  then have all: "\<forall>k \<in> set summaryVals. summary m k \<noteq> None" by (rule lookup_all_Inr)
  let ?m1 = "emit (ShortSummary kvs) (emit (ToScreen ''=== Short summary ==='') m)"
  have p: "print_short_summary m = Done ?m1"
    using Inr by (simp add: print_short_summary_def Let_def emit_simps)
  have w1: "written_complete ?m1" using assms by (auto simp: written_complete_def emit_simps)
  show ?thesis
  proof (cases "summaryFile (args ?m1) \<in> unopenable (fs ?m1)")
    case True
    then have "machine_of (run_steps finalization_steps m) = ?m1"
      using p by (simp add: finalization_steps_def write_summary_def Let_def)
    then show ?thesis using w1 by simp
  next
    case False
    then have "\<exists>m2. machine_of (run_steps finalization_steps m) = m2
        \<and> trace m2 = trace ?m1 @ [WriteSummaryFile (summaryFile (args ?m1)) (summary m),
                                  ReportDuration]"
      using p by (simp add: finalization_steps_def write_summary_def closing_def Let_def
          emit_simps emit_def)
    then show ?thesis using w1 all by (auto simp: written_complete_def)
  qed
qed

lemma validation_outcome_quiet:
  "(\<exists>e m. run_steps validation_steps (start a f) = Raised e m \<and> list_all quiet_event (trace m))
   \<or> run_steps validation_steps (start a f) = Done (validated_machine a f)"
proof (cases "25 \<le> sampleRate a")
  case False
  then show ?thesis using sample_rate_rejected[of a f] by (auto simp: start_def)
next
  case sr: True
  show ?thesis
  proof (cases "processInputFile a \<longrightarrow> os_path_isfile f (inputFile a)")
    case False
    then show ?thesis using input_missing[OF sr, of f] by (auto simp: lowpass_machine_def)
  next
    case pre: True
    show ?thesis
    proof (cases "\<forall>p \<in> set (gate_folders (resolved_args a)). os_access_W f p")
      case False
      then obtain p where
        "run_steps validation_steps (start a f) =
             Raised (AssertionError (folder_msg p))
               ((resolved_machine a f)\<lparr>trace := trace (resolved_machine a f) @ map OsAccess
                 (takeWhile (os_access_W f) (gate_folders (resolved_args a)) @ [p])\<rparr>)"
        using validation_gate_fails[OF sr pre] by blast
      then show ?thesis
        using quiet_resolved[of a f]
          quiet_OsAccess[of "takeWhile (os_access_W f) (gate_folders (resolved_args a)) @ [p]"]
        by auto
    next
      case gate: True
      show ?thesis
      proof (cases "time_order_ok a")
        case True
        then show ?thesis using validation_passes[OF sr pre gate] by simp
      next
        case False
        then show ?thesis
          using validation_time_fails[OF sr pre gate] quiet_resolved[of a f]
            quiet_OsAccess[of "gate_folders (resolved_args a)"]
          by (auto simp: gated_machine_simps)
      qed
    qed
  qed
qed

lemma main_written_complete: "written_complete (machine_of (main c (start a f)))"
proof -
  consider e m where "run_steps validation_steps (start a f) = Raised e m"
      "list_all quiet_event (trace m)"
    | "run_steps validation_steps (start a f) = Done (validated_machine a f)"
    using validation_outcome_quiet[of a f] by blast
  then show ?thesis
  proof cases
    case 1
    then show ?thesis using quiet_written[of m] by (simp add: main_split)
  next
    case 2
    let ?V = "validated_machine a f"
    have v: "written_complete ?V" using quiet_validated quiet_written by blast
    have m: "main c (start a f) =
      (case process_input c ?V of
         Done m1 \<Rightarrow> (case summarise_and_export c m1 of
                       Done m2 \<Rightarrow> run_steps finalization_steps m2
                     | Raised e m2 \<Rightarrow> Raised e m2)
       | Raised e m1 \<Rightarrow> Raised e m1)"
      by (simp add: main_split 2 processing_steps_def run_steps_append
          split: outcome.splits)
    show ?thesis
    proof (cases "process_input c ?V")
      case (Raised e m1)
      then show ?thesis using m process_input_written[OF v, of c] by simp
    next
      case d1: (Done m1)
      then have w1: "written_complete m1" using process_input_written[OF v, of c] by simp
      show ?thesis
      proof (cases "summarise_and_export c m1")
        case (Raised e m2)
        then show ?thesis using m d1 summarise_written[OF w1, of c] by simp
      next
        case (Done m2)
        then have "written_complete m2" using summarise_written[OF w1, of c] by simp
        then show ?thesis using m d1 Done finalization_written[of m2] by simp
      qed
    qed
  qed
qed

lemma example_run_writes:
  "WriteSummaryFile (summaryFile (resolved_args example_args)) example_summary
     \<in> set (trace (machine_of (main example_collaborators (start example_args example_fs))))"
proof -
  let ?V = "validated_machine example_args example_fs"
  let ?R = "resolved_args example_args"
  have a: "csvTimeXYZTempColsIndex ?R = ''0,1,2,3,4''" "processInputFile ?R"
    "inputFile ?R = ''/data/sample.cwa.gz''"
    by (simp_all add: resolved_args_passthrough resolved_args_inputFile example_args_def)
  obtain m1 where m1: "process_input example_collaborators ?V = Done m1"
    "args m1 = ?R" "fs m1 = example_fs"
    "summary m1 = [''file-name'' \<mapsto> Str ''/data/sample.cwa.gz'',
      ''file-startTime'' \<mapsto> Str ''2020-01-01 00:00:00'',
      ''file-endTime'' \<mapsto> Str ''2020-01-08 00:00:00'']"
    using a
    by (simp add: process_input_def Let_def set_key_simps emit_simps single_digit_def
        example_collaborators_def validated_machine_simps)
  obtain m2 where m2: "summarise_and_export example_collaborators m1 = Done m2"
    "args m2 = ?R" "fs m2 = example_fs" "summary m2 = example_summary"
    using m1(2,3,4)
    by (simp add: summarise_and_export_def Let_def emit_simps example_collaborators_def
        example_summary_def)
  have l: "\<forall>k \<in> set summaryVals. summary m2 k \<noteq> None"
    by (simp add: m2(4) example_summary_def summaryVals_def)
  have o: "summaryFile (args m2) \<notin> unopenable (fs m2)"
    by (simp add: m2(3) example_fs_def)
  have "WriteSummaryFile (summaryFile ?R) example_summary
      \<in> set (trace (machine_of (run_steps finalization_steps m2)))"
    using lookup_all_ok[OF l] o m2(2,4)
    by (simp add: finalization_steps_def print_short_summary_def write_summary_def
        closing_def Let_def emit_simps emit_def)
  then show ?thesis
    using m1(1) m2(1)
    by (simp add: main_split example_validation processing_steps_def)
qed

lemma late_event_not_access: "list_all (late_event A) es \<Longrightarrow> OsAccess p \<notin> set es"
proof
  assume "list_all (late_event A) es" "OsAccess p \<in> set es"
  then have "late_event A (OsAccess p)" by (auto simp: list_all_iff)
  then show False by simp
qed

lemma resolved_trace_no_access: "OsAccess p \<notin> set (trace (resolved_machine a f))"
  by (simp add: resolved_machine_def)

lemma probed_folders:
  assumes "25 \<le> sampleRate a"
    and "processInputFile a \<longrightarrow> os_path_isfile f (inputFile a)"
    and "OsAccess p \<in> set (trace (machine_of (main c (start a f))))"
  shows "p \<in> set (gate_folders (resolved_args a))"
proof -
  let ?m = "machine_of (main c (start a f))"
  consider qs where "set qs \<subseteq> set (gate_folders (resolved_args a))"
      "?m = (resolved_machine a f)\<lparr>trace := trace (resolved_machine a f) @ map OsAccess qs\<rparr>"
    | "?m = gated_machine a f"
    | "late_frame (validated_machine a f) ?m"
    using main_resolved_cases[OF assms(1,2), of c] by blast
  then show ?thesis
  proof cases
    case 1
    then show ?thesis using assms(3) resolved_trace_no_access[of p a f] by auto
  next
    case 2
    then show ?thesis
      using assms(3) resolved_trace_no_access[of p a f] by (auto simp: gated_machine_simps)
  next
    case 3
    then obtain es where es: "trace ?m = trace (validated_machine a f) @ es"
      "list_all (late_event (resolved_args a)) es"
      by (auto simp: late_frame_def validated_machine_simps)
    then show ?thesis
      using assms(3) resolved_trace_no_access[of p a f] late_event_not_access[OF es(2), of p]
      by (auto simp: validated_machine_simps gated_machine_simps)
  qed
qed

lemma example_unchecked_folders:
  "checked_folders (resolved_args example_unchecked_args) = replicate 7 ''/data''"
  "epochFolder (resolved_args example_unchecked_args) = ''/elsewhere''"
  by (simp_all add: checked_folders_def resolved_args_folders
      resolved_args_outputFolder resolved_args_passthrough example_args_def example_split
      example_unchecked_args_def numeral_eq_Suc)

lemma quiet_not_remove: "list_all quiet_event es \<Longrightarrow> OsRemove p \<notin> set es"
proof
  assume "list_all quiet_event es" and "OsRemove p \<in> set es"
  then have "quiet_event (OsRemove p)" by (auto simp: list_all_iff)
  then show False by simp
qed

lemma example_stages:
  assumes "processInputFile a" and "csvTimeXYZTempColsIndex a = ''0,1,2,3,4''"
  shows "\<exists>m es. run_steps (processing_steps example_collaborators) (validated_machine a f)
         = Done m
     \<and> args m = resolved_args a \<and> fs m = f \<and> registered m = deleteIntermediateFiles a
     \<and> (\<forall>k \<in> set summaryVals. summary m k \<noteq> None)
     \<and> trace m = trace (validated_machine a f) @ es
     \<and> length (filter stage_event es) = 3
     \<and> list_ex is_decode es \<and> list_ex is_summarise es
     \<and> CallWriteTS (tsFile (resolved_args a)) \<in> set es
     \<and> (\<forall>p. OsRemove p \<notin> set es)"
proof -
  let ?V = "validated_machine a f"
  let ?R = "resolved_args a"
  have a: "csvTimeXYZTempColsIndex ?R = ''0,1,2,3,4''" "processInputFile ?R"
    using assms by (simp_all add: resolved_args_passthrough)
  define m1 where "m1 = \<lparr>args = ?R, fs = f,
      summary = [''file-name'' \<mapsto> Str (inputFile ?R),
        ''file-startTime'' \<mapsto> Str ''2020-01-01 00:00:00'',
        ''file-endTime'' \<mapsto> Str ''2020-01-08 00:00:00''],
      registered = deleteIntermediateFiles a,
      trace = trace ?V @ [SetSummary ''file-name'' (Str (inputFile ?R)),
        CallDecode ?R [0, 1, 2, 3, 4] [''file-name'' \<mapsto> Str (inputFile ?R)]]\<rparr>"
  have m1: "process_input example_collaborators ?V = Done m1"
    "args m1 = ?R" "fs m1 = f" "registered m1 = deleteIntermediateFiles a"
    "summary m1 = [''file-name'' \<mapsto> Str (inputFile ?R),
      ''file-startTime'' \<mapsto> Str ''2020-01-01 00:00:00'',
      ''file-endTime'' \<mapsto> Str ''2020-01-08 00:00:00'']"
    "trace m1 = trace ?V @ [SetSummary ''file-name'' (Str (inputFile ?R)),
       CallDecode ?R [0, 1, 2, 3, 4] [''file-name'' \<mapsto> Str (inputFile ?R)]]"
    using a
    by (simp_all add: m1_def process_input_def Let_def set_key_simps emit_simps single_digit_def
        example_collaborators_def validated_machine_simps(1,2,3,4))
  define m2 where "m2 = \<lparr>args = ?R, fs = f,
      summary = (summary m1)(''acc-overall-avg'' \<mapsto> Num 28,
        ''wearTime-overall(days)'' \<mapsto> Num 7, ''nonWearTime-overall(days)'' \<mapsto> Num 0,
        ''quality-goodWearTime'' \<mapsto> Num 1),
      registered = deleteIntermediateFiles a,
      trace = trace m1 @ [CallSummarise ?R (summary m1), CallWriteTS (tsFile ?R)]\<rparr>"
  have m2: "summarise_and_export example_collaborators m1 = Done m2"
    "args m2 = ?R" "fs m2 = f" "registered m2 = deleteIntermediateFiles a"
    "summary m2 = (summary m1)(''acc-overall-avg'' \<mapsto> Num 28,
        ''wearTime-overall(days)'' \<mapsto> Num 7, ''nonWearTime-overall(days)'' \<mapsto> Num 0,
        ''quality-goodWearTime'' \<mapsto> Num 1)"
    "trace m2 = trace m1 @ [CallSummarise ?R (summary m1), CallWriteTS (tsFile ?R)]"
    using m1(2,3,4)
    by (simp_all add: m2_def summarise_and_export_def Let_def emit_simps
        example_collaborators_def)
  let ?es = "[SetSummary ''file-name'' (Str (inputFile ?R)),
       CallDecode ?R [0, 1, 2, 3, 4] [''file-name'' \<mapsto> Str (inputFile ?R)],
       CallSummarise ?R (summary m1), CallWriteTS (tsFile ?R)]"
  have r: "run_steps (processing_steps example_collaborators) ?V = Done m2"
    using m1(1) m2(1) by (simp add: processing_steps_def)
  have l: "\<forall>k \<in> set summaryVals. summary m2 k \<noteq> None"
    by (simp add: m2(5) m1(5) summaryVals_def)
  have t: "trace m2 = trace ?V @ ?es" by (simp add: m2(6) m1(6))
  have s: "length (filter stage_event ?es) = 3" by simp
  have d: "list_ex is_decode ?es" "list_ex is_summarise ?es"
    "CallWriteTS (tsFile ?R) \<in> set ?es" "\<forall>p. OsRemove p \<notin> set ?es"
    by simp_all
  show ?thesis
    by (intro exI[of _ m2] exI[of _ ?es] conjI r m2(2,3,4) l t s d)
qed

lemma finalization_done:
  assumes "\<forall>k \<in> set summaryVals. summary m k \<noteq> None"
    and "summaryFile (args m) \<notin> unopenable (fs m)"
  shows "\<exists>m' es. run_steps finalization_steps m = Done m'
     \<and> args m' = args m \<and> registered m' = registered m
     \<and> present (fs m') = insert (summaryFile (args m)) (present (fs m))
     \<and> undeletable (fs m') = undeletable (fs m)
     \<and> trace m' = trace m @ es
     \<and> filter stage_event es = [] \<and> (\<forall>p. OsRemove p \<notin> set es)"
proof -
  let ?kvs = "map (\<lambda>k. (k, the (summary m k))) summaryVals"
  let ?p = "summaryFile (args m)"
  let ?es = "[ToScreen ''=== Short summary ==='', ShortSummary ?kvs,
              WriteSummaryFile ?p (summary m), ReportDuration]"
  define m' where "m' = m\<lparr>fs := (fs m)\<lparr>regular_files := insert ?p (regular_files (fs m)),
                                    present := insert ?p (present (fs m))\<rparr>,
                          trace := trace m @ ?es\<rparr>"
  have r: "run_steps finalization_steps m = Done m'"
    using lookup_all_ok[OF assms(1)] assms(2)
    by (simp add: finalization_steps_def print_short_summary_def write_summary_def
        closing_def Let_def emit_def m'_def)
  have f: "args m' = args m" "registered m' = registered m"
    "present (fs m') = insert ?p (present (fs m))" "undeletable (fs m') = undeletable (fs m)"
    "trace m' = trace m @ ?es"
    by (simp_all add: m'_def)
  have e: "filter stage_event ?es = []" "\<forall>p. OsRemove p \<notin> set ?es" by simp_all
  show ?thesis by (intro exI[of _ m'] exI[of _ ?es] conjI r f e)
qed

lemma finalization_unopenable:
  assumes "\<forall>k \<in> set summaryVals. summary m k \<noteq> None"
    and "summaryFile (args m) \<in> unopenable (fs m)"
  shows "\<exists>m' es. run_steps finalization_steps m = Raised (OSError (summaryFile (args m))) m'
     \<and> trace m' = trace m @ es \<and> filter stage_event es = []"
proof -
  let ?kvs = "map (\<lambda>k. (k, the (summary m k))) summaryVals"
  let ?es = "[ToScreen ''=== Short summary ==='', ShortSummary ?kvs]"
  define m' where "m' = m\<lparr>trace := trace m @ ?es\<rparr>"
  have r: "run_steps finalization_steps m = Raised (OSError (summaryFile (args m))) m'"
    using lookup_all_ok[OF assms(1)] assms(2)
    by (simp add: finalization_steps_def print_short_summary_def write_summary_def
        Let_def emit_def m'_def)
  have f: "trace m' = trace m @ ?es" by (simp add: m'_def)
  have e: "filter stage_event ?es = []" by simp
  show ?thesis by (intro exI[of _ m'] exI[of _ ?es] conjI r f e)
qed

lemma main_after_validation:
  assumes "run_steps validation_steps (start a f) = Done (validated_machine a f)"
    and "run_steps (processing_steps c) (validated_machine a f) = Done m"
  shows "main c (start a f) = run_steps finalization_steps m"
  using assms by (simp add: main_split run_steps_append)

lemma example_run_done:
  assumes V: "run_steps validation_steps (start a f) = Done (validated_machine a f)"
    and p: "processInputFile a" and cols: "csvTimeXYZTempColsIndex a = ''0,1,2,3,4''"
    and ok: "summaryFile (resolved_args a) \<notin> unopenable f"
  shows "\<exists>M es. main example_collaborators (start a f) = Done M
     \<and> args M = resolved_args a \<and> registered M = deleteIntermediateFiles a
     \<and> present (fs M) = insert (summaryFile (resolved_args a)) (present f)
     \<and> undeletable (fs M) = undeletable f
     \<and> trace M = trace (validated_machine a f) @ es
     \<and> length (filter stage_event es) = 3 \<and> (\<forall>p. OsRemove p \<notin> set es)"
proof -
  obtain m es where m:
    "run_steps (processing_steps example_collaborators) (validated_machine a f) = Done m"
    "args m = resolved_args a" "fs m = f" "registered m = deleteIntermediateFiles a"
    "\<forall>k \<in> set summaryVals. summary m k \<noteq> None"
    "trace m = trace (validated_machine a f) @ es"
    "length (filter stage_event es) = 3" "\<forall>p. OsRemove p \<notin> set es"
    using example_stages[OF p cols, of f] by blast
  have o: "summaryFile (args m) \<notin> unopenable (fs m)" using ok m(2,3) by simp
  obtain M es' where M: "run_steps finalization_steps m = Done M"
    "args M = args m" "registered M = registered m"
    "present (fs M) = insert (summaryFile (args m)) (present (fs m))"
    "undeletable (fs M) = undeletable (fs m)"
    "trace M = trace m @ es'" "filter stage_event es' = []" "\<forall>p. OsRemove p \<notin> set es'"
    using finalization_done[OF m(5) o] by blast
  have 1: "main example_collaborators (start a f) = Done M"
    using main_after_validation[OF V m(1)] M(1) by simp
  have 2: "args M = resolved_args a" "registered M = deleteIntermediateFiles a"
    "present (fs M) = insert (summaryFile (resolved_args a)) (present f)"
    "undeletable (fs M) = undeletable f"
    using M(2,3,4,5) m(2,3,4) by simp_all
  have 3: "trace M = trace (validated_machine a f) @ (es @ es')"
    using M(6) m(6) by simp
  have 4: "length (filter stage_event (es @ es')) = 3" "\<forall>p. OsRemove p \<notin> set (es @ es')"
    using m(7,8) M(7,8) by simp_all
  show ?thesis by (intro exI[of _ M] exI[of _ "es @ es'"] conjI 1 2 3 4)
qed

lemma example_run_unopenable:
  assumes V: "run_steps validation_steps (start a f) = Done (validated_machine a f)"
    and p: "processInputFile a" and cols: "csvTimeXYZTempColsIndex a = ''0,1,2,3,4''"
    and bad: "summaryFile (resolved_args a) \<in> unopenable f"
  shows "\<exists>M es. main example_collaborators (start a f)
         = Raised (OSError (summaryFile (resolved_args a))) M
     \<and> trace M = trace (validated_machine a f) @ es
     \<and> length (filter stage_event es) = 3
     \<and> list_ex is_decode es \<and> list_ex is_summarise es
     \<and> CallWriteTS (tsFile (resolved_args a)) \<in> set es"
proof -
  obtain m es where m:
    "run_steps (processing_steps example_collaborators) (validated_machine a f) = Done m"
    "args m = resolved_args a" "fs m = f"
    "\<forall>k \<in> set summaryVals. summary m k \<noteq> None"
    "trace m = trace (validated_machine a f) @ es"
    "length (filter stage_event es) = 3" "list_ex is_decode es" "list_ex is_summarise es"
    "CallWriteTS (tsFile (resolved_args a)) \<in> set es"
    using example_stages[OF p cols, of f] by blast
  have o: "summaryFile (args m) \<in> unopenable (fs m)" using bad m(2,3) by simp
  obtain M es' where M:
    "run_steps finalization_steps m = Raised (OSError (summaryFile (args m))) M"
    "trace M = trace m @ es'" "filter stage_event es' = []"
    using finalization_unopenable[OF m(4) o] by blast
  have 1: "main example_collaborators (start a f)
         = Raised (OSError (summaryFile (resolved_args a))) M"
    using main_after_validation[OF V m(1)] M(1) m(2) by simp
  have 3: "trace M = trace (validated_machine a f) @ (es @ es')"
    using M(2) m(5) by simp
  have 4: "length (filter stage_event (es @ es')) = 3" "list_ex is_decode (es @ es')"
    "list_ex is_summarise (es @ es')"
    "CallWriteTS (tsFile (resolved_args a)) \<in> set (es @ es')"
    using m(6,7,8,9) M(3) by simp_all
  show ?thesis by (intro exI[of _ M] exI[of _ "es @ es'"] conjI 1 3 4)
qed

lemma example_file_folder_resolved:
  "gate_folders (resolved_args example_file_folder_args)
     = [''/data/sample.cwa.gz'', ''/data'', ''/data'', ''/data'', ''/data'', ''/data'', ''/data'',
        ''/data'']"
  "summaryFolder (resolved_args example_file_folder_args) = ''/data/sample.cwa.gz''"
  "summaryFile (resolved_args example_file_folder_args)
     = ''/data/sample.cwa.gz/sample-summary.json''"
  "tsFile (resolved_args example_file_folder_args) = ''/data/sample-timeSeries.csv.gz''"
  by (simp_all add: gate_folders_def checked_folders_def resolved_args_files
      resolved_args_folders resolved_args_outputFolder resolved_args_passthrough
      example_file_folder_args_def example_args_def example_split os_path_join_def sep_def
      dot_def)

lemma example_file_folder_validation:
  "run_steps validation_steps (start example_file_folder_args example_file_folder_fs)
     = Done (validated_machine example_file_folder_args example_file_folder_fs)"
proof (rule validation_passes)
  show "25 \<le> sampleRate example_file_folder_args"
    by (simp add: example_file_folder_args_def example_args_def)
  show "processInputFile example_file_folder_args \<longrightarrow>
      os_path_isfile example_file_folder_fs (inputFile example_file_folder_args)"
    by (simp add: example_file_folder_args_def example_args_def example_file_folder_fs_def
        os_path_isfile_def)
  show "\<forall>p\<in>set (gate_folders (resolved_args example_file_folder_args)).
      os_access_W example_file_folder_fs p"
    unfolding example_file_folder_resolved
    by (simp add: os_access_W_def example_file_folder_fs_def)
  show "time_order_ok example_file_folder_args"
    by (simp add: time_order_ok_def example_file_folder_args_def example_args_def)
qed

lemma example_cleanup_resolved:
  "gate_folders (resolved_args example_args) = replicate 8 ''/data''"
  "summaryFile (resolved_args example_args) = ''/data/sample-summary.json''"
  "stationaryFile (resolved_args example_args) = ''/data/sample-stationaryPoints.csv.gz''"
  "epochFile (resolved_args example_args) = ''/data/sample-epoch.csv.gz''"
  by (simp_all add: gate_folders_def checked_folders_def resolved_args_files
      resolved_args_folders resolved_args_outputFolder resolved_args_passthrough
      example_args_def example_split os_path_join_def sep_def dot_def numeral_eq_Suc)

lemma example_cleanup_validation:
  "run_steps validation_steps (start example_args example_cleanup_fs)
     = Done (validated_machine example_args example_cleanup_fs)"
proof (rule validation_passes)
  show "25 \<le> sampleRate example_args" by (simp add: example_args_def)
  show "processInputFile example_args \<longrightarrow>
      os_path_isfile example_cleanup_fs (inputFile example_args)"
    by (simp add: example_args_def example_cleanup_fs_def os_path_isfile_def)
  show "\<forall>p\<in>set (gate_folders (resolved_args example_args)).
      os_access_W example_cleanup_fs p"
    unfolding example_cleanup_resolved
    by (simp add: os_access_W_def example_cleanup_fs_def)
  show "time_order_ok example_args"
    by (simp add: time_order_ok_def example_args_def)
qed

section \<open>The claims\<close>

text \<open>
  Claim C2. For every user-supplied sample rate: below 25 the run fails at the first
  statement, before anything else has happened; from 25 to 40 inclusive the filter flag in
  the namespace, and in every call of the decode stage, is false whatever the user set;
  above 40 it is the user's flag.
\<close>

theorem sample_rate_floor_and_filter:
  "(sampleRate a < 25 \<longrightarrow>
      main c (start a f) =
        Raised (AssertionError ''sampleRate<25 currently not supported'') (start a f)
      \<and> no_stage_ran (start a f))
   \<and> (25 \<le> sampleRate a \<and> sampleRate a \<le> 40 \<longrightarrow> filter_flag_is False (main c (start a f)))
   \<and> (40 < sampleRate a \<longrightarrow> filter_flag_is (useFilter a) (main c (start a f)))"
proof -
  have low: "sampleRate a < 25 \<longrightarrow>
      main c (start a f) =
        Raised (AssertionError ''sampleRate<25 currently not supported'') (start a f)
      \<and> no_stage_ran (start a f)"
    using sample_rate_rejected[of a f] by (simp add: main_split no_stage_ran_def start_def)
  have mid: "25 \<le> sampleRate a \<and> sampleRate a \<le> 40 \<longrightarrow>
      filter_flag_is False (main c (start a f))"
    using filter_flag_main[of a c f] by auto
  have high: "40 < sampleRate a \<longrightarrow> filter_flag_is (useFilter a) (main c (start a f))"
    using filter_flag_main[of a c f] by auto
  show ?thesis using low mid high by blast
qed

text \<open>
  Claim C3. For every input path (of a run that gets past the sample-rate and input-file
  checks), the stem is the file-name component of the path, that is the part after the last
  slash, cut at its first dot, and each of the seven output paths is its resolved folder,
  a slash unless the folder is empty or already ends with one, then the stem, then the fixed
  suffix of the artifact.
\<close>

theorem output_file_names:
  assumes "25 \<le> sampleRate a"
    and "processInputFile a \<longrightarrow> os_path_isfile f (inputFile a)"
    and "cfg = args (machine_of (main c (start a f)))"
    and "name = snd (os_path_split (inputFile a))"
    and "stem = takeWhile (\<lambda>x. x \<noteq> CHR ''.'') name"
  shows "(\<exists>h. inputFile a = h @ name \<and> (h = [] \<or> last h = CHR ''/''))
     \<and> CHR ''/'' \<notin> set name
     \<and> CHR ''.'' \<notin> set stem \<and> (stem = name \<or> (\<exists>rest. name = stem @ CHR ''.'' # rest))
     \<and> summaryFile cfg
         = (if summaryFolder cfg = [] \<or> last (summaryFolder cfg) = CHR ''/''
            then summaryFolder cfg else summaryFolder cfg @ ''/'')
           @ stem @ ''-summary.json''
     \<and> nonWearFile cfg
         = (if nonWearFolder cfg = [] \<or> last (nonWearFolder cfg) = CHR ''/''
            then nonWearFolder cfg else nonWearFolder cfg @ ''/'')
           @ stem @ ''-nonWearBouts.csv.gz''
     \<and> epochFile cfg
         = (if epochFolder cfg = [] \<or> last (epochFolder cfg) = CHR ''/''
            then epochFolder cfg else epochFolder cfg @ ''/'')
           @ stem @ ''-epoch.csv.gz''
     \<and> stationaryFile cfg
         = (if stationaryFolder cfg = [] \<or> last (stationaryFolder cfg) = CHR ''/''
            then stationaryFolder cfg else stationaryFolder cfg @ ''/'')
           @ stem @ ''-stationaryPoints.csv.gz''
     \<and> tsFile cfg
         = (if timeSeriesFolder cfg = [] \<or> last (timeSeriesFolder cfg) = CHR ''/''
            then timeSeriesFolder cfg else timeSeriesFolder cfg @ ''/'')
           @ stem @ ''-timeSeries.csv.gz''
     \<and> rawFile cfg
         = (if rawFolder cfg = [] \<or> last (rawFolder cfg) = CHR ''/''
            then rawFolder cfg else rawFolder cfg @ ''/'')
           @ stem @ ''.csv.gz''
     \<and> npyFile cfg
         = (if npyFolder cfg = [] \<or> last (npyFolder cfg) = CHR ''/''
            then npyFolder cfg else npyFolder cfg @ ''/'')
           @ stem @ ''.npy''"
proof -
  have cfg: "cfg = resolved_args a"
    using main_args_resolved[OF assms(1,2)] assms(3) by simp
  have name: "name = rfind_tail (inputFile a)"
    using assms(4) by (simp add: os_path_split_snd)
  have stem: "stem = takeWhile (\<lambda>x. x \<noteq> dot) (snd (os_path_split (inputFile a)))"
    using assms(4,5) by (simp add: dot_def)
  have 1: "\<exists>h. inputFile a = h @ name \<and> (h = [] \<or> last h = CHR ''/'')"
    using rfind_parts[of "inputFile a"] rfind_head_ends_with_sep[of "inputFile a"] name
    by (metis sep_def)
  have 2: "CHR ''/'' \<notin> set name"
    using rfind_tail_no_sep[of "inputFile a"] name by (simp add: sep_def)
  have 3: "CHR ''.'' \<notin> set stem"
    using assms(5) by (auto dest: set_takeWhileD)
  have 4: "stem = name \<or> (\<exists>rest. name = stem @ CHR ''.'' # rest)"
    using takeWhile_first_dot[of name] assms(5) by (simp add: dot_def)
  have s: "sep \<notin> set stem"
    using 2 assms(5) by (auto simp: sep_def dest: set_takeWhileD)
  have j: "os_path_join d (stem @ suffix)
           = (if d = [] \<or> last d = CHR ''/'' then d else d @ ''/'') @ stem @ suffix"
    if "suffix \<noteq> []" and "hd suffix \<noteq> sep" for d suffix
    using os_path_join_stem[OF s that] .
  have 5: "summaryFile cfg = os_path_join (summaryFolder cfg) (stem @ ''-summary.json'')"
    "nonWearFile cfg = os_path_join (nonWearFolder cfg) (stem @ ''-nonWearBouts.csv.gz'')"
    "epochFile cfg = os_path_join (epochFolder cfg) (stem @ ''-epoch.csv.gz'')"
    "stationaryFile cfg
         = os_path_join (stationaryFolder cfg) (stem @ ''-stationaryPoints.csv.gz'')"
    "tsFile cfg = os_path_join (timeSeriesFolder cfg) (stem @ ''-timeSeries.csv.gz'')"
    "rawFile cfg = os_path_join (rawFolder cfg) (stem @ ''.csv.gz'')"
    "npyFile cfg = os_path_join (npyFolder cfg) (stem @ ''.npy'')"
    unfolding cfg stem by (rule resolved_args_files)+
  have 6: "summaryFile cfg
         = (if summaryFolder cfg = [] \<or> last (summaryFolder cfg) = CHR ''/''
            then summaryFolder cfg else summaryFolder cfg @ ''/'')
           @ stem @ ''-summary.json''"
    unfolding 5(1) by (rule j) (simp_all add: sep_def)
  have 7: "nonWearFile cfg
         = (if nonWearFolder cfg = [] \<or> last (nonWearFolder cfg) = CHR ''/''
            then nonWearFolder cfg else nonWearFolder cfg @ ''/'')
           @ stem @ ''-nonWearBouts.csv.gz''"
    unfolding 5(2) by (rule j) (simp_all add: sep_def)
  have 8: "epochFile cfg
         = (if epochFolder cfg = [] \<or> last (epochFolder cfg) = CHR ''/''
            then epochFolder cfg else epochFolder cfg @ ''/'')
           @ stem @ ''-epoch.csv.gz''"
    unfolding 5(3) by (rule j) (simp_all add: sep_def)
  have 9: "stationaryFile cfg
         = (if stationaryFolder cfg = [] \<or> last (stationaryFolder cfg) = CHR ''/''
            then stationaryFolder cfg else stationaryFolder cfg @ ''/'')
           @ stem @ ''-stationaryPoints.csv.gz''"
    unfolding 5(4) by (rule j) (simp_all add: sep_def)
  have 10: "tsFile cfg
         = (if timeSeriesFolder cfg = [] \<or> last (timeSeriesFolder cfg) = CHR ''/''
            then timeSeriesFolder cfg else timeSeriesFolder cfg @ ''/'')
           @ stem @ ''-timeSeries.csv.gz''"
    unfolding 5(5) by (rule j) (simp_all add: sep_def)
  have 11: "rawFile cfg
         = (if rawFolder cfg = [] \<or> last (rawFolder cfg) = CHR ''/''
            then rawFolder cfg else rawFolder cfg @ ''/'')
           @ stem @ ''.csv.gz''"
    unfolding 5(6) by (rule j) (simp_all add: sep_def)
  have 12: "npyFile cfg
         = (if npyFolder cfg = [] \<or> last (npyFolder cfg) = CHR ''/''
            then npyFolder cfg else npyFolder cfg @ ''/'')
           @ stem @ ''.npy''"
    unfolding 5(7) by (rule j) (simp_all add: sep_def)
  show ?thesis by (intro conjI 1 2 3 4 6 7 8 9 10 11 12)
qed

text \<open>
  Claim C4. Each of the seven per-artifact folders left empty resolves to the general
  output folder, the general output folder left empty resolves to the folder of the input
  file, and a folder the user gave is kept.
\<close>

theorem output_folder_defaults:
  assumes "25 \<le> sampleRate a"
    and "processInputFile a \<longrightarrow> os_path_isfile f (inputFile a)"
    and "cfg = args (machine_of (main c (start a f)))"
  shows "outputFolder cfg =
           (if outputFolder a = [] then fst (os_path_split (inputFile a)) else outputFolder a)
     \<and> summaryFolder cfg = (if summaryFolder a = [] then outputFolder cfg else summaryFolder a)
     \<and> nonWearFolder cfg = (if nonWearFolder a = [] then outputFolder cfg else nonWearFolder a)
     \<and> epochFolder cfg = (if epochFolder a = [] then outputFolder cfg else epochFolder a)
     \<and> stationaryFolder cfg =
           (if stationaryFolder a = [] then outputFolder cfg else stationaryFolder a)
     \<and> timeSeriesFolder cfg =
           (if timeSeriesFolder a = [] then outputFolder cfg else timeSeriesFolder a)
     \<and> rawFolder cfg = (if rawFolder a = [] then outputFolder cfg else rawFolder a)
     \<and> npyFolder cfg = (if npyFolder a = [] then outputFolder cfg else npyFolder a)"
proof -
  have cfg: "cfg = resolved_args a"
    using main_args_resolved[OF assms(1,2)] assms(3) by simp
  show ?thesis
    unfolding cfg
    using resolved_args_outputFolder[of a] resolved_args_folders[of a] by presburger
qed

text \<open>Claim C2 at the rates 10, 30 and 100, the user asking for the filter.\<close>

theorem sample_rate_floor_and_filter_witness:
  "sampleRate (example_args\<lparr>sampleRate := 10\<rparr>) < 25
   \<and> main example_collaborators (start (example_args\<lparr>sampleRate := 10\<rparr>) example_fs) =
        Raised (AssertionError ''sampleRate<25 currently not supported'')
          (start (example_args\<lparr>sampleRate := 10\<rparr>) example_fs)
   \<and> 25 \<le> sampleRate (example_args\<lparr>sampleRate := 30\<rparr>)
   \<and> sampleRate (example_args\<lparr>sampleRate := 30\<rparr>) \<le> 40
   \<and> useFilter (example_args\<lparr>sampleRate := 30\<rparr>)
   \<and> filter_flag_is False
        (main example_collaborators (start (example_args\<lparr>sampleRate := 30\<rparr>) example_fs))
   \<and> 40 < sampleRate example_args
   \<and> filter_flag_is (useFilter example_args)
        (main example_collaborators (start example_args example_fs))"
  using sample_rate_floor_and_filter[of "example_args\<lparr>sampleRate := 10\<rparr>"
          example_collaborators example_fs]
        sample_rate_floor_and_filter[of "example_args\<lparr>sampleRate := 30\<rparr>"
          example_collaborators example_fs]
        sample_rate_floor_and_filter[of example_args example_collaborators example_fs]
  by (simp add: example_args_def)

text \<open>
  Claim C3 at the input path \<^verbatim>\<open>/data/sample.cwa.gz\<close> with every folder left empty: the
  stem is \<^verbatim>\<open>sample\<close>, every folder resolves to \<^verbatim>\<open>/data\<close>, and the seven paths are
  \<^verbatim>\<open>/data/sample\<close> followed by the suffix of the artifact.
\<close>

theorem output_file_names_witness:
  "25 \<le> sampleRate example_args
   \<and> processInputFile example_args \<and> os_path_isfile example_fs (inputFile example_args)
   \<and> inputFile example_args = ''/data/sample.cwa.gz''
   \<and> snd (os_path_split (inputFile example_args)) = ''sample.cwa.gz''
   \<and> takeWhile (\<lambda>x. x \<noteq> CHR ''.'') ''sample.cwa.gz'' = ''sample''
   \<and> summaryFile (args (machine_of (main example_collaborators (start example_args example_fs))))
       = ''/data/sample-summary.json''
   \<and> nonWearFile (args (machine_of (main example_collaborators (start example_args example_fs))))
       = ''/data/sample-nonWearBouts.csv.gz''
   \<and> epochFile (args (machine_of (main example_collaborators (start example_args example_fs))))
       = ''/data/sample-epoch.csv.gz''
   \<and> stationaryFile
        (args (machine_of (main example_collaborators (start example_args example_fs))))
       = ''/data/sample-stationaryPoints.csv.gz''
   \<and> tsFile (args (machine_of (main example_collaborators (start example_args example_fs))))
       = ''/data/sample-timeSeries.csv.gz''
   \<and> rawFile (args (machine_of (main example_collaborators (start example_args example_fs))))
       = ''/data/sample.csv.gz''
   \<and> npyFile (args (machine_of (main example_collaborators (start example_args example_fs))))
       = ''/data/sample.npy''"
proof -
  let ?cfg = "args (machine_of (main example_collaborators (start example_args example_fs)))"
  have 1: "25 \<le> sampleRate example_args" by (simp add: example_args_def)
  have 2: "snd (os_path_split (inputFile example_args)) = ''sample.cwa.gz''"
    by (simp add: example_args_def example_split)
  have 3: "takeWhile (\<lambda>x. x \<noteq> CHR ''.'') ''sample.cwa.gz'' = ''sample''" by simp
  have 4: "inputFile example_args = ''/data/sample.cwa.gz''" by (simp add: example_args_def)
  have 5: "processInputFile example_args" by (simp add: example_args_def)
  note t = output_file_names[OF 1 example_pre refl 2[symmetric] 3[symmetric],
            of example_collaborators]
  have a: "summaryFile ?cfg = ''/data/sample-summary.json''"
    using t[THEN conjunct2, THEN conjunct2, THEN conjunct2, THEN conjunct2, THEN conjunct1]
    by (simp add: example_folders)
  have b: "nonWearFile ?cfg = ''/data/sample-nonWearBouts.csv.gz''"
    using t[THEN conjunct2, THEN conjunct2, THEN conjunct2, THEN conjunct2, THEN conjunct2,
            THEN conjunct1]
    by (simp add: example_folders)
  have c: "epochFile ?cfg = ''/data/sample-epoch.csv.gz''"
    using t[THEN conjunct2, THEN conjunct2, THEN conjunct2, THEN conjunct2, THEN conjunct2,
            THEN conjunct2, THEN conjunct1]
    by (simp add: example_folders)
  have d: "stationaryFile ?cfg = ''/data/sample-stationaryPoints.csv.gz''"
    using t[THEN conjunct2, THEN conjunct2, THEN conjunct2, THEN conjunct2, THEN conjunct2,
            THEN conjunct2, THEN conjunct2, THEN conjunct1]
    by (simp add: example_folders)
  have e: "tsFile ?cfg = ''/data/sample-timeSeries.csv.gz''"
    using t[THEN conjunct2, THEN conjunct2, THEN conjunct2, THEN conjunct2, THEN conjunct2,
            THEN conjunct2, THEN conjunct2, THEN conjunct2, THEN conjunct1]
    by (simp add: example_folders)
  have g: "rawFile ?cfg = ''/data/sample.csv.gz''"
    using t[THEN conjunct2, THEN conjunct2, THEN conjunct2, THEN conjunct2, THEN conjunct2,
            THEN conjunct2, THEN conjunct2, THEN conjunct2, THEN conjunct2, THEN conjunct1]
    by (simp add: example_folders)
  have h: "npyFile ?cfg = ''/data/sample.npy''"
    using t[THEN conjunct2, THEN conjunct2, THEN conjunct2, THEN conjunct2, THEN conjunct2,
            THEN conjunct2, THEN conjunct2, THEN conjunct2, THEN conjunct2, THEN conjunct2]
    by (simp add: example_folders)
  show ?thesis by (intro conjI 1 2 3 4 5 example_file a b c d e g h)
qed

text \<open>Claim C4 with every folder left empty, and with the summary folder given.\<close>

theorem output_folder_defaults_witness:
  "25 \<le> sampleRate example_args
   \<and> processInputFile example_args \<and> os_path_isfile example_fs (inputFile example_args)
   \<and> outputFolder example_args = [] \<and> epochFolder example_args = []
   \<and> outputFolder (args (machine_of (main example_collaborators (start example_args example_fs))))
       = ''/data''
   \<and> epochFolder (args (machine_of (main example_collaborators (start example_args example_fs))))
       = ''/data''
   \<and> summaryFolder
        (args (machine_of (main example_collaborators
           (start (example_args\<lparr>summaryFolder := ''/out''\<rparr>) example_fs)))) = ''/out''"
proof -
  have 1: "25 \<le> sampleRate example_args" by (simp add: example_args_def)
  have 2: "25 \<le> sampleRate (example_args\<lparr>summaryFolder := ''/out''\<rparr>)"
    by (simp add: example_args_def)
  have 3: "processInputFile (example_args\<lparr>summaryFolder := ''/out''\<rparr>) \<longrightarrow>
      os_path_isfile example_fs (inputFile (example_args\<lparr>summaryFolder := ''/out''\<rparr>))"
    using example_pre by simp
  have 4: "fst (os_path_split (inputFile example_args)) = ''/data''"
    by (simp add: example_args_def example_split)
  have 5: "outputFolder example_args = []" "epochFolder example_args = []"
    by (simp_all add: example_args_def)
  show ?thesis
    using output_folder_defaults[OF 1 example_pre refl, of example_collaborators]
      output_folder_defaults[OF 2 3 refl, of example_collaborators] 1 example_file 4 5
    by simp
qed

text \<open>
  Claim C5. When both timestamps are present and start is after end, the time-order check
  raises an assertion error whose message carries both timestamps; when they are equal or
  start is before end, or when one of them is absent, the check passes. These cases are
  exhaustive. In a run that reaches the check, the failure ends the run before any stage.
\<close>

theorem time_order_validation:
  "(startTime (args m) = Some s \<and> endTime (args m) = Some e \<and> datetime_gt s e \<longrightarrow>
      check_time_order m = Raised (AssertionError (time_order_msg s e)) m
      \<and> time_order_msg s e =
          ''startTime and endTime arguments are invalid!'' @ [newline]
          @ ''startTime: '' @ strftime s @ [newline]
          @ ''endTime:, '' @ strftime e @ [newline])
   \<and> (startTime (args m) = Some s \<and> endTime (args m) = Some e \<and> (s = e \<or> datetime_lt s e) \<longrightarrow>
      check_time_order m = Done m)
   \<and> (startTime (args m) = None \<or> endTime (args m) = None \<longrightarrow> check_time_order m = Done m)
   \<and> (datetime_gt s e \<or> s = e \<or> datetime_lt s e)
   \<and> (25 \<le> sampleRate a \<and> (processInputFile a \<longrightarrow> os_path_isfile f (inputFile a))
       \<and> list_all (os_access_W f) (gate_folders (args (machine_of (main c (start a f)))))
       \<and> startTime a = Some s \<and> endTime a = Some e \<and> datetime_gt s e \<longrightarrow>
      raised (main c (start a f)) = Some (AssertionError (time_order_msg s e))
      \<and> no_stage_ran (machine_of (main c (start a f))))"
proof -
  have 1: "startTime (args m) = Some s \<and> endTime (args m) = Some e \<and> datetime_gt s e \<longrightarrow>
      check_time_order m = Raised (AssertionError (time_order_msg s e)) m
      \<and> time_order_msg s e =
          ''startTime and endTime arguments are invalid!'' @ [newline]
          @ ''startTime: '' @ strftime s @ [newline]
          @ ''endTime:, '' @ strftime e @ [newline]"
    by (simp add: check_time_order_def datetime_gt_not_le time_order_msg_def)
  have 2: "startTime (args m) = Some s \<and> endTime (args m) = Some e \<and> (s = e \<or> datetime_lt s e)
      \<longrightarrow> check_time_order m = Done m"
    using datetime_le_cases[of s e] by (auto simp: check_time_order_def)
  have 3: "startTime (args m) = None \<or> endTime (args m) = None \<longrightarrow> check_time_order m = Done m"
    by (auto simp: check_time_order_def split: option.splits)
  have 5: "raised (main c (start a f)) = Some (AssertionError (time_order_msg s e))
      \<and> no_stage_ran (machine_of (main c (start a f)))"
    if h: "25 \<le> sampleRate a" "processInputFile a \<longrightarrow> os_path_isfile f (inputFile a)"
      "list_all (os_access_W f) (gate_folders (args (machine_of (main c (start a f)))))"
      "startTime a = Some s" "endTime a = Some e" "datetime_gt s e"
  proof -
    have gate: "\<forall>p \<in> set (gate_folders (resolved_args a)). os_access_W f p"
      using h(3) main_args_resolved[OF h(1,2), of c] by (simp add: list_all_iff)
    have "\<not> time_order_ok a"
      using h(4,5,6) by (simp add: time_order_ok_def datetime_gt_not_le)
    then have "main c (start a f) =
        Raised (AssertionError (time_order_msg s e)) (gated_machine a f)"
      using validation_time_fails[OF h(1,2) gate] h(4,5) by (simp add: main_split)
    then show ?thesis using no_stage_gated[of a f] by simp
  qed
  show ?thesis using 1 2 3 datetime_trichotomy[of s e] 5 by blast
qed

text \<open>Claim C5 with start 2020-01-09T00:00 and end 2020-01-02T12:30, and with the two
  exchanged.\<close>

theorem time_order_validation_witness:
  "datetime_gt example_start example_end
   \<and> check_time_order
        (start (example_args\<lparr>startTime := Some example_start, endTime := Some example_end\<rparr>)
           example_fs)
       = Raised (AssertionError (time_order_msg example_start example_end))
          (start (example_args\<lparr>startTime := Some example_start, endTime := Some example_end\<rparr>)
             example_fs)
   \<and> strftime example_start = ''2020-01-09T00:00'' \<and> strftime example_end = ''2020-01-02T12:30''
   \<and> datetime_lt example_end example_start
   \<and> check_time_order
        (start (example_args\<lparr>startTime := Some example_end, endTime := Some example_start\<rparr>)
           example_fs)
       = Done (start (example_args\<lparr>startTime := Some example_end,
                                    endTime := Some example_start\<rparr>) example_fs)
   \<and> check_time_order (start example_args example_fs) = Done (start example_args example_fs)
   \<and> raised (main example_collaborators
        (start (example_args\<lparr>startTime := Some example_start, endTime := Some example_end\<rparr>)
           example_fs))
       = Some (AssertionError (time_order_msg example_start example_end))
   \<and> no_stage_ran (machine_of (main example_collaborators
        (start (example_args\<lparr>startTime := Some example_start, endTime := Some example_end\<rparr>)
           example_fs)))"
proof -
  let ?a = "example_args\<lparr>startTime := Some example_start, endTime := Some example_end\<rparr>"
  let ?b = "example_args\<lparr>startTime := Some example_end, endTime := Some example_start\<rparr>"
  have gt: "datetime_gt example_start example_end"
    by (simp add: datetime_gt_def datetime_cmp_def datetime_fields_def example_start_def example_end_def)
  have lt: "datetime_lt example_end example_start"
    by (simp add: datetime_lt_def datetime_cmp_def datetime_fields_def example_start_def example_end_def)
  have fmt: "strftime example_start = ''2020-01-09T00:00''"
    "strftime example_end = ''2020-01-02T12:30''"
    by (simp_all add: strftime_def pad2_def year_digits_def digit_def example_start_def example_end_def)
  have sr: "25 \<le> sampleRate ?a" by (simp add: example_args_def)
  have pre: "processInputFile ?a \<longrightarrow> os_path_isfile example_fs (inputFile ?a)"
    using example_file by simp
  have gate: "list_all (os_access_W example_fs)
      (gate_folders (args (machine_of (main example_collaborators (start ?a example_fs)))))"
    using main_args_resolved[OF sr pre, of example_collaborators] example_access
    by (simp add: example_gate_folders numeral_eq_Suc)
  have h1: "startTime (args (start ?a example_fs)) = Some example_start
      \<and> endTime (args (start ?a example_fs)) = Some example_end
      \<and> datetime_gt example_start example_end"
    using gt by (simp add: start_def)
  have h2: "startTime (args (start ?b example_fs)) = Some example_end
      \<and> endTime (args (start ?b example_fs)) = Some example_start
      \<and> (example_end = example_start \<or> datetime_lt example_end example_start)"
    using lt by (simp add: start_def)
  have h3: "startTime (args (start example_args example_fs)) = None
      \<or> endTime (args (start example_args example_fs)) = None"
    by (simp add: start_def example_args_def)
  have h5: "25 \<le> sampleRate ?a \<and> (processInputFile ?a \<longrightarrow> os_path_isfile example_fs (inputFile ?a))
       \<and> list_all (os_access_W example_fs)
           (gate_folders (args (machine_of (main example_collaborators (start ?a example_fs)))))
       \<and> startTime ?a = Some example_start \<and> endTime ?a = Some example_end
       \<and> datetime_gt example_start example_end"
    using sr pre gate gt by simp
  note A = time_order_validation[of "start ?a example_fs" example_start example_end,
      THEN conjunct1, THEN mp, OF h1, THEN conjunct1]
  note B = time_order_validation[of "start ?b example_fs" example_end example_start,
      THEN conjunct2, THEN conjunct1, THEN mp, OF h2]
  note C = time_order_validation[of "start example_args example_fs",
      THEN conjunct2, THEN conjunct2, THEN conjunct1, THEN mp, OF h3]
  note D = time_order_validation[of _ example_start example_end "?a" example_fs
      example_collaborators,
      THEN conjunct2, THEN conjunct2, THEN conjunct2, THEN conjunct2, THEN mp, OF h5]
  show ?thesis
    by (intro conjI gt A fmt lt B C D[THEN conjunct1] D[THEN conjunct2])
qed

text \<open>
  Claim C6. The claim says that with processing skipped the extension \<^verbatim>\<open>.cwa\<close> is appended
  to an input path that has none. The code does so at the path \<^verbatim>\<open>sample\<close> and does not at
  the path \<^verbatim>\<open>./sample\<close>: its file name \<^verbatim>\<open>sample\<close> has no extension either, but the test
  of line 256 splits the whole path at the dots, finds the one of the folder, and appends
  nothing; the run goes on with the input path \<^verbatim>\<open>./sample\<close>.
\<close>

theorem input_extension_not_appended:
  "\<not> processInputFile example_skip_args
   \<and> inputFile example_skip_args = ''./sample''
   \<and> snd (os_path_split (inputFile example_skip_args)) = ''sample''
   \<and> CHR ''.'' \<notin> set ''sample''
   \<and> split_str dot ''./sample'' = ['''', ''/sample'']
   \<and> check_inputFile (start example_skip_args example_fs) = Done (start example_skip_args example_fs)
   \<and> inputFile (args (machine_of (main example_collaborators
        (start example_skip_args example_fs)))) = ''./sample''
   \<and> inputFile (args (machine_of (main example_collaborators
        (start (example_skip_args\<lparr>inputFile := ''sample''\<rparr>) example_fs)))) = ''sample.cwa''"
proof -
  let ?s = "example_skip_args\<lparr>inputFile := ''sample''\<rparr>"
  have 1: "\<not> processInputFile example_skip_args" "inputFile example_skip_args = ''./sample''"
    by (simp_all add: example_skip_args_def)
  have 2: "snd (os_path_split (inputFile example_skip_args)) = ''sample''"
    by (simp add: 1 os_path_split_def rfind_tail_def sep_def Let_def)
  have 3: "split_str dot ''./sample'' = ['''', ''/sample'']"
    by (simp add: dot_def)
  have 4: "check_inputFile (start example_skip_args example_fs)
      = Done (start example_skip_args example_fs)"
    by (simp add: check_inputFile_def start_def 1 split_str_short dot_def)
  have sr: "25 \<le> sampleRate example_skip_args" "25 \<le> sampleRate ?s"
    by (simp_all add: example_skip_args_def example_args_def)
  have np: "processInputFile ?s \<longrightarrow> os_path_isfile example_fs (inputFile ?s)"
    using 1 by simp
  have 5: "inputFile (args (machine_of (main example_collaborators
        (start example_skip_args example_fs)))) = ''./sample''"
    using main_args_resolved[OF sr(1), of example_fs example_collaborators] 1
    by (simp add: resolved_args_inputFile dot_def)
  have 6: "inputFile (args (machine_of (main example_collaborators
        (start ?s example_fs)))) = ''sample.cwa''"
    using main_args_resolved[OF sr(2) np, of example_collaborators] 1
    by (simp add: resolved_args_inputFile dot_def)
  have 7: "CHR ''.'' \<notin> set ''sample''" by simp
  show ?thesis by (intro conjI 1 2 3 4 5 6 7)
qed

text \<open>
  Claim C7. In every run that reaches the Epoch-Summarize stage, \<^verbatim>\<open>main\<close> writes the
  summary key \<^verbatim>\<open>file-name\<close> exactly once, and does so before that stage: with the raw
  input path when the input file is processed, and then the decode stage has been called
  (once, after the write, with a summary holding just that key); with the derived epoch
  file path when processing is skipped, and then the decode stage is never called and
  the summarise stage receives a summary holding just that key.
\<close>

theorem file_name_set_once:
  assumes "t = trace (machine_of (main c (start a f)))"
    and "cfg = args (machine_of (main c (start a f)))"
    and "list_ex is_summarise t"
  shows "filter sets_file_name (before_summarise t) =
           [SetSummary ''file-name''
              (Str (if processInputFile a then inputFile a else epochFile cfg))]
     \<and> filter sets_file_name t =
           [SetSummary ''file-name''
              (Str (if processInputFile a then inputFile a else epochFile cfg))]
     \<and> (processInputFile a \<longrightarrow>
          (\<exists>cols. filter is_decode (before_summarise t) =
             [CallDecode cfg cols [''file-name'' \<mapsto> Str (inputFile a)]]))
     \<and> (\<not> processInputFile a \<longrightarrow>
          filter is_decode t = []
          \<and> (\<exists>es. t = before_summarise t
                 @ CallSummarise cfg [''file-name'' \<mapsto> Str (epochFile cfg)] # es))"
proof -
  obtain Q P s es where sh: "list_all quiet_event Q" "list_all post_event es"
     "t = Q @ P @ CallSummarise (resolved_args a) s # es"
     "cfg = resolved_args a"
     "if processInputFile a
         then (\<exists>cols. P = [SetSummary ''file-name'' (Str (inputFile a)),
                 CallDecode (resolved_args a) cols [''file-name'' \<mapsto> Str (inputFile a)]])
         else P = [SetSummary ''file-name'' (Str (epochFile (resolved_args a)))]
              \<and> s = [''file-name'' \<mapsto> Str (epochFile (resolved_args a))]"
    using reached_summarise_shape[of c a f] assms by blast
  note q = quiet_filters[OF sh(1)]
  note p = post_filters[OF sh(2)]
  have nP: "filter is_summarise P = []"
    using sh(5) by (auto split: if_splits)
  have b: "before_summarise t = Q @ P"
    using before_summarise_shape[of "Q @ P" "resolved_args a" s es] q(3) nP sh(3) by simp
  have fP: "filter sets_file_name P =
      [SetSummary ''file-name'' (Str (if processInputFile a then inputFile a else epochFile cfg))]"
    using sh(4,5) by (auto split: if_splits)
  have 1: "filter sets_file_name (before_summarise t) =
      [SetSummary ''file-name'' (Str (if processInputFile a then inputFile a else epochFile cfg))]"
    unfolding b using q(1) fP by simp
  have 2: "filter sets_file_name t =
      [SetSummary ''file-name'' (Str (if processInputFile a then inputFile a else epochFile cfg))]"
    unfolding sh(3) using q(1) p(1) fP by simp
  have 3: "processInputFile a \<longrightarrow>
          (\<exists>cols. filter is_decode (before_summarise t) =
             [CallDecode cfg cols [''file-name'' \<mapsto> Str (inputFile a)]])"
    unfolding b using q(2) sh(4,5) by auto
  have 4: "\<not> processInputFile a \<longrightarrow>
          filter is_decode t = []
          \<and> (\<exists>es. t = before_summarise t
                 @ CallSummarise cfg [''file-name'' \<mapsto> Str (epochFile cfg)] # es)"
  proof
    assume n: "\<not> processInputFile a"
    then have P: "P = [SetSummary ''file-name'' (Str (epochFile (resolved_args a)))]"
      and s: "s = [''file-name'' \<mapsto> Str (epochFile (resolved_args a))]"
      using sh(5) by simp_all
    have d: "filter is_decode t = []"
      unfolding sh(3) using q(2) p(2) P by simp
    have "t = before_summarise t
                 @ CallSummarise cfg [''file-name'' \<mapsto> Str (epochFile cfg)] # es"
      unfolding b using sh(3,4) s by simp
    then show "filter is_decode t = []
          \<and> (\<exists>es. t = before_summarise t
                 @ CallSummarise cfg [''file-name'' \<mapsto> Str (epochFile cfg)] # es)"
      using d by blast
  qed
  show ?thesis by (intro conjI 1 2 3 4)
qed

text \<open>Claim C7 on a run that processes \<^verbatim>\<open>/data/sample.cwa.gz\<close> and on a run that skips
  the processing.\<close>

theorem file_name_set_once_witness:
  "list_ex is_summarise
     (trace (machine_of (main example_collaborators (start example_args example_fs))))
   \<and> processInputFile example_args
   \<and> filter sets_file_name (before_summarise
        (trace (machine_of (main example_collaborators (start example_args example_fs)))))
       = [SetSummary ''file-name'' (Str ''/data/sample.cwa.gz'')]
   \<and> list_ex is_summarise
       (trace (machine_of (main example_collaborators
          (start example_epoch_only_args example_fs))))
   \<and> \<not> processInputFile example_epoch_only_args
   \<and> filter sets_file_name (before_summarise
        (trace (machine_of (main example_collaborators
           (start example_epoch_only_args example_fs)))))
       = [SetSummary ''file-name'' (Str ''/data/sample-epoch.csv.gz'')]
   \<and> filter is_decode
        (trace (machine_of (main example_collaborators
           (start example_epoch_only_args example_fs)))) = []"
proof -
  obtain m1 where m1: "process_input example_collaborators
      (validated_machine example_args example_fs) = Done m1"
    using example_decode_done by blast
  have r1: "list_ex is_summarise
     (trace (machine_of (main example_collaborators (start example_args example_fs))))"
    by (rule summarise_reached[OF example_validation m1])
  have n: "\<not> processInputFile example_epoch_only_args"
    by (simp add: example_epoch_only_args_def)
  have "\<not> processInputFile (args (validated_machine example_epoch_only_args example_fs))"
    using n by (simp add: validated_machine_simps resolved_args_passthrough)
  from process_input_skip[OF this, of example_collaborators]
  have r2: "list_ex is_summarise
       (trace (machine_of (main example_collaborators
          (start example_epoch_only_args example_fs))))"
    by (rule summarise_reached[OF example_epoch_only_validation])
  have cfg: "args (machine_of (main example_collaborators
          (start example_epoch_only_args example_fs))) = resolved_args example_epoch_only_args"
    by (rule main_args_resolved)
       (simp_all add: example_epoch_only_args_def example_args_def)
  note A = file_name_set_once[OF refl refl r1]
  note B = file_name_set_once[OF refl refl r2]
  have A1: "filter sets_file_name (before_summarise
        (trace (machine_of (main example_collaborators (start example_args example_fs)))))
       = [SetSummary ''file-name'' (Str ''/data/sample.cwa.gz'')]"
    using A[THEN conjunct1] example_file(1) by (simp add: example_args_def)
  have B1: "filter sets_file_name (before_summarise
        (trace (machine_of (main example_collaborators
           (start example_epoch_only_args example_fs)))))
       = [SetSummary ''file-name'' (Str ''/data/sample-epoch.csv.gz'')]"
    using B[THEN conjunct1] n by (simp add: cfg example_epoch_file)
  have B2: "filter is_decode
        (trace (machine_of (main example_collaborators
           (start example_epoch_only_args example_fs)))) = []"
    using B[THEN conjunct2, THEN conjunct2, THEN conjunct2] n by blast
  show ?thesis
    by (intro conjI r1 example_file(1) A1 r2 n B1 B2)
qed

text \<open>
  Claim C8. Finalization reads the seven headline keys in their fixed order. When all are
  present the short summary holds their values in that order. When one is absent,
  finalization raises KeyError at the first absent key after having printed only the
  heading: nothing of the summary is printed, the summary file is not written and the
  filesystem is untouched. In every run, a summary that is written to the summary file
  holds all seven keys.
\<close>

theorem headline_keys_required:
  "summaryVals = [''file-name'', ''file-startTime'', ''file-endTime'', ''acc-overall-avg'',
                  ''wearTime-overall(days)'', ''nonWearTime-overall(days)'',
                  ''quality-goodWearTime'']
   \<and> ((\<forall>k \<in> set summaryVals. summary m k \<noteq> None) \<longrightarrow>
        print_short_summary m =
          Done (emit (ShortSummary (map (\<lambda>k. (k, the (summary m k))) summaryVals))
                  (emit (ToScreen ''=== Short summary ==='') m)))
   \<and> ((\<exists>k \<in> set summaryVals. summary m k = None) \<longrightarrow>
        (\<exists>k \<in> set summaryVals. summary m k = None
           \<and> find (\<lambda>k. summary m k = None) summaryVals = Some k
           \<and> run_steps finalization_steps m =
               Raised (KeyError k) (emit (ToScreen ''=== Short summary ==='') m)))
   \<and> (\<forall>p s. WriteSummaryFile p s \<in> set (trace (machine_of (main c (start a f)))) \<longrightarrow>
          (\<forall>k \<in> set summaryVals. s k \<noteq> None))"
proof -
  have 1: "summaryVals = [''file-name'', ''file-startTime'', ''file-endTime'',
      ''acc-overall-avg'', ''wearTime-overall(days)'', ''nonWearTime-overall(days)'',
      ''quality-goodWearTime'']"
    by (simp add: summaryVals_def)
  have 2: "(\<forall>k \<in> set summaryVals. summary m k \<noteq> None) \<longrightarrow>
        print_short_summary m =
          Done (emit (ShortSummary (map (\<lambda>k. (k, the (summary m k))) summaryVals))
                  (emit (ToScreen ''=== Short summary ==='') m))"
    using lookup_all_ok[of summaryVals "summary m"]
    by (auto simp: print_short_summary_def Let_def emit_simps)
  have 3: "(\<exists>k \<in> set summaryVals. summary m k = None) \<longrightarrow>
        (\<exists>k \<in> set summaryVals. summary m k = None
           \<and> find (\<lambda>k. summary m k = None) summaryVals = Some k
           \<and> run_steps finalization_steps m =
               Raised (KeyError k) (emit (ToScreen ''=== Short summary ==='') m))"
  proof
    assume "\<exists>k \<in> set summaryVals. summary m k = None"
    then obtain k where k: "find (\<lambda>k. summary m k = None) summaryVals = Some k"
      by (cases "find (\<lambda>k. summary m k = None) summaryVals") (auto simp: find_None_iff)
    then have "k \<in> set summaryVals" "summary m k = None"
      by (auto simp: find_Some_iff)
    then show "\<exists>k \<in> set summaryVals. summary m k = None
           \<and> find (\<lambda>k. summary m k = None) summaryVals = Some k
           \<and> run_steps finalization_steps m =
               Raised (KeyError k) (emit (ToScreen ''=== Short summary ==='') m)"
      using k finalization_missing_key[OF k] by blast
  qed
  have 4: "\<forall>p s. WriteSummaryFile p s \<in> set (trace (machine_of (main c (start a f)))) \<longrightarrow>
          (\<forall>k \<in> set summaryVals. s k \<noteq> None)"
    using main_written_complete[of c a f] by (simp add: written_complete_def)
  show ?thesis by (intro conjI 1 2 3 4)
qed

text \<open>Claim C8 at a complete summary, at a summary that lacks the keys of the
  summarise stage, and on a whole run that writes its summary file.\<close>

theorem headline_keys_required_witness:
  "list_all (\<lambda>k. example_summary k \<noteq> None) summaryVals
   \<and> print_short_summary ((start example_args example_fs)\<lparr>summary := example_summary\<rparr>) =
       Done (emit (ShortSummary
                [(''file-name'', Str ''/data/sample.cwa.gz''),
                 (''file-startTime'', Str ''2020-01-01 00:00:00''),
                 (''file-endTime'', Str ''2020-01-08 00:00:00''),
                 (''acc-overall-avg'', Num 28), (''wearTime-overall(days)'', Num 7),
                 (''nonWearTime-overall(days)'', Num 0), (''quality-goodWearTime'', Num 1)])
              (emit (ToScreen ''=== Short summary ==='')
                 ((start example_args example_fs)\<lparr>summary := example_summary\<rparr>)))
   \<and> example_partial_summary ''acc-overall-avg'' = None
   \<and> run_steps finalization_steps
        ((start example_args example_fs)\<lparr>summary := example_partial_summary\<rparr>) =
       Raised (KeyError ''acc-overall-avg'')
         (emit (ToScreen ''=== Short summary ==='')
            ((start example_args example_fs)\<lparr>summary := example_partial_summary\<rparr>))
   \<and> WriteSummaryFile (summaryFile (resolved_args example_args)) example_summary
       \<in> set (trace (machine_of (main example_collaborators (start example_args example_fs))))
   \<and> list_all (\<lambda>k. example_summary k \<noteq> None) summaryVals"
proof -
  let ?m = "(start example_args example_fs)\<lparr>summary := example_summary\<rparr>"
  let ?n = "(start example_args example_fs)\<lparr>summary := example_partial_summary\<rparr>"
  have full: "\<forall>k \<in> set summaryVals. summary ?m k \<noteq> None"
    by (simp add: example_summary_def summaryVals_def)
  have full': "list_all (\<lambda>k. example_summary k \<noteq> None) summaryVals"
    using full by (simp add: list_all_iff)
  have part: "example_partial_summary ''acc-overall-avg'' = None"
    by (simp add: example_partial_summary_def)
  have miss: "\<exists>k \<in> set summaryVals. summary ?n k = None"
    using part by (auto simp: summaryVals_def)
  have first: "find (\<lambda>k. summary ?n k = None) summaryVals = Some ''acc-overall-avg''"
    by (simp add: example_partial_summary_def summaryVals_def)
  note A = headline_keys_required[of ?m, THEN conjunct2, THEN conjunct1, THEN mp, OF full]
  note B = headline_keys_required[of ?n, THEN conjunct2, THEN conjunct2, THEN conjunct1,
      THEN mp, OF miss]
  note C = headline_keys_required[of _ example_collaborators example_args example_fs,
      THEN conjunct2, THEN conjunct2, THEN conjunct2, THEN spec, THEN spec, THEN mp,
      OF example_run_writes]
  have A1: "print_short_summary ?m =
       Done (emit (ShortSummary
                [(''file-name'', Str ''/data/sample.cwa.gz''),
                 (''file-startTime'', Str ''2020-01-01 00:00:00''),
                 (''file-endTime'', Str ''2020-01-08 00:00:00''),
                 (''acc-overall-avg'', Num 28), (''wearTime-overall(days)'', Num 7),
                 (''nonWearTime-overall(days)'', Num 0), (''quality-goodWearTime'', Num 1)])
              (emit (ToScreen ''=== Short summary ==='') ?m))"
    using A by (simp add: summaryVals_def example_summary_def)
  have B1: "run_steps finalization_steps ?n =
       Raised (KeyError ''acc-overall-avg'') (emit (ToScreen ''=== Short summary ==='') ?n)"
    using B first by auto
  have C1: "list_all (\<lambda>k. example_summary k \<noteq> None) summaryVals"
    using C by (simp add: list_all_iff)
  show ?thesis
    by (intro conjI full' A1 part B1 example_run_writes C1)
qed

text \<open>
  Claim C10. When processing of the input file is skipped and the user names an epoch
  folder that is none of the other output folders, the run never probes that folder:
  no \<^verbatim>\<open>os.access\<close> call is made on it, and when the other folders are writable and the
  time window is in order the run reaches the Epoch-Summarize stage with the epoch folder
  kept as given, whatever its state. When the epoch folder was left empty it is the general
  output folder, which is among the folders probed.
\<close>

theorem epoch_folder_unchecked_when_skipped:
  assumes "25 \<le> sampleRate a" and "\<not> processInputFile a"
    and "cfg = args (machine_of (main c (start a f)))"
    and "t = trace (machine_of (main c (start a f)))"
  shows "(epochFolder a \<noteq> [] \<and> epochFolder a \<notin> set (checked_folders cfg) \<longrightarrow>
            epochFolder cfg = epochFolder a
            \<and> OsAccess (epochFolder a) \<notin> set t
            \<and> (list_all (os_access_W f) (checked_folders cfg) \<and> time_order_ok a \<longrightarrow>
                 list_ex is_summarise t
                 \<and> (\<exists>es. t = before_summarise t
                      @ CallSummarise cfg [''file-name'' \<mapsto> Str (epochFile cfg)] # es)))
     \<and> (epochFolder a = [] \<longrightarrow>
            epochFolder cfg = outputFolder cfg \<and> outputFolder cfg \<in> set (checked_folders cfg))"
proof -
  have pre: "processInputFile a \<longrightarrow> os_path_isfile f (inputFile a)"
    using assms(2) by simp
  have cfg: "cfg = resolved_args a"
    using main_args_resolved[OF assms(1) pre, of c] assms(3) by simp
  have gf: "gate_folders (resolved_args a) = checked_folders cfg"
    using assms(2) by (simp add: gate_folders_def cfg resolved_args_passthrough)
  have 1: "epochFolder cfg = epochFolder a
            \<and> OsAccess (epochFolder a) \<notin> set t
            \<and> (list_all (os_access_W f) (checked_folders cfg) \<and> time_order_ok a \<longrightarrow>
                 list_ex is_summarise t
                 \<and> (\<exists>es. t = before_summarise t
                      @ CallSummarise cfg [''file-name'' \<mapsto> Str (epochFile cfg)] # es))"
    if h: "epochFolder a \<noteq> []" "epochFolder a \<notin> set (checked_folders cfg)"
  proof -
    have a: "epochFolder cfg = epochFolder a"
      using h(1) by (simp add: cfg resolved_args_folders)
    have b: "OsAccess (epochFolder a) \<notin> set t"
      using probed_folders[OF assms(1) pre, of "epochFolder a" c] h(2) gf assms(4) by auto
    have c: "list_ex is_summarise t
                 \<and> (\<exists>es. t = before_summarise t
                      @ CallSummarise cfg [''file-name'' \<mapsto> Str (epochFile cfg)] # es)"
      if g: "list_all (os_access_W f) (checked_folders cfg)" "time_order_ok a"
    proof -
      have gate: "\<forall>p \<in> set (gate_folders (resolved_args a)). os_access_W f p"
        using g(1) gf by (simp add: list_all_iff)
      have V: "run_steps validation_steps (start a f) = Done (validated_machine a f)"
        by (rule validation_passes[OF assms(1) pre gate g(2)])
      have "\<not> processInputFile (args (validated_machine a f))"
        using assms(2) by (simp add: validated_machine_simps resolved_args_passthrough)
      from process_input_skip[OF this, of c]
      have r: "list_ex is_summarise t"
        unfolding assms(4) by (rule summarise_reached[OF V])
      obtain Q P s es where sh: "list_all quiet_event Q"
         "t = Q @ P @ CallSummarise (resolved_args a) s # es"
         "P = [SetSummary ''file-name'' (Str (epochFile (resolved_args a)))]"
         "s = [''file-name'' \<mapsto> Str (epochFile (resolved_args a))]"
        using reached_summarise_shape[of c a f] r assms(2,4) by auto
      have "filter is_summarise (Q @ P) = []"
        using quiet_filters(3)[OF sh(1)] sh(3) by simp
      then have "before_summarise t = Q @ P"
        using before_summarise_shape[of "Q @ P" "resolved_args a" s es] sh(2) by simp
      then have "t = before_summarise t
                      @ CallSummarise cfg [''file-name'' \<mapsto> Str (epochFile cfg)] # es"
        using sh(2,4) cfg by simp
      then show ?thesis using r by blast
    qed
    show ?thesis using a b c by blast
  qed
  have 2: "epochFolder cfg = outputFolder cfg \<and> outputFolder cfg \<in> set (checked_folders cfg)"
    if "epochFolder a = []"
    using that by (simp add: cfg resolved_args_folders checked_folders_def)
  show ?thesis using 1 2 by blast
qed

text \<open>Claim C10 with the epoch folder \<^verbatim>\<open>/elsewhere\<close>, which does not exist.\<close>

theorem epoch_folder_unchecked_when_skipped_witness:
  "25 \<le> sampleRate example_unchecked_args
   \<and> \<not> processInputFile example_unchecked_args
   \<and> epochFolder example_unchecked_args = ''/elsewhere''
   \<and> ''/elsewhere'' \<notin> present example_fs
   \<and> \<not> os_access_W example_fs ''/elsewhere''
   \<and> epochFolder (args (machine_of (main example_collaborators
        (start example_unchecked_args example_fs)))) = ''/elsewhere''
   \<and> OsAccess ''/elsewhere'' \<notin> set (trace (machine_of (main example_collaborators
        (start example_unchecked_args example_fs))))
   \<and> list_ex is_summarise (trace (machine_of (main example_collaborators
        (start example_unchecked_args example_fs))))"
proof -
  let ?a = example_unchecked_args
  let ?cfg = "args (machine_of (main example_collaborators (start ?a example_fs)))"
  have sr: "25 \<le> sampleRate ?a" by (simp add: example_unchecked_args_def example_args_def)
  have n: "\<not> processInputFile ?a" by (simp add: example_unchecked_args_def)
  have pre: "processInputFile ?a \<longrightarrow> os_path_isfile example_fs (inputFile ?a)"
    using n by simp
  have ef: "epochFolder ?a = ''/elsewhere''" by (simp add: example_unchecked_args_def)
  have np: "''/elsewhere'' \<notin> present example_fs" by (simp add: example_fs_def)
  have na: "\<not> os_access_W example_fs ''/elsewhere''" using np by (simp add: os_access_W_def)
  have cfg: "?cfg = resolved_args ?a" by (rule main_args_resolved[OF sr pre])
  have h1: "epochFolder ?a \<noteq> [] \<and> epochFolder ?a \<notin> set (checked_folders ?cfg)"
    unfolding cfg by (simp add: ef example_unchecked_folders)
  have h2a: "list_all (os_access_W example_fs) (checked_folders ?cfg)"
    unfolding cfg using example_access
    by (simp add: example_unchecked_folders numeral_eq_Suc)
  have h2b: "time_order_ok ?a"
    by (simp add: time_order_ok_def example_unchecked_args_def example_args_def)
  have h2: "list_all (os_access_W example_fs) (checked_folders ?cfg) \<and> time_order_ok ?a"
    using h2a h2b by (rule conjI)
  note T = epoch_folder_unchecked_when_skipped[OF sr n refl refl, of example_collaborators
      example_fs, THEN conjunct1, THEN mp, OF h1]
  have T1: "epochFolder ?cfg = ''/elsewhere''" using T[THEN conjunct1] ef by simp
  have T2: "OsAccess ''/elsewhere'' \<notin> set (trace (machine_of (main example_collaborators
        (start ?a example_fs))))"
    using T[THEN conjunct2, THEN conjunct1] ef by simp
  note T3 = T[THEN conjunct2, THEN conjunct2, THEN mp, OF h2, THEN conjunct1]
  show ?thesis
    by (intro conjI sr n ef np na T1 T2 T3)
qed

text \<open>
  Claim C1. The claim says that every output folder must exist and be writable, and that
  resolution fails before any stage otherwise. The gate of lines 292 to 305 asks only
  \<^verbatim>\<open>os.access(path, W_OK)\<close>, which is true of a writable regular file. With the summary
  folder set to \<^verbatim>\<open>/data/sample.cwa.gz\<close>, an existing writable file and not a folder, the
  gate probes the path and passes, validation ends without an error, the three stages run,
  and the run fails only when the summary file
  \<^verbatim>\<open>/data/sample.cwa.gz/sample-summary.json\<close> is opened.
\<close>

theorem regular_file_passes_folder_gate:
  "summaryFolder example_file_folder_args = ''/data/sample.cwa.gz''
   \<and> os_path_isfile example_file_folder_fs ''/data/sample.cwa.gz''
   \<and> os_access_W example_file_folder_fs ''/data/sample.cwa.gz''
   \<and> summaryFolder (args (machine_of (main example_collaborators
        (start example_file_folder_args example_file_folder_fs)))) = ''/data/sample.cwa.gz''
   \<and> raised (run_steps validation_steps
        (start example_file_folder_args example_file_folder_fs)) = None
   \<and> OsAccess ''/data/sample.cwa.gz'' \<in> set (trace (machine_of (main example_collaborators
        (start example_file_folder_args example_file_folder_fs))))
   \<and> length (filter stage_event (trace (machine_of (main example_collaborators
        (start example_file_folder_args example_file_folder_fs))))) = 3
   \<and> list_ex is_decode (trace (machine_of (main example_collaborators
        (start example_file_folder_args example_file_folder_fs))))
   \<and> list_ex is_summarise (trace (machine_of (main example_collaborators
        (start example_file_folder_args example_file_folder_fs))))
   \<and> CallWriteTS ''/data/sample-timeSeries.csv.gz''
        \<in> set (trace (machine_of (main example_collaborators
             (start example_file_folder_args example_file_folder_fs))))
   \<and> raised (main example_collaborators
        (start example_file_folder_args example_file_folder_fs))
       = Some (OSError ''/data/sample.cwa.gz/sample-summary.json'')"
proof -
  let ?A = "example_file_folder_args"
  let ?F = "example_file_folder_fs"
  let ?V = "validated_machine ?A ?F"
  have a: "processInputFile ?A" "csvTimeXYZTempColsIndex ?A = ''0,1,2,3,4''"
    "summaryFolder ?A = ''/data/sample.cwa.gz''"
    by (simp_all add: example_file_folder_args_def example_args_def)
  have f: "os_path_isfile ?F ''/data/sample.cwa.gz''" "os_access_W ?F ''/data/sample.cwa.gz''"
    by (simp_all add: os_path_isfile_def os_access_W_def example_file_folder_fs_def)
  have bad: "summaryFile (resolved_args ?A) \<in> unopenable ?F"
    by (simp add: example_file_folder_resolved example_file_folder_fs_def)
  obtain M es where M: "main example_collaborators (start ?A ?F)
         = Raised (OSError (summaryFile (resolved_args ?A))) M"
      "trace M = trace ?V @ es" "length (filter stage_event es) = 3"
      "list_ex is_decode es" "list_ex is_summarise es"
      "CallWriteTS (tsFile (resolved_args ?A)) \<in> set es"
    using example_run_unopenable[OF example_file_folder_validation a(1,2) bad] by blast
  have sr: "25 \<le> sampleRate ?A"
    by (simp add: example_file_folder_args_def example_args_def)
  have pre: "processInputFile ?A \<longrightarrow> os_path_isfile ?F (inputFile ?A)"
    by (simp add: example_file_folder_args_def example_args_def example_file_folder_fs_def
        os_path_isfile_def)
  have 1: "summaryFolder (args (machine_of (main example_collaborators (start ?A ?F))))
      = ''/data/sample.cwa.gz''"
    using main_args_resolved[OF sr pre, of example_collaborators]
    by (simp add: example_file_folder_resolved)
  have 2: "raised (run_steps validation_steps (start ?A ?F)) = None"
    by (simp add: example_file_folder_validation)
  have tv: "trace ?V = trace (resolved_machine ?A ?F)
      @ map OsAccess (gate_folders (resolved_args ?A)) @ [Echo (resolved_args ?A)]"
    by (simp add: validated_machine_simps gated_machine_simps)
  have 3: "OsAccess ''/data/sample.cwa.gz''
      \<in> set (trace (machine_of (main example_collaborators (start ?A ?F))))"
    by (simp add: M(1,2) tv example_file_folder_resolved(1))
  have nv: "filter stage_event (trace ?V) = []"
    by (simp add: tv no_stage_resolved no_stage_OsAccess)
  have 4: "length (filter stage_event
      (trace (machine_of (main example_collaborators (start ?A ?F))))) = 3"
    by (simp add: M(1,2,3) nv)
  have 5: "list_ex is_decode (trace (machine_of (main example_collaborators (start ?A ?F))))"
    "list_ex is_summarise (trace (machine_of (main example_collaborators (start ?A ?F))))"
    using M(4,5) by (simp_all add: M(1,2))
  have 6: "CallWriteTS ''/data/sample-timeSeries.csv.gz''
        \<in> set (trace (machine_of (main example_collaborators (start ?A ?F))))"
    using M(6) by (simp add: M(1,2) example_file_folder_resolved)
  have 7: "raised (main example_collaborators (start ?A ?F))
       = Some (OSError ''/data/sample.cwa.gz/sample-summary.json'')"
    by (simp add: M(1) example_file_folder_resolved)
  show ?thesis by (intro conjI a(3) f 1 2 3 4 5 6 7)
qed

text \<open>
  Claim C9. The claim says that with cleanup enabled the exit handler attempts to delete the
  stationary-points file and the epoch file. On the run of \<^verbatim>\<open>/data/sample.cwa.gz\<close> with
  cleanup enabled, which ends without an error and with the handler registered, both files
  exist at exit, the stationary-points file cannot be removed and the epoch file could:
  the handler attempts the stationary-points file, prints the warning, and never attempts
  the epoch file, which is still there afterwards. Both removals sit in one \<^verbatim>\<open>try\<close>
  block, so the first failure skips the second removal. The outcome of the run is
  unchanged.
\<close>

theorem cleanup_abandons_epoch_file:
  "deleteIntermediateFiles example_args
   \<and> raised (main example_collaborators (start example_args example_cleanup_fs)) = None
   \<and> registered (machine_of (main example_collaborators
        (start example_args example_cleanup_fs)))
   \<and> stationaryFile (args (machine_of (main example_collaborators
        (start example_args example_cleanup_fs)))) = ''/data/sample-stationaryPoints.csv.gz''
   \<and> epochFile (args (machine_of (main example_collaborators
        (start example_args example_cleanup_fs)))) = ''/data/sample-epoch.csv.gz''
   \<and> ''/data/sample-stationaryPoints.csv.gz'' \<in> present example_cleanup_fs
   \<and> ''/data/sample-stationaryPoints.csv.gz'' \<in> undeletable example_cleanup_fs
   \<and> ''/data/sample-epoch.csv.gz'' \<in> present example_cleanup_fs
   \<and> ''/data/sample-epoch.csv.gz'' \<notin> undeletable example_cleanup_fs
   \<and> trace (machine_of (program example_collaborators example_args example_cleanup_fs))
       = trace (machine_of (main example_collaborators
            (start example_args example_cleanup_fs)))
         @ [OsRemove ''/data/sample-stationaryPoints.csv.gz'',
            ToScreen ''Could not delete intermediate files'']
   \<and> OsRemove ''/data/sample-epoch.csv.gz''
        \<notin> set (trace (machine_of
             (program example_collaborators example_args example_cleanup_fs)))
   \<and> ''/data/sample-epoch.csv.gz''
        \<in> present (fs (machine_of
             (program example_collaborators example_args example_cleanup_fs)))
   \<and> raised (program example_collaborators example_args example_cleanup_fs) = None"
proof -
  let ?A = "example_args"
  let ?F = "example_cleanup_fs"
  let ?V = "validated_machine ?A ?F"
  let ?s = "''/data/sample-stationaryPoints.csv.gz''"
  let ?e = "''/data/sample-epoch.csv.gz''"
  have a: "processInputFile ?A" "csvTimeXYZTempColsIndex ?A = ''0,1,2,3,4''"
    "deleteIntermediateFiles ?A"
    by (simp_all add: example_args_def)
  have f: "?s \<in> present ?F" "?s \<in> undeletable ?F" "?e \<in> present ?F" "?e \<notin> undeletable ?F"
    by (simp_all add: example_cleanup_fs_def)
  have ok: "summaryFile (resolved_args ?A) \<notin> unopenable ?F"
    by (simp add: example_cleanup_fs_def)
  obtain M es where M: "main example_collaborators (start ?A ?F) = Done M"
      "args M = resolved_args ?A" "registered M = deleteIntermediateFiles ?A"
      "present (fs M) = insert (summaryFile (resolved_args ?A)) (present ?F)"
      "undeletable (fs M) = undeletable ?F"
      "trace M = trace ?V @ es" "\<forall>p. OsRemove p \<notin> set es"
    using example_run_done[OF example_cleanup_validation a(1,2) ok] by blast
  have 1: "raised (main example_collaborators (start ?A ?F)) = None" by (simp add: M(1))
  have 2: "registered (machine_of (main example_collaborators (start ?A ?F)))"
    by (simp add: M(1,3) a(3))
  have 3: "stationaryFile (args (machine_of (main example_collaborators (start ?A ?F)))) = ?s"
    "epochFile (args (machine_of (main example_collaborators (start ?A ?F)))) = ?e"
    by (simp_all add: M(1,2) example_cleanup_resolved)
  have sM: "stationaryFile (args M) = ?s" "epochFile (args M) = ?e"
    by (simp_all add: M(2) example_cleanup_resolved)
  have h: "deleteIntermediateFiles_handler M
      = Done (emit cleanup_warning (emit (OsRemove ?s) M))"
    using handler_stationary_fails[of M] f(1,2) by (simp add: sM M(4,5))
  have p: "program example_collaborators ?A ?F
      = Done (emit cleanup_warning (emit (OsRemove ?s) M))"
    using M(3) a(3) by (simp add: program_def at_exit_def M(1) h)
  have 4: "trace (machine_of (program example_collaborators ?A ?F))
       = trace (machine_of (main example_collaborators (start ?A ?F)))
         @ [OsRemove ?s, ToScreen ''Could not delete intermediate files'']"
    by (simp add: p M(1) emit_simps cleanup_warning_def)
  have q: "OsRemove ?e \<notin> set (trace ?V)"
    using quiet_not_remove[OF quiet_validated] .
  have 5: "OsRemove ?e \<notin> set (trace (machine_of (program example_collaborators ?A ?F)))"
    using q M(7) by (simp add: 4 M(1,6))
  have 6: "?e \<in> present (fs (machine_of (program example_collaborators ?A ?F)))"
    using f(3) by (simp add: p emit_simps M(4))
  have 7: "raised (program example_collaborators ?A ?F) = None" by (simp add: p)
  show ?thesis by (intro conjI a(3) 1 2 3 f 4 5 6 7)
qed

end
